(* ===== verification/Prelude.thy ===== *)
theory Prelude
  imports Main "HOL-Library.AList" "HOL-Library.Sublist" "HOL-Library.List_Lexorder"
    "HOL-Library.Char_ord"
begin

text \<open>
  Shared vocabulary of the development: the named collections that carry the automation,
  results that may be an exception (\<open>'e + 'a\<close>), stateful procedures that may raise
  (\<open>'s \<Rightarrow> ('e + 'a) \<times> 's\<close>), and the generic lemmas on association lists, sorting and
  paging that several components use.
\<close>

named_theorems proc_simps "unfolding rules of the procedure combinators"
named_theorems keeps_intros "introduction rules for invariant preservation"
named_theorems py_simps "evaluation rules of the modelled Python primitives"

section \<open>Results\<close>

text \<open>
  A Python call that may raise is a value of \<open>'e + 'a\<close>: \<open>Inl\<close> carries the exception,
  \<open>Inr\<close> the returned value.
\<close>

definition rbind :: "'e + 'a \<Rightarrow> ('a \<Rightarrow> 'e + 'b) \<Rightarrow> 'e + 'b" where
  "rbind m k = (case m of Inl e \<Rightarrow> Inl e | Inr x \<Rightarrow> k x)"

definition rguard :: "bool \<Rightarrow> 'e \<Rightarrow> 'e + unit" where
  "rguard b e = (if b then Inr () else Inl e)"

fun map_res :: "('a \<Rightarrow> 'e + 'b) \<Rightarrow> 'a list \<Rightarrow> 'e + 'b list" where
  "map_res f [] = Inr []"
| "map_res f (x # xs) = rbind (f x) (\<lambda>y. rbind (map_res f xs) (\<lambda>ys. Inr (y # ys)))"

lemma rbind_simps [simp]:
  "rbind (Inl e) k = Inl e"
  "rbind (Inr x) k = k x"
  by (simp_all add: rbind_def)

lemma rbind_Inr_iff: "rbind m k = Inr y \<longleftrightarrow> (\<exists>x. m = Inr x \<and> k x = Inr y)"
  by (cases m) simp_all

lemma rbind_Inl_iff:
  "rbind m k = Inl e \<longleftrightarrow> m = Inl e \<or> (\<exists>x. m = Inr x \<and> k x = Inl e)"
  by (cases m) simp_all

lemma rbind_InrE [elim]:
  assumes "rbind m k = Inr y"
  obtains x where "m = Inr x" "k x = Inr y"
  using assms by (auto simp: rbind_Inr_iff)

lemma rguard_simps [simp]:
  "rguard b e = Inr u \<longleftrightarrow> b"
  "rguard b e = Inl e' \<longleftrightarrow> \<not> b \<and> e' = e"
  by (auto simp: rguard_def)

lemma map_res_Inr_iff:
  "map_res f xs = Inr ys \<longleftrightarrow> list_all2 (\<lambda>x y. f x = Inr y) xs ys"
  by (induction xs arbitrary: ys) (auto simp: rbind_Inr_iff list_all2_Cons1)

lemma map_res_total: "(\<And>x. x \<in> set xs \<Longrightarrow> f x = Inr (g x)) \<Longrightarrow> map_res f xs = Inr (map g xs)"
  by (induction xs) auto

lemma map_res_Inl_member:
  "map_res f xs = Inl e \<Longrightarrow> \<exists>x \<in> set xs. f x = Inl e"
  by (induction xs) (auto simp: rbind_Inl_iff)

lemma map_sum_InrE:
  assumes "map_sum f g r = Inr y"
  obtains x where "r = Inr x" "y = g x"
  using assms by (cases r) auto

lemma map_sum_InlE:
  assumes "map_sum f g r = Inl y"
  obtains x where "r = Inl x" "y = f x"
  using assms by (cases r) auto

lemma option_eqI: "(\<And>u. a = Some u \<longleftrightarrow> b = Some u) \<Longrightarrow> a = b"
  by (cases a; cases b) auto

section \<open>Stateful procedures\<close>

text \<open>
  An \<open>async def\<close> that mutates state and may raise takes the state and returns the outcome
  with the state it leaves behind: the effects made before an exception stay.
\<close>

type_synonym ('s, 'e, 'a) proc = "'s \<Rightarrow> ('e + 'a) \<times> 's"

definition ret :: "'a \<Rightarrow> ('s, 'e, 'a) proc" where
  "ret x s = (Inr x, s)"

definition raise :: "'e \<Rightarrow> ('s, 'e, 'a) proc" where
  "raise e s = (Inl e, s)"

definition seq :: "('s, 'e, 'a) proc \<Rightarrow> ('a \<Rightarrow> ('s, 'e, 'b) proc) \<Rightarrow> ('s, 'e, 'b) proc" where
  "seq m k s = (case m s of (r, s') \<Rightarrow> (case r of Inl e \<Rightarrow> (Inl e, s') | Inr x \<Rightarrow> k x s'))"

definition handle :: "('s, 'e, 'a) proc \<Rightarrow> ('e \<Rightarrow> ('s, 'e, 'a) proc) \<Rightarrow> ('s, 'e, 'a) proc" where
  "handle m h s = (case m s of (r, s') \<Rightarrow> (case r of Inl e \<Rightarrow> h e s' | Inr x \<Rightarrow> (Inr x, s')))"

definition reads :: "('s \<Rightarrow> 'a) \<Rightarrow> ('s, 'e, 'a) proc" where
  "reads f s = (Inr (f s), s)"

definition writes :: "('s \<Rightarrow> 's) \<Rightarrow> ('s, 'e, unit) proc" where
  "writes f s = (Inr (), f s)"

definition embed :: "'e + 'a \<Rightarrow> ('s, 'e, 'a) proc" where
  "embed r s = (r, s)"

definition require :: "bool \<Rightarrow> 'e \<Rightarrow> ('s, 'e, unit) proc" where
  "require b e s = (if b then (Inr (), s) else (Inl e, s))"

lemmas proc_defs = ret_def raise_def seq_def handle_def reads_def writes_def embed_def require_def

lemma proc_eval [proc_simps, simp]:
  "ret x s = (Inr x, s)"
  "raise e s = (Inl e, s)"
  "reads f s = (Inr (f s), s)"
  "writes g s = (Inr (), g s)"
  "embed r s = (r, s)"
  "require b e s = (if b then (Inr (), s) else (Inl e, s))"
  by (simp_all add: proc_defs)

lemma seq_eval [proc_simps]:
  "m s = (Inl e, s') \<Longrightarrow> seq m k s = (Inl e, s')"
  "m s = (Inr x, s') \<Longrightarrow> seq m k s = k x s'"
  by (simp_all add: seq_def)

lemma handle_eval [proc_simps]:
  "m s = (Inl e, s') \<Longrightarrow> handle m h s = h e s'"
  "m s = (Inr x, s') \<Longrightarrow> handle m h s = (Inr x, s')"
  by (simp_all add: handle_def)

lemma seq_split:
  "seq m k s = (case m s of (Inl e, s') \<Rightarrow> (Inl e, s') | (Inr x, s') \<Rightarrow> k x s')"
  by (simp add: seq_def split: prod.splits sum.splits)

lemma seq_InrE:
  assumes "seq m k s = (Inr y, t)"
  obtains x s' where "m s = (Inr x, s')" "k x s' = (Inr y, t)"
  using assms by (auto simp: seq_def split: prod.splits sum.splits)

lemma seq_InlE:
  assumes "seq m k s = (Inl e, t)"
  obtains "m s = (Inl e, t)" | x s' where "m s = (Inr x, s')" "k x s' = (Inl e, t)"
  using assms by (auto simp: seq_def split: prod.splits sum.splits)

text \<open>The invariant \<open>I\<close> holds after \<open>m\<close>, returned or raised, whenever it held before.\<close>

definition keeps :: "('s \<Rightarrow> bool) \<Rightarrow> ('s, 'e, 'a) proc \<Rightarrow> bool" where
  "keeps I m \<longleftrightarrow> (\<forall>s. I s \<longrightarrow> I (snd (m s)))"

lemma keepsI: "(\<And>s. I s \<Longrightarrow> I (snd (m s))) \<Longrightarrow> keeps I m"
  by (simp add: keeps_def)

lemma keepsD: "keeps I m \<Longrightarrow> I s \<Longrightarrow> I (snd (m s))"
  by (simp add: keeps_def)

lemma keeps_result: "keeps I m \<Longrightarrow> I s \<Longrightarrow> m s = (r, t) \<Longrightarrow> I t"
  by (metis keeps_def snd_conv)

lemma keeps_pure [keeps_intros]:
  "keeps I (ret x)" "keeps I (raise e)" "keeps I (reads f)" "keeps I (embed r)"
  "keeps I (require b e)"
  by (auto simp: keeps_def)

lemma keeps_writes: "(\<And>s. I s \<Longrightarrow> I (f s)) \<Longrightarrow> keeps I (writes f)"
  by (simp add: keeps_def)

lemma keeps_seq [keeps_intros]:
  "keeps I m \<Longrightarrow> (\<And>x. keeps I (k x)) \<Longrightarrow> keeps I (seq m k)"
  by (fastforce simp: keeps_def seq_def split: prod.splits sum.splits)

lemma keeps_handle [keeps_intros]:
  "keeps I m \<Longrightarrow> (\<And>e. keeps I (h e)) \<Longrightarrow> keeps I (handle m h)"
  by (fastforce simp: keeps_def handle_def split: prod.splits sum.splits)

lemma keeps_if [keeps_intros]:
  "(b \<Longrightarrow> keeps I m) \<Longrightarrow> (\<not> b \<Longrightarrow> keeps I n) \<Longrightarrow> keeps I (if b then m else n)"
  by simp

lemma keeps_option [keeps_intros]:
  "(x = None \<Longrightarrow> keeps I m) \<Longrightarrow> (\<And>y. x = Some y \<Longrightarrow> keeps I (n y)) \<Longrightarrow>
   keeps I (case x of None \<Rightarrow> m | Some y \<Rightarrow> n y)"
  by (cases x) auto

lemma keeps_let [keeps_intros]: "keeps I (f x) \<Longrightarrow> keeps I (Let x f)"
  by simp

lemma keeps_prod [keeps_intros]:
  "(\<And>a b. p = (a, b) \<Longrightarrow> keeps I (f a b)) \<Longrightarrow> keeps I (case p of (a, b) \<Rightarrow> f a b)"
  by (cases p) auto

section \<open>Dictionaries as association lists\<close>

text \<open>
  A Python \<open>dict\<close> whose iteration order matters is a list of pairs with distinct keys, in
  insertion order; assigning an existing key keeps its position (\<open>AList.update\<close>).
\<close>

type_synonym ('k, 'v) dict = "('k \<times> 'v) list"

abbreviation dkeys :: "('k, 'v) dict \<Rightarrow> 'k list" where
  "dkeys d \<equiv> map fst d"

abbreviation dget :: "('k, 'v) dict \<Rightarrow> 'k \<Rightarrow> 'v option" where
  "dget d k \<equiv> map_of d k"

abbreviation dput :: "'k \<Rightarrow> 'v \<Rightarrow> ('k, 'v) dict \<Rightarrow> ('k, 'v) dict" where
  "dput \<equiv> AList.update"

lemma dget_dput [simp]: "dget (dput k v d) = (dget d)(k \<mapsto> v)"
  by (simp add: fun_eq_iff update_conv)

lemma distinct_dput: "distinct (dkeys d) \<Longrightarrow> distinct (dkeys (dput k v d))"
  by (rule distinct_update)

lemma set_dkeys_dput [simp]: "set (dkeys (dput k v d)) = insert k (set (dkeys d))"
  by (metis dom_map_of_conv_image_fst dom_fun_upd dget_dput image_set option.distinct(1))

lemma dget_Some_in_dkeys: "dget d k = Some v \<Longrightarrow> k \<in> set (dkeys d)"
  by (metis dom_map_of_conv_image_fst domI image_set)

lemma dget_None_iff: "dget d k = None \<longleftrightarrow> k \<notin> set (dkeys d)"
  by (simp add: map_of_eq_None_iff)

lemma dget_map_values:
  "dget (map (\<lambda>(k, v). (k, f v)) d) k = map_option f (dget d k)"
  by (induction d) auto

lemma dget_fold_dput:
  "dget (fold (\<lambda>x d. dput (k x) (v x) d) xs d) = dget d ++ map_of (rev (map (\<lambda>x. (k x, v x)) xs))"
  by (induction xs arbitrary: d) (auto simp: map_add_def fun_eq_iff split: option.splits)

lemma map_of_rev_distinct: "distinct (map fst xs) \<Longrightarrow> map_of (rev xs) = map_of xs"
  by (metis distinct_rev map_of_inject_set rev_map set_rev)

lemma map_of_filter_key:
  "map_of (map (\<lambda>x. (k x, v x)) (filter (\<lambda>x. P (k x)) xs)) y =
     (if P y then map_of (map (\<lambda>x. (k x, v x)) xs) y else None)"
  by (induction xs) auto

lemma map_of_map_key_Some_iff:
  "distinct (map k xs) \<Longrightarrow>
   map_of (map (\<lambda>x. (k x, v x)) xs) y = Some z \<longleftrightarrow> (\<exists>x \<in> set xs. k x = y \<and> v x = z)"
  by (subst map_of_eq_Some_iff) (auto simp: comp_def)

lemma map_of_map_key_None_iff: "map_of (map (\<lambda>x. (k x, v x)) xs) y = None \<longleftrightarrow> y \<notin> k ` set xs"
  by (auto simp: map_of_eq_None_iff image_image)

lemma map_of_map_key_perm:
  assumes "distinct (map k xs)" "set xs = set ys" "distinct (map k ys)"
  shows "map_of (map (\<lambda>x. (k x, v x)) xs) = map_of (map (\<lambda>x. (k x, v x)) ys)"
  using assms by (intro map_of_inject_set [THEN iffD2]) (auto simp: comp_def)

section \<open>Sorting and paging\<close>

lemma sorted_key_filter: "sorted (map f xs) \<Longrightarrow> sorted (map f (filter P xs))"
  by (induction xs) auto

definition page :: "nat \<Rightarrow> nat \<Rightarrow> 'a list \<Rightarrow> 'a list" where
  "page limit offset xs = take limit (drop offset xs)"

lemma page_empty_iff: "0 < limit \<Longrightarrow> page limit offset xs = [] \<longleftrightarrow> length xs \<le> offset"
  by (simp add: page_def)

lemma page_append_rest: "page limit offset xs @ drop (offset + limit) xs = drop offset xs"
  by (simp add: page_def add.commute flip: drop_drop)

lemma set_page: "set (page limit offset xs) \<subseteq> set xs"
  unfolding page_def by (meson order_trans set_drop_subset set_take_subset)

lemma concat_pages:
  "concat (map (\<lambda>i. page n (i * n) xs) [0..<k]) = take (k * n) xs"
proof (induction k)
  case 0
  then show ?case by simp
next
  case (Suc k)
  have "take (k * n) xs @ page n (k * n) xs = take (k * n + n) xs"
    by (simp add: page_def take_add)
  with Suc show ?case by (simp add: add.commute)
qed

end
