(* ===== verification/Py_Values.thy ===== *)
theory Py_Values
  imports Py_Strings
begin

text \<open>
  Python values and the standard-library conversions the program applies to request
  parameters: \<open>int(str)\<close>, \<open>float(str)\<close> and \<open>float(int)\<close> (IEEE 754 binary64, round half to
  even), \<open>date.fromisoformat\<close>, \<open>datetime.fromisoformat\<close> (CPython 3.11) and the printed form
  of a date. \<open>None\<close> stands for the \<open>ValueError\<close> of a conversion.
\<close>

section \<open>Integers\<close>

text \<open>
  \<open>int\<close> and \<open>float\<close> strip this white space (the separators 28 to 31 are not stripped) and
  allow single underscores between digits; \<open>int\<close> refuses more than 4300 digits.
\<close>

definition is_num_space :: "char \<Rightarrow> bool" where
  "is_num_space c \<longleftrightarrow> ord c \<in> {9, 10, 11, 12, 13, 32, 133, 160}"

definition num_strip :: "string \<Rightarrow> string" where
  "num_strip s = rev (dropWhile is_num_space (rev (dropWhile is_num_space s)))"

fun und_digits :: "string \<Rightarrow> string option" where
  "und_digits [] = None"
| "und_digits [c] = (if is_ascii_digit c then Some [c] else None)"
| "und_digits (c # d # cs) =
     (if is_ascii_digit c
      then map_option (Cons c) (und_digits (if d = CHR ''_'' then cs else d # cs))
      else None)"

definition split_sign :: "string \<Rightarrow> bool \<times> string" where
  "split_sign s =
     (case s of [] \<Rightarrow> (False, [])
      | c # cs \<Rightarrow> if c = CHR ''-'' then (True, cs) else if c = CHR ''+'' then (False, cs) else (False, s))"

abbreviation max_str_digits :: nat where
  "max_str_digits \<equiv> 4300"

definition with_sign :: "bool \<Rightarrow> nat \<Rightarrow> int" where
  "with_sign neg n = (if neg then - int n else int n)"

definition py_int_of_str :: "string \<Rightarrow> int option" where
  "py_int_of_str s =
     (case split_sign (num_strip s) of (neg, u) \<Rightarrow>
        (case und_digits u of
           None \<Rightarrow> None
         | Some ds \<Rightarrow> if length ds \<le> max_str_digits then Some (with_sign neg (decimal_value ds)) else None))"

section \<open>Floats\<close>

text \<open>\<open>FFin neg m e\<close> is the finite double \<open>\<plusminus> m * 2 ^ e\<close>.\<close>

datatype pyfloat = FFin bool nat int | FInf bool | FNaN

fun py_isfinite :: "pyfloat \<Rightarrow> bool" where
  "py_isfinite (FFin _ _ _) = True"
| "py_isfinite _ = False"

fun ilog2 :: "nat \<Rightarrow> nat" where
  "ilog2 n = (if n < 2 then 0 else Suc (ilog2 (n div 2)))"

declare ilog2.simps [simp del]

definition scale2 :: "nat \<Rightarrow> int \<Rightarrow> nat" where
  "scale2 n e = n * 2 ^ nat e"

definition round_half_even :: "nat \<Rightarrow> nat \<Rightarrow> nat" where
  "round_half_even n d =
     (let q = n div d; r = n mod d
      in if 2 * r < d \<or> 2 * r = d \<and> even q then q else q + 1)"

definition f64_of_ratio :: "bool \<Rightarrow> nat \<Rightarrow> nat \<Rightarrow> pyfloat" where
  "f64_of_ratio neg n d =
     (if n = 0 then FFin neg 0 0 else
      let e0 = int (ilog2 n) - int (ilog2 d);
          e = (if scale2 d e0 \<le> scale2 n (- e0) then e0 else e0 - 1);
          q = max (e - 52) (- 1074);
          m = round_half_even (scale2 n (- q)) (scale2 d q);
          (m', q') = (if m = 2 ^ 53 then (2 ^ 52, q + 1) else (m, q))
      in if 971 < q' then FInf neg else if m' = 0 then FFin neg 0 0 else FFin neg m' q')"

text \<open>\<open>float(i)\<close> for an integer raises \<open>OverflowError\<close> (\<open>None\<close>) when the result is not finite.\<close>

definition py_float_of_int :: "int \<Rightarrow> pyfloat option" where
  "py_float_of_int i =
     (case f64_of_ratio (i < 0) (nat \<bar>i\<bar>) 1 of FFin s m e \<Rightarrow> Some (FFin s m e) | _ \<Rightarrow> None)"

lemma ilog2_ge: "2 ^ k \<le> n \<Longrightarrow> k \<le> ilog2 n"
proof (induction k arbitrary: n)
  case (Suc k)
  have "2 * 1 \<le> 2 * (2 :: nat) ^ k" by (intro mult_le_mono) simp_all
  with Suc.prems have "2 \<le> n" unfolding power_Suc by linarith
  moreover have "2 ^ k \<le> n div 2" using Suc.prems by simp
  ultimately show ?case using Suc.IH [of "n div 2"] by (subst ilog2.simps) auto
qed simp

lemma power_ilog2_le: "0 < n \<Longrightarrow> 2 ^ ilog2 n \<le> n"
proof (induction n rule: ilog2.induct)
  case (1 n)
  show ?case
  proof (cases "n < 2")
    case True
    then show ?thesis using 1 by (subst ilog2.simps) simp
  next
    case False
    then have "2 ^ ilog2 (n div 2) \<le> n div 2" using 1 by auto
    with False show ?thesis by (subst ilog2.simps) auto
  qed
qed

lemma f64_of_huge: "2 ^ 1024 \<le> n \<Longrightarrow> f64_of_ratio neg n 1 = FInf neg"
proof -
  assume huge: "(2 :: nat) ^ 1024 \<le> n"
  then have pos: "0 < n" using zero_less_power [of "2 :: nat" 1024] by linarith
  have one: "ilog2 (Suc 0) = 0" by (simp add: ilog2.simps)
  have "1024 \<le> ilog2 n" using ilog2_ge huge .
  then have e: "(if scale2 (Suc 0) (int (ilog2 n)) \<le> scale2 n (- int (ilog2 n)) then int (ilog2 n) else int (ilog2 n) - 1) = int (ilog2 n)"
    and q: "971 < max (int (ilog2 n) - 52) (- 1074)"
    using power_ilog2_le [OF pos] by (simp_all add: scale2_def)
  from pos q show ?thesis
    unfolding f64_of_ratio_def by (simp add: one e Let_def)
qed

lemma py_float_of_huge_int: "2 ^ 1024 \<le> \<bar>i\<bar> \<Longrightarrow> py_float_of_int i = None"
proof -
  assume "2 ^ 1024 \<le> \<bar>i\<bar>"
  then have "(2 :: nat) ^ 1024 \<le> nat \<bar>i\<bar>" by (metis nat_2 nat_mono nat_power_eq zero_le_numeral nat_numeral)
  from f64_of_huge [OF this] show ?thesis by (simp add: py_float_of_int_def)
qed

definition split_at :: "(char \<Rightarrow> bool) \<Rightarrow> string \<Rightarrow> string \<times> string option" where
  "split_at P s =
     (case dropWhile (\<lambda>c. \<not> P c) s of
        [] \<Rightarrow> (s, None)
      | _ # cs \<Rightarrow> (takeWhile (\<lambda>c. \<not> P c) s, Some cs))"

definition opt_digits :: "string \<Rightarrow> string option" where
  "opt_digits s = (if s = [] then Some [] else und_digits s)"

definition float_literal :: "bool \<Rightarrow> string \<Rightarrow> pyfloat option" where
  "float_literal neg s =
     (case split_at (\<lambda>c. c \<in> {CHR ''e'', CHR ''E''}) s of (mant, ex) \<Rightarrow>
      case split_at (\<lambda>c. c = CHR ''.'') mant of (ip, fp) \<Rightarrow>
      case (opt_digits ip, opt_digits (case fp of None \<Rightarrow> [] | Some f \<Rightarrow> f),
            case ex of None \<Rightarrow> Some 0
            | Some x \<Rightarrow> (case split_sign x of (xneg, xd) \<Rightarrow>
                map_option (\<lambda>ds. with_sign xneg (decimal_value ds)) (und_digits xd))) of
        (Some i, Some f, Some e) \<Rightarrow>
          (if i @ f = [] then None else
           let m = decimal_value (i @ f); e10 = e - int (length f)
           in Some (f64_of_ratio neg (m * 10 ^ nat e10) (10 ^ nat (- e10))))
      | _ \<Rightarrow> None)"

definition py_float_of_str :: "string \<Rightarrow> pyfloat option" where
  "py_float_of_str s =
     (case split_sign (num_strip s) of (neg, u) \<Rightarrow>
        if py_lower u \<in> {''inf'', ''infinity''} then Some (FInf neg)
        else if py_lower u = ''nan'' then Some FNaN
        else float_literal neg u)"

section \<open>Dates\<close>

datatype pydate = Date (dyear: nat) (dmonth: nat) (dday: nat)

definition is_leap :: "nat \<Rightarrow> bool" where
  "is_leap y \<longleftrightarrow> y mod 4 = 0 \<and> (y mod 100 \<noteq> 0 \<or> y mod 400 = 0)"

definition month_lengths :: "nat list" where
  "month_lengths = [31, 28, 31, 30, 31, 30, 31, 31, 30, 31, 30, 31]"

definition days_in_month :: "nat \<Rightarrow> nat \<Rightarrow> nat" where
  "days_in_month y m = (if m = 2 \<and> is_leap y then 29 else month_lengths ! (m - 1))"

definition days_before_month :: "nat \<Rightarrow> nat \<Rightarrow> nat" where
  "days_before_month y m =
     sum_list (take (m - 1) month_lengths) + (if 2 < m \<and> is_leap y then 1 else 0)"

definition valid_date :: "pydate \<Rightarrow> bool" where
  "valid_date d \<longleftrightarrow> 1 \<le> dyear d \<and> dyear d \<le> 9999 \<and> 1 \<le> dmonth d \<and> dmonth d \<le> 12 \<and>
     1 \<le> dday d \<and> dday d \<le> days_in_month (dyear d) (dmonth d)"

definition date_less :: "pydate \<Rightarrow> pydate \<Rightarrow> bool" where
  "date_less a b \<longleftrightarrow> dyear a < dyear b \<or> dyear a = dyear b \<and>
     (dmonth a < dmonth b \<or> dmonth a = dmonth b \<and> dday a < dday b)"

text \<open>Proleptic Gregorian ordinals: day 1 is 1 January of year 1.\<close>

definition ymd_to_ord :: "nat \<Rightarrow> nat \<Rightarrow> nat \<Rightarrow> int" where
  "ymd_to_ord y m d =
     (let p = int y - 1 in p * 365 + p div 4 - p div 100 + p div 400)
     + int (days_before_month y m) + int d"

definition ord_to_ymd :: "int \<Rightarrow> pydate" where
  "ord_to_ymd o1 =
     (let n = nat (o1 - 1);
          y400 = (n div 146097) * 400 + 1; a = n mod 146097;
          n100 = a div 36524; b = a mod 36524;
          n4 = b div 1461; c = b mod 1461;
          n1 = c div 365; r = c mod 365;
          y = y400 + n100 * 100 + n4 * 4 + n1
      in if n1 = 4 \<or> n100 = 4 then Date (y - 1) 12 31
         else let m0 = (r + 50) div 32;
                  m = (if r < days_before_month y m0 then m0 - 1 else m0)
              in Date y m (r - days_before_month y m + 1))"

definition iso_to_ymd :: "nat \<Rightarrow> nat \<Rightarrow> nat \<Rightarrow> pydate option" where
  "iso_to_ymd y w d =
     (let first = ymd_to_ord y 1 1; wd = (first + 6) mod 7;
          long_year = (wd = 3 \<or> wd = 2 \<and> is_leap y);
          week1 = first - wd + (if 3 < wd then 7 else 0);
          n = week1 + (int w - 1) * 7 + int d - 1
      in if w = 0 \<or> 53 < w \<or> w = 53 \<and> \<not> long_year \<or> d = 0 \<or> 7 < d then None
         else if n < 1 then Some (Date 0 0 0) else Some (ord_to_ymd n))"

text \<open>
  The ISO parsers read a NUL-terminated UTF-8 buffer; running past the end reads a NUL, which
  is no digit.
\<close>

definition utf8 :: "string \<Rightarrow> string" where
  "utf8 s = concat (map (\<lambda>c. if ord c < 128 then [c]
     else [char_of (192 + ord c div 64), char_of (128 + ord c mod 64)]) s)"

definition peek :: "string \<Rightarrow> char" where
  "peek s = (case s of [] \<Rightarrow> CHR 0x00 | c # _ \<Rightarrow> c)"

fun parse_digits :: "nat \<Rightarrow> string \<Rightarrow> (nat \<times> string) option" where
  "parse_digits n s =
     (let ds = take n s
      in if length ds = n \<and> list_all is_ascii_digit ds then Some (decimal_value ds, drop n s) else None)"

definition eat :: "bool \<Rightarrow> char \<Rightarrow> string \<Rightarrow> string option" where
  "eat needed c s = (if \<not> needed then Some s else if peek s = c then Some (tl s) else None)"

text \<open>\<open>parse_isoformat_date(dtstr, len)\<close>: the buffer may go on after \<open>len\<close>.\<close>

definition parse_iso_date :: "string \<Rightarrow> nat \<Rightarrow> pydate option" where
  "parse_iso_date s len =
     Option.bind (parse_digits 4 s) (\<lambda>(y, p0).
       let dash = (peek p0 = CHR ''-''); p = (if dash then tl p0 else p0)
       in if peek p = CHR ''W''
          then Option.bind (parse_digits 2 (tl p)) (\<lambda>(w, p2).
                 if length s - length p2 < len
                 then Option.bind (eat dash (CHR ''-'') p2) (\<lambda>p3.
                        Option.bind (parse_digits 1 p3) (\<lambda>(d, _). iso_to_ymd y w d))
                 else iso_to_ymd y w 1)
          else Option.bind (parse_digits 2 p) (\<lambda>(m, p2).
                 Option.bind (eat dash (CHR ''-'') p2) (\<lambda>p3.
                   Option.bind (parse_digits 2 p3) (\<lambda>(d, _). Some (Date y m d)))))"

definition date_fromisoformat :: "string \<Rightarrow> pydate option" where
  "date_fromisoformat s =
     (let b = utf8 s
      in if length b \<in> {7, 8, 10}
         then Option.bind (parse_iso_date b (length b)) (\<lambda>d. if valid_date d then Some d else None)
         else None)"

definition pad_nat :: "nat \<Rightarrow> nat \<Rightarrow> string" where
  "pad_nat w n = replicate (w - length (str_of_nat n)) (CHR ''0'') @ str_of_nat n"

definition date_isoformat :: "pydate \<Rightarrow> string" where
  "date_isoformat d = pad_nat 4 (dyear d) @ ''-'' @ pad_nat 2 (dmonth d) @ ''-'' @ pad_nat 2 (dday d)"

section \<open>Date-times\<close>

text \<open>Hour, minute, second, microsecond, and the UTC offset in microseconds if there is one.\<close>

datatype pydatetime = DateTime pydate nat nat nat nat "int option"

text \<open>
  \<open>parse_hh_mm_ss_ff\<close>: \<open>i\<close> components are read already, \<open>k\<close> characters are left before the end
  of the time part; the last component of the result says that the part did not end there.
\<close>

fun hms_loop :: "nat \<Rightarrow> nat \<Rightarrow> bool \<Rightarrow> string \<Rightarrow> int \<Rightarrow> nat list \<Rightarrow> (nat list \<times> nat \<times> bool) option" where
  "hms_loop 0 i sep p k acc =
     (let n = (if 6 \<le> k then 6 else nat k)
      in Option.bind (parse_digits n p) (\<lambda>(us, p').
           Some (acc, us * 10 ^ (6 - n), peek (dropWhile is_ascii_digit p') \<noteq> CHR 0x00)))"
| "hms_loop (Suc left) i sep p k acc =
     Option.bind (parse_digits 2 p) (\<lambda>(v, q).
       let c = peek q; k2 = k - 2; sep' = (if i = 0 then c = CHR '':'' else sep); acc' = acc @ [v]
       in if k2 - 1 \<le> 0 then Some (acc', 0, c \<noteq> CHR 0x00)
          else if sep' \<and> c = CHR '':'' then hms_loop left (Suc i) sep' (tl q) (k2 - 1) acc'
          else if c = CHR ''.'' \<or> c = CHR '','' then hms_loop 0 i sep' (tl q) (k2 - 1) acc'
          else if \<not> sep' then hms_loop left (Suc i) sep' q k2 acc'
          else None)"

definition hms_get :: "nat list \<Rightarrow> nat \<Rightarrow> nat" where
  "hms_get vs i = (if i < length vs then vs ! i else 0)"

definition parse_iso_time :: "string \<Rightarrow> (nat \<times> nat \<times> nat \<times> nat \<times> int option) option" where
  "parse_iso_time s =
     (let t = length (takeWhile (\<lambda>c. c \<notin> {CHR ''+'', CHR ''-'', CHR ''Z''}) s); rest = drop t s
      in Option.bind (hms_loop 3 0 True s (int t) []) (\<lambda>(vs, us, extra).
           let out = (\<lambda>off. (hms_get vs 0, hms_get vs 1, hms_get vs 2, us, off))
           in if rest = [] then (if extra then None else Some (out None))
              else if hd rest = CHR ''Z'' then (if tl rest = [] then Some (out (Some 0)) else None)
              else Option.bind (hms_loop 3 0 True (tl rest) (int (length (tl rest))) [])
                (\<lambda>(zs, zus, zextra).
                   if zextra then None
                   else let secs = hms_get zs 0 * 3600 + hms_get zs 1 * 60 + hms_get zs 2
                        in Some (out (Some (with_sign (hd rest = CHR ''-'') (secs * 1000000 + zus)))))))"

definition find_separator :: "string \<Rightarrow> nat option" where
  "find_separator s =
     (let n = length s; at = (\<lambda>i. peek (drop i s))
      in if n = 7 then Some 7
         else if at 4 = CHR ''-''
         then (if at 5 = CHR ''W''
               then (if 8 < n \<and> at 8 = CHR ''-''
                     then (if n = 9 then None else if 10 < n \<and> is_ascii_digit (at 10) then Some 8 else Some 10)
                     else Some 8)
               else Some 10)
         else if at 4 = CHR ''W''
         then (let i = 7 + length (takeWhile is_ascii_digit (drop 7 s))
               in if i < 9 then Some i else if even i then Some 7 else Some 8)
         else Some 8)"

definition valid_time :: "nat \<times> nat \<times> nat \<times> nat \<times> int option \<Rightarrow> bool" where
  "valid_time t = (case t of (h, m, s, us, off) \<Rightarrow>
     h < 24 \<and> m < 60 \<and> s < 60 \<and> us < 1000000 \<and>
     (case off of None \<Rightarrow> True | Some z \<Rightarrow> \<bar>z\<bar> < 86400000000))"

definition datetime_fromisoformat :: "string \<Rightarrow> pydatetime option" where
  "datetime_fromisoformat str =
     (let b = utf8 str
      in if length b < 7 then None
         else Option.bind (find_separator b) (\<lambda>k.
           Option.bind (parse_iso_date b k) (\<lambda>d.
           Option.bind
             (if k < length b
              then parse_iso_time (drop (k + (if ord (peek (drop k b)) < 128 then 1 else 2)) b)
              else Some (0, 0, 0, 0, None)) (\<lambda>t.
           if valid_date d \<and> valid_time t
           then (case t of (h, m, s, us, off) \<Rightarrow> Some (DateTime d h m s us off)) else None))))"

section \<open>Values\<close>

datatype pyval =
    PNone
  | PBool bool
  | PInt int
  | PFloat pyfloat
  | PStr string
  | PDate pydate
  | PDateTime pydatetime
  | PList "pyval list"
  | PDict "(string \<times> pyval) list"

type_synonym row = "(string, pyval) dict"

fun as_str :: "pyval \<Rightarrow> string option" where
  "as_str (PStr s) = Some s"
| "as_str _ = None"

lemma as_str_Some [simp]: "as_str v = Some s \<longleftrightarrow> v = PStr s"
  by (cases v) auto

section \<open>Printing\<close>

text \<open>
  \<open>str\<close> and \<open>repr\<close> of the values above. A float is printed with the fewest significant digits
  (at most 17) that read back as the same double.
\<close>

definition decimal_digits_for :: "nat \<Rightarrow> nat \<Rightarrow> nat \<Rightarrow> nat \<times> int" where
  \<comment> \<open>\<open>k\<close> significant digits of \<open>n / d\<close> with the decimal exponent of the first one\<close>
  "decimal_digits_for k n d =
     (let e0 = int (length (str_of_nat n)) - int (length (str_of_nat d));
          e = (if d * 10 ^ nat e0 \<le> n * 10 ^ nat (- e0) then e0 else e0 - 1);
          sh = int k - 1 - e;
          m = round_half_even (n * 10 ^ nat sh) (d * 10 ^ nat (- sh))
      in if m = 10 ^ k then (10 ^ (k - 1), e + 1) else (m, e))"

definition reads_back :: "nat \<Rightarrow> int \<Rightarrow> nat \<Rightarrow> nat \<times> int \<Rightarrow> bool" where
  "reads_back m q k p = (case p of (ds, e) \<Rightarrow>
     let sh = int k - 1 - e in f64_of_ratio False (ds * 10 ^ nat (- sh)) (10 ^ nat sh) = FFin False m q)"

fun shortest_digits :: "nat \<Rightarrow> nat \<Rightarrow> nat \<Rightarrow> int \<Rightarrow> nat \<times> int \<times> nat" where
  "shortest_digits 0 k m q = (0, 0, k)"
| "shortest_digits (Suc left) k m q =
     (let p = decimal_digits_for k (scale2 m q) (scale2 1 (- q))
      in if left = 0 \<or> reads_back m q k p then (fst p, snd p, k) else shortest_digits left (Suc k) m q)"

definition strip_zeros :: "string \<Rightarrow> string" where
  "strip_zeros ds = rev (dropWhile (\<lambda>c. c = CHR ''0'') (rev ds))"

definition float_digits :: "nat \<Rightarrow> int \<Rightarrow> string" where
  "float_digits m q =
     (case shortest_digits 17 1 m q of (n, e, k) \<Rightarrow>
      let ds = strip_zeros (str_of_nat n); ds = (if ds = [] then ''0'' else ds); l = length ds
      in if - 4 \<le> e \<and> e < 16
         then (if e < 0 then ''0.'' @ replicate (nat (- e - 1)) (CHR ''0'') @ ds
               else if l \<le> nat e + 1 then ds @ replicate (nat e + 1 - l) (CHR ''0'') @ ''.0''
               else take (nat e + 1) ds @ ''.'' @ drop (nat e + 1) ds)
         else take 1 ds @ (if l = 1 then [] else CHR ''.'' # drop 1 ds) @ ''e'' @
              (if e < 0 then ''-'' else ''+'') @ pad_nat 2 (nat \<bar>e\<bar>))"

fun float_repr :: "pyfloat \<Rightarrow> string" where
  "float_repr (FFin s m q) = (if s then ''-'' else []) @ (if m = 0 then ''0.0'' else float_digits m q)"
| "float_repr (FInf s) = (if s then ''-inf'' else ''inf'')"
| "float_repr FNaN = ''nan''"

definition usec_suffix :: "nat \<Rightarrow> string" where
  "usec_suffix us = (if us = 0 then [] else CHR ''.'' # pad_nat 6 us)"

definition offset_str :: "int \<Rightarrow> string" where
  "offset_str z =
     (let a = nat \<bar>z\<bar>; us = a mod 1000000; secs = a div 1000000; s = secs mod 60; mins = secs div 60
      in (if z < 0 then ''-'' else ''+'') @ pad_nat 2 (mins div 60) @ '':'' @ pad_nat 2 (mins mod 60) @
         (if s \<noteq> 0 \<or> us \<noteq> 0 then CHR '':'' # pad_nat 2 s @ usec_suffix us else []))"

fun datetime_isoformat :: "char \<Rightarrow> pydatetime \<Rightarrow> string" where
  "datetime_isoformat sep (DateTime d h m s us off) =
     date_isoformat d @ [sep] @ pad_nat 2 h @ '':'' @ pad_nat 2 m @ '':'' @ pad_nat 2 s @ usec_suffix us @
     (case off of None \<Rightarrow> [] | Some z \<Rightarrow> offset_str z)"

definition hex_digit :: "nat \<Rightarrow> char" where
  "hex_digit d = (if d < 10 then char_of (48 + d) else char_of (87 + d))"

definition repr_char :: "char \<Rightarrow> char \<Rightarrow> string" where
  "repr_char q c =
     (if c = q \<or> ord c = 92 then [char_of (92 :: nat), c]
      else if ord c = 9 then [char_of (92 :: nat), CHR ''t'']
      else if ord c = 10 then [char_of (92 :: nat), CHR ''n'']
      else if ord c = 13 then [char_of (92 :: nat), CHR ''r'']
      else if category_C c \<or> ord c = 160
      then [char_of (92 :: nat), CHR ''x'', hex_digit (ord c div 16), hex_digit (ord c mod 16)]
      else [c])"

definition str_repr :: "string \<Rightarrow> string" where
  "str_repr s =
     (let q = (if char_of (39 :: nat) \<in> set s \<and> char_of (34 :: nat) \<notin> set s
               then char_of (34 :: nat) else char_of (39 :: nat))
      in [q] @ concat (map (repr_char q) s) @ [q])"

definition timedelta_repr :: "int \<Rightarrow> string" where
  "timedelta_repr z =
     (let days = z div 86400000000; rest = z mod 86400000000;
          secs = rest div 1000000; us = rest mod 1000000;
          args = (if days \<noteq> 0 then [''days='' @ str_of_int days] else []) @
                 (if secs \<noteq> 0 then [''seconds='' @ str_of_int secs] else []) @
                 (if us \<noteq> 0 then [''microseconds='' @ str_of_int us] else [])
      in ''datetime.timedelta('' @ (if args = [] then ''0'' else py_join '', '' args) @ '')'')"

fun date_args :: "pydate \<Rightarrow> string list" where
  "date_args (Date y m d) = [str_of_nat y, str_of_nat m, str_of_nat d]"

fun datetime_repr :: "pydatetime \<Rightarrow> string" where
  "datetime_repr (DateTime d h m s us off) =
     ''datetime.datetime('' @ py_join '', '' (date_args d @ [str_of_nat h, str_of_nat m] @
        (if s \<noteq> 0 \<or> us \<noteq> 0 then [str_of_nat s] else []) @ (if us \<noteq> 0 then [str_of_nat us] else []) @
        (case off of None \<Rightarrow> []
         | Some z \<Rightarrow> [''tzinfo='' @ (if z = 0 then ''datetime.timezone.utc''
              else ''datetime.timezone('' @ timedelta_repr z @ '')'')])) @ '')''"

fun py_repr :: "pyval \<Rightarrow> string" where
  "py_repr PNone = ''None''"
| "py_repr (PBool b) = (if b then ''True'' else ''False'')"
| "py_repr (PInt i) = str_of_int i"
| "py_repr (PFloat f) = float_repr f"
| "py_repr (PStr s) = str_repr s"
| "py_repr (PDate d) = ''datetime.date('' @ py_join '', '' (date_args d) @ '')''"
| "py_repr (PDateTime t) = datetime_repr t"
| "py_repr (PList vs) = ''['' @ py_join '', '' (map py_repr vs) @ '']''"
| "py_repr (PDict kvs) = ''{'' @ py_join '', '' (map (\<lambda>(k, v). str_repr k @ '': '' @ py_repr v) kvs) @ ''}''"

fun py_str :: "pyval \<Rightarrow> string" where
  "py_str (PStr s) = s"
| "py_str (PDate d) = date_isoformat d"
| "py_str (PDateTime t) = datetime_isoformat (CHR '' '') t"
| "py_str v = py_repr v"

text \<open>Truth value of an object.\<close>

fun truthy :: "pyval \<Rightarrow> bool" where
  "truthy PNone = False"
| "truthy (PBool b) = b"
| "truthy (PInt i) = (i \<noteq> 0)"
| "truthy (PFloat (FFin s m e)) = (m \<noteq> 0)"
| "truthy (PFloat f) = True"
| "truthy (PStr s) = (s \<noteq> [])"
| "truthy (PDate d) = True"
| "truthy (PDateTime t) = True"
| "truthy (PList vs) = (vs \<noteq> [])"
| "truthy (PDict kvs) = (kvs \<noteq> [])"

lemma py_str_PStr_inverse [simp]: "py_str (PStr s) = s"
  by simp

end
