(* ===== verification/App_Errors.thy ===== *)
theory App_Errors
  imports Py_Values
begin

text \<open>
  The exception classes of \<open>app/core/exceptions.py\<close> and the handlers that turn an exception
  into a JSON response. An exception is a value of \<open>exn\<close>: an application error with its class,
  or one of the library exceptions the program distinguishes.
\<close>

section \<open>Exceptions\<close>

datatype error_class =
    Conflict | Authentication | Authorization | NotFound | ExternalServiceTimeout
  | DynamicSql | DynamicParameter

record app_error =
  err_class :: error_class
  status_code :: nat
  code :: string
  message :: string
  details :: row

record validation_issue =
  vi_loc :: "pyval option"
  vi_msg :: "pyval option"
  vi_type :: "pyval option"
  vi_input :: "pyval option"

datatype exn =
    AppErr app_error
  | IntegrityErr
  | SqlaErr string
  | RequestValidationErr "validation_issue list"
  | ModelValidationErr "validation_issue list"
  | HttpErr nat
  | ValueErr string
  | TypeErr
  | KeyErr string
  | RuntimeErr string
  | AssertionErr
  | OverflowErr
  | TimeoutErr
  | IndexErr
  | OtherErr string

definition conflict_error :: "string \<Rightarrow> string \<Rightarrow> exn" where
  "conflict_error msg cd =
     AppErr \<lparr>err_class = Conflict, status_code = 409, code = cd, message = msg, details = []\<rparr>"

definition authentication_error :: "string \<Rightarrow> exn" where
  "authentication_error msg =
     AppErr \<lparr>err_class = Authentication, status_code = 401, code = ''authentication_failed'',
             message = msg, details = []\<rparr>"

definition authorization_error :: "string \<Rightarrow> exn" where
  "authorization_error msg =
     AppErr \<lparr>err_class = Authorization, status_code = 403, code = ''not_enough_permissions'',
             message = msg, details = []\<rparr>"

definition not_found_error :: "string \<Rightarrow> exn" where
  "not_found_error res =
     AppErr \<lparr>err_class = NotFound, status_code = 404, code = ''not_found'',
             message = res @ '' not found'', details = []\<rparr>"

definition external_service_timeout_error :: "string \<Rightarrow> exn" where
  "external_service_timeout_error svc =
     AppErr \<lparr>err_class = ExternalServiceTimeout, status_code = 504,
             code = ''external_service_timeout'', message = svc @ '' timed out'', details = []\<rparr>"

definition dynamic_sql_error :: "string \<Rightarrow> string \<Rightarrow> exn" where
  "dynamic_sql_error cd msg =
     AppErr \<lparr>err_class = DynamicSql, status_code = 422, code = cd, message = msg, details = []\<rparr>"

definition dynamic_parameter_error :: "string \<Rightarrow> string \<Rightarrow> row \<Rightarrow> exn" where
  "dynamic_parameter_error cd msg ds =
     AppErr \<lparr>err_class = DynamicParameter, status_code = 422, code = cd, message = msg, details = ds\<rparr>"

definition is_app_error :: "error_class \<Rightarrow> exn \<Rightarrow> bool" where
  "is_app_error c e = (case e of AppErr a \<Rightarrow> err_class a = c | _ \<Rightarrow> False)"

definition exn_code :: "exn \<Rightarrow> string" where
  "exn_code e = (case e of AppErr a \<Rightarrow> code a | _ \<Rightarrow> [])"

section \<open>Validation issues\<close>

definition normalize_error_location :: "pyval option \<Rightarrow> pyval list" where
  "normalize_error_location v =
     (case v of
        None \<Rightarrow> []
      | Some (PList ps) \<Rightarrow> ps
      | Some p \<Rightarrow> if truthy p then [p] else [])"

definition location_words :: "string list" where
  "location_words = [''body'', ''query'', ''path'', ''header'', ''cookie'']"

definition str_or :: "string \<Rightarrow> pyval option \<Rightarrow> string" where
  "str_or dflt v = (case v of None \<Rightarrow> dflt | Some p \<Rightarrow> py_str p)"

definition format_validation_error :: "validation_issue \<Rightarrow> row" where
  "format_validation_error e =
     (let parts = filter (\<lambda>p. p \<notin> set location_words) (map py_str (normalize_error_location (vi_loc e)));
          field = (if parts \<noteq> [] then py_join ''.'' parts else ''request'')
      in [(''field'', PStr field),
          (''message'', PStr (str_or ''Invalid value'' (vi_msg e))),
          (''type'', PStr (str_or ''value_error'' (vi_type e)))] @
         (case vi_input e of None \<Rightarrow> [] | Some i \<Rightarrow> [(''input'', i)]))"

definition validation_error_details :: "validation_issue list \<Rightarrow> row" where
  "validation_error_details es = [(''errors'', PList (map (PDict \<circ> format_validation_error) es))]"

section \<open>Responses\<close>

record error_body =
  rsp_status :: nat
  rsp_code :: string
  rsp_message :: string
  rsp_details :: row
  rsp_request_id :: "string option"

definition error_response ::
  "string option \<Rightarrow> nat \<Rightarrow> string \<Rightarrow> string \<Rightarrow> row \<Rightarrow> error_body" where
  "error_response rid st cd msg ds =
     \<lparr>rsp_status = st, rsp_code = cd, rsp_message = msg, rsp_details = ds, rsp_request_id = rid\<rparr>"

text \<open>\<open>HTTPStatus(code).phrase\<close>; an unknown code is a \<open>ValueError\<close>.\<close>

definition http_phrases :: "(nat \<times> string) list" where
  "http_phrases =
     [(100, ''Continue''), (101, ''Switching Protocols''), (102, ''Processing''), (103, ''Early Hints''),
      (200, ''OK''), (201, ''Created''), (202, ''Accepted''), (203, ''Non-Authoritative Information''),
      (204, ''No Content''), (205, ''Reset Content''), (206, ''Partial Content''),
      (207, ''Multi-Status''), (208, ''Already Reported''), (226, ''IM Used''),
      (300, ''Multiple Choices''), (301, ''Moved Permanently''), (302, ''Found''), (303, ''See Other''),
      (304, ''Not Modified''), (305, ''Use Proxy''), (307, ''Temporary Redirect''),
      (308, ''Permanent Redirect''),
      (400, ''Bad Request''), (401, ''Unauthorized''), (402, ''Payment Required''), (403, ''Forbidden''),
      (404, ''Not Found''), (405, ''Method Not Allowed''), (406, ''Not Acceptable''),
      (407, ''Proxy Authentication Required''), (408, ''Request Timeout''), (409, ''Conflict''),
      (410, ''Gone''), (411, ''Length Required''), (412, ''Precondition Failed''),
      (413, ''Request Entity Too Large''), (414, ''Request-URI Too Long''),
      (415, ''Unsupported Media Type''), (416, ''Requested Range Not Satisfiable''),
      (417, ''Expectation Failed''), (418, [CHR ''I'', char_of (39 :: nat)] @ ''m a Teapot''),
      (421, ''Misdirected Request''), (422, ''Unprocessable Entity''), (423, ''Locked''),
      (424, ''Failed Dependency''), (425, ''Too Early''), (426, ''Upgrade Required''),
      (428, ''Precondition Required''), (429, ''Too Many Requests''),
      (431, ''Request Header Fields Too Large''), (451, ''Unavailable For Legal Reasons''),
      (500, ''Internal Server Error''), (501, ''Not Implemented''), (502, ''Bad Gateway''),
      (503, ''Service Unavailable''), (504, ''Gateway Timeout''), (505, ''HTTP Version Not Supported''),
      (506, ''Variant Also Negotiates''), (507, ''Insufficient Storage''), (508, ''Loop Detected''),
      (510, ''Not Extended''), (511, ''Network Authentication Required'')]"

definition internal_error_response :: "string option \<Rightarrow> error_body" where
  "internal_error_response rid =
     error_response rid 500 ''internal_server_error'' ''Internal server error'' []"

text \<open>
  The handlers of \<open>register_exception_handlers\<close>, in the order of the exception's class: an
  exception no other handler takes goes to the \<open>Exception\<close> handler.
\<close>

definition handle_exception :: "string option \<Rightarrow> exn \<Rightarrow> error_body" where
  "handle_exception rid e =
     (case e of
        AppErr a \<Rightarrow> error_response rid (status_code a) (code a) (message a) (details a)
      | RequestValidationErr es \<Rightarrow>
          error_response rid 422 ''validation_error'' ''Invalid request payload'' (validation_error_details es)
      | ModelValidationErr es \<Rightarrow>
          error_response rid 422 ''validation_error'' ''Invalid request payload'' (validation_error_details es)
      | HttpErr st \<Rightarrow>
          (case map_of http_phrases st of
             Some phrase \<Rightarrow> error_response rid st ''http_error'' phrase []
           | None \<Rightarrow> internal_error_response rid)
      | _ \<Rightarrow> internal_error_response rid)"

text \<open>
  \<open>JSONResponse\<close> refuses a float that is not finite. Such a value can come back in the \<open>input\<close> of a
  validation issue; then it is the handler that raises.
\<close>

fun json_finite :: "pyval \<Rightarrow> bool" where
  "json_finite (PFloat f) = py_isfinite f"
| "json_finite (PList vs) = list_all json_finite vs"
| "json_finite (PDict kvs) = list_all (\<lambda>kv. json_finite (snd kv)) kvs"
| "json_finite _ = True"

definition render :: "error_body \<Rightarrow> exn + error_body" where
  "render b =
     (if json_finite (PDict (rsp_details b)) then Inr b
      else Inl (ValueErr ''Out of range float values are not JSON compliant''))"

text \<open>
  What the handlers of the innermost layer make of an exception: a response, or an exception that
  leaves the layer. For a status \<open>HTTPStatus\<close> does not know the handler raises.
\<close>

definition run_handler :: "string option \<Rightarrow> exn \<Rightarrow> exn + error_body" where
  "run_handler rid e =
     (case e of
        AppErr a \<Rightarrow> render (handle_exception rid e)
      | RequestValidationErr es \<Rightarrow> render (handle_exception rid e)
      | ModelValidationErr es \<Rightarrow> render (handle_exception rid e)
      | HttpErr st \<Rightarrow>
          (if map_of http_phrases st = None
           then Inl (ValueErr (str_of_nat st @ '' is not a valid HTTPStatus''))
           else render (handle_exception rid e))
      | SqlaErr m \<Rightarrow> render (handle_exception rid e)
      | IntegrityErr \<Rightarrow> render (handle_exception rid e)
      | _ \<Rightarrow> Inl e)"

lemmas app_error_defs = conflict_error_def authentication_error_def authorization_error_def
  not_found_error_def external_service_timeout_error_def dynamic_sql_error_def
  dynamic_parameter_error_def

lemma app_errors_distinct [simp]:
  "conflict_error m c \<noteq> IntegrityErr" "authentication_error m \<noteq> IntegrityErr"
  "authorization_error m \<noteq> IntegrityErr" "not_found_error m \<noteq> IntegrityErr"
  "dynamic_sql_error c m \<noteq> IntegrityErr" "dynamic_parameter_error c m d \<noteq> IntegrityErr"
  by (simp_all add: app_error_defs)

lemma app_error_statuses [simp]:
  "rsp_status (handle_exception rid (conflict_error m c)) = 409"
  "rsp_status (handle_exception rid (authentication_error m)) = 401"
  "rsp_status (handle_exception rid (authorization_error m)) = 403"
  "rsp_status (handle_exception rid (not_found_error m)) = 404"
  "rsp_status (handle_exception rid (external_service_timeout_error m)) = 504"
  "rsp_status (handle_exception rid (dynamic_sql_error c m)) = 422"
  "rsp_status (handle_exception rid (dynamic_parameter_error c m d)) = 422"
  by (simp_all add: app_error_defs handle_exception_def error_response_def)

lemma is_app_error_simps [simp]:
  "is_app_error k (conflict_error m c) \<longleftrightarrow> k = Conflict"
  "is_app_error k (authentication_error m) \<longleftrightarrow> k = Authentication"
  "is_app_error k (authorization_error m) \<longleftrightarrow> k = Authorization"
  "is_app_error k (not_found_error m) \<longleftrightarrow> k = NotFound"
  "is_app_error k (external_service_timeout_error m) \<longleftrightarrow> k = ExternalServiceTimeout"
  "is_app_error k (dynamic_sql_error c m) \<longleftrightarrow> k = DynamicSql"
  "is_app_error k (dynamic_parameter_error c m d) \<longleftrightarrow> k = DynamicParameter"
  by (auto simp: is_app_error_def app_error_defs)

lemma is_app_error_library [simp]:
  "\<not> is_app_error k IntegrityErr" "\<not> is_app_error k OverflowErr" "\<not> is_app_error k (RuntimeErr m)"
  "\<not> is_app_error k (SqlaErr m)" "\<not> is_app_error k (ValueErr m)" "\<not> is_app_error k AssertionErr"
  by (simp_all add: is_app_error_def)

text \<open>Every issue of a rejected request names a non-empty field.\<close>

lemma format_validation_error_keys:
  "dkeys (format_validation_error e) =
     [''field'', ''message'', ''type''] @ (if vi_input e = None then [] else [''input''])"
  by (auto simp: format_validation_error_def Let_def split: option.splits)

lemma handle_exception_request_id [simp]: "rsp_request_id (handle_exception rid e) = rid"
  by (auto simp: handle_exception_def error_response_def internal_error_response_def
        split: exn.splits option.splits)

lemma handle_library_exception_opaque:
  "e \<in> {IntegrityErr, SqlaErr m, ValueErr m, TypeErr, KeyErr m, RuntimeErr m, AssertionErr, OverflowErr,
        TimeoutErr, OtherErr m} \<Longrightarrow> handle_exception rid e = internal_error_response rid"
  by (auto simp: handle_exception_def)

end
