(* ===== verification/Pii_Cache.thy ===== *)
theory Pii_Cache
  imports App_Errors "HOL-Library.Product_Lexorder"
begin

text \<open>
  The in-memory PII mapping: \<open>app/services/account_map_in_memory.py\<close>, the repository it is
  filled from (\<open>app/repositories/sqlalchemy/account_map.py\<close>), the snapshot and incremental
  loaders (\<open>app/services/pii_mapping_snapshot.py\<close>), the start-up retries
  (\<open>initialize_account_map_in_memory\<close>) and the background loop
  (\<open>app/services/pii_cache_sync.py\<close>). Time stamps are microseconds since the epoch.
\<close>

section \<open>Records and the cache\<close>

type_synonym instant = int

record pii_record =
  token :: string
  mapped_value :: string
  created_at :: "instant option"

record account_map =
  hashmap_token_to_value :: "(string, string) dict"
  hashmap_value_to_token :: "(string, string) dict"
  last_synced_at :: "instant option"

definition new_account_map :: account_map where
  "new_account_map =
     \<lparr>hashmap_token_to_value = [], hashmap_value_to_token = [], last_synced_at = None\<rparr>"

definition update_last_synced_at :: "instant \<Rightarrow> account_map \<Rightarrow> account_map" where
  "update_last_synced_at t c =
     (case last_synced_at c of
        None \<Rightarrow> c\<lparr>last_synced_at := Some t\<rparr>
      | Some old \<Rightarrow> if t > old then c\<lparr>last_synced_at := Some t\<rparr> else c)"

definition add_record :: "pii_record \<Rightarrow> account_map \<Rightarrow> account_map" where
  "add_record r c =
     (let c1 = c\<lparr>hashmap_token_to_value := dput (token r) (mapped_value r) (hashmap_token_to_value c),
                 hashmap_value_to_token := dput (mapped_value r) (token r) (hashmap_value_to_token c)\<rparr>
      in case created_at r of None \<Rightarrow> c1 | Some t \<Rightarrow> update_last_synced_at t c1)"

definition add_records :: "pii_record list \<Rightarrow> account_map \<Rightarrow> account_map" where
  "add_records rs c = fold add_record rs c"

definition clear_cache :: "account_map \<Rightarrow> account_map" where
  "clear_cache c = c\<lparr>hashmap_token_to_value := [], hashmap_value_to_token := [], last_synced_at := None\<rparr>"

definition cache_size :: "account_map \<Rightarrow> nat" where
  "cache_size c = length (hashmap_token_to_value c)"

abbreviation value_of :: "account_map \<Rightarrow> string \<Rightarrow> string option" where
  "value_of c \<equiv> dget (hashmap_token_to_value c)"

abbreviation token_of :: "account_map \<Rightarrow> string \<Rightarrow> string option" where
  "token_of c \<equiv> dget (hashmap_value_to_token c)"

definition cache_ok :: "account_map \<Rightarrow> bool" where
  "cache_ok c \<longleftrightarrow> distinct (dkeys (hashmap_token_to_value c)) \<and> distinct (dkeys (hashmap_value_to_token c))"

definition newer :: "instant \<Rightarrow> instant option \<Rightarrow> instant option" where
  "newer t s = (case s of None \<Rightarrow> Some t | Some old \<Rightarrow> Some (max old t))"

lemma clear_cache_new [simp]: "clear_cache c = new_account_map"
  by (cases c) (simp add: clear_cache_def new_account_map_def)

lemma new_account_map_sel [simp]:
  "hashmap_token_to_value new_account_map = []" "hashmap_value_to_token new_account_map = []"
  "last_synced_at new_account_map = None"
  by (simp_all add: new_account_map_def)

lemma update_last_synced_at_sel [simp]:
  "hashmap_token_to_value (update_last_synced_at t c) = hashmap_token_to_value c"
  "hashmap_value_to_token (update_last_synced_at t c) = hashmap_value_to_token c"
  "last_synced_at (update_last_synced_at t c) = newer t (last_synced_at c)"
  by (auto simp: update_last_synced_at_def newer_def split: option.splits)

lemma add_record_sel [simp]:
  "hashmap_token_to_value (add_record r c) = dput (token r) (mapped_value r) (hashmap_token_to_value c)"
  "hashmap_value_to_token (add_record r c) = dput (mapped_value r) (token r) (hashmap_value_to_token c)"
  "last_synced_at (add_record r c) =
     (case created_at r of None \<Rightarrow> last_synced_at c | Some t \<Rightarrow> newer t (last_synced_at c))"
  by (auto simp: add_record_def Let_def split: option.splits)

lemma cache_ok_new [simp]: "cache_ok new_account_map"
  by (simp add: cache_ok_def)

lemma cache_ok_add_record: "cache_ok c \<Longrightarrow> cache_ok (add_record r c)"
  by (simp add: cache_ok_def distinct_dput)

lemma cache_ok_add_records: "cache_ok c \<Longrightarrow> cache_ok (add_records rs c)"
  unfolding add_records_def by (induction rs arbitrary: c) (auto simp: cache_ok_add_record)

lemma add_records_simps [simp]:
  "add_records [] c = c"
  "add_records (r # rs) c = add_records rs (add_record r c)"
  "add_records (rs @ qs) c = add_records qs (add_records rs c)"
  by (simp_all add: add_records_def)

lemma value_of_add_records:
  "value_of (add_records rs c) = value_of c ++ map_of (rev (map (\<lambda>r. (token r, mapped_value r)) rs))"
  by (induction rs arbitrary: c) (auto simp: map_add_def fun_eq_iff split: option.splits)

lemma token_of_add_records:
  "token_of (add_records rs c) = token_of c ++ map_of (rev (map (\<lambda>r. (mapped_value r, token r)) rs))"
  by (induction rs arbitrary: c) (auto simp: map_add_def fun_eq_iff split: option.splits)

section \<open>The table and the repository\<close>

text \<open>
  \<open>CustomerIdentityPiiMapping\<close>: \<open>customer_id\<close> is the primary key, \<open>created_at\<close> is not
  nullable. Rows come back in the order of \<open>(created_at, customer_id)\<close>.
\<close>

record mapping_row =
  customer_id :: string
  uuid :: string
  row_created_at :: instant

type_synonym mapping_table = "mapping_row list"

definition table_ok :: "mapping_table \<Rightarrow> bool" where
  "table_ok T \<longleftrightarrow> distinct (map customer_id T)"

definition record_of_row :: "mapping_row \<Rightarrow> pii_record" where
  "record_of_row r = \<lparr>token = customer_id r, mapped_value = uuid r, created_at = Some (row_created_at r)\<rparr>"

definition row_key :: "mapping_row \<Rightarrow> instant \<times> string" where
  "row_key r = (row_created_at r, customer_id r)"

definition newer_rows :: "instant option \<Rightarrow> mapping_table \<Rightarrow> mapping_row list" where
  "newer_rows since T = sort_key row_key
     (filter (\<lambda>r. case since of None \<Rightarrow> True | Some t \<Rightarrow> row_created_at r > t) T)"

definition get_mappings_batch :: "mapping_table \<Rightarrow> nat \<Rightarrow> nat \<Rightarrow> instant option \<Rightarrow> pii_record list" where
  "get_mappings_batch T limit offset since = map record_of_row (page limit offset (newer_rows since T))"

text \<open>\<open>_batches\<close>: consecutive tuples of \<open>n\<close> values, the last one shorter.\<close>

fun batches_from :: "string list \<Rightarrow> string list \<Rightarrow> nat \<Rightarrow> string list list" where
  "batches_from batch [] n = (if batch \<noteq> [] then [batch] else [])"
| "batches_from batch (v # vs) n =
     (let b = batch @ [v] in if length b = n then b # batches_from [] vs n else batches_from b vs n)"

definition batches :: "string list \<Rightarrow> nat \<Rightarrow> string list list" where
  "batches vs n = batches_from [] vs n"

definition select_tokens :: "mapping_table \<Rightarrow> string list \<Rightarrow> mapping_row list" where
  "select_tokens T toks = filter (\<lambda>r. customer_id r \<in> set toks) T"

definition get_many :: "mapping_table \<Rightarrow> nat \<Rightarrow> string list \<Rightarrow> (string, pii_record) dict" where
  "get_many T query_batch_size tokens =
     (if tokens = [] then [] else
      fold (\<lambda>toks m. fold (\<lambda>r m. dput (customer_id r) (record_of_row r) m) (select_tokens T toks) m)
        (batches (py_sorted_set tokens) query_batch_size) [])"

definition new_repository :: "int \<Rightarrow> exn + nat" where
  "new_repository query_batch_size =
     (if query_batch_size \<le> 0 then Inl (ValueErr ''query_batch_size must be greater than zero'')
      else Inr (nat query_batch_size))"

lemma record_of_row_sel [simp]:
  "token (record_of_row r) = customer_id r" "mapped_value (record_of_row r) = uuid r"
  "created_at (record_of_row r) = Some (row_created_at r)"
  by (simp_all add: record_of_row_def)

lemma set_newer_rows [simp]:
  "set (newer_rows since T) =
     {r \<in> set T. case since of None \<Rightarrow> True | Some t \<Rightarrow> row_created_at r > t}"
  by (auto simp: newer_rows_def)

lemma newer_rows_None: "newer_rows None T = sort_key row_key T"
  by (simp add: newer_rows_def)

lemma table_ok_distinct: "table_ok T \<Longrightarrow> distinct T"
  by (simp add: table_ok_def distinct_map)

lemma table_ok_filter: "table_ok T \<Longrightarrow> table_ok (filter P T)"
  by (simp add: table_ok_def distinct_map_filter)

lemma distinct_ids_newer_rows: "table_ok T \<Longrightarrow> distinct (map customer_id (newer_rows since T))"
proof -
  assume "table_ok T"
  then have "distinct (map customer_id (filter P T))" for P
    by (simp add: table_ok_def distinct_map_filter)
  then show ?thesis
    unfolding newer_rows_def by (metis (no_types) distinct_map distinct_sort set_sort)
qed

lemma concat_batches_from: "concat (batches_from batch vs n) = batch @ vs"
  by (induction batch vs n rule: batches_from.induct) (auto simp: Let_def)

lemma concat_batches [simp]: "concat (batches vs n) = vs"
  by (simp add: batches_def concat_batches_from)

lemma length_batches_from:
  "length batch < n \<Longrightarrow> b \<in> set (batches_from batch vs n) \<Longrightarrow> b \<noteq> [] \<and> length b \<le> n"
  by (induction batch vs n rule: batches_from.induct) (auto simp: Let_def split: if_splits)

lemma length_batches: "0 < n \<Longrightarrow> b \<in> set (batches vs n) \<Longrightarrow> b \<noteq> [] \<and> length b \<le> n"
  using length_batches_from [of "[]" n] by (simp add: batches_def)

definition table_map :: "mapping_table \<Rightarrow> string \<Rightarrow> pii_record option" where
  "table_map T = map_of (map (\<lambda>r. (customer_id r, record_of_row r)) T)"

lemma table_map_Some_iff:
  "table_ok T \<Longrightarrow> table_map T t = Some q \<longleftrightarrow> (\<exists>r \<in> set T. customer_id r = t \<and> record_of_row r = q)"
  unfolding table_map_def table_ok_def by (rule map_of_map_key_Some_iff)

lemma table_map_None_iff: "table_map T t = None \<longleftrightarrow> t \<notin> customer_id ` set T"
  unfolding table_map_def by (rule map_of_map_key_None_iff)

lemma dget_select_tokens:
  assumes "table_ok T"
  shows "dget (fold (\<lambda>r m. dput (customer_id r) (record_of_row r) m) (select_tokens T toks) m) t =
     (if t \<in> set toks then (case table_map T t of None \<Rightarrow> dget m t | Some q \<Rightarrow> Some q) else dget m t)"
proof -
  have "distinct (map customer_id (select_tokens T toks))"
    using assms by (simp add: table_ok_def select_tokens_def distinct_map_filter)
  then have "map_of (rev (map (\<lambda>r. (customer_id r, record_of_row r)) (select_tokens T toks))) t =
      (if t \<in> set toks then table_map T t else None)"
    unfolding select_tokens_def table_map_def
    by (subst map_of_rev_distinct)
       (simp_all add: comp_def map_of_filter_key [where P = "\<lambda>i. i \<in> set toks"])
  then show ?thesis
    by (auto simp: dget_fold_dput map_add_def split: option.splits)
qed

lemma get_many_fold:
  assumes "table_ok T"
  shows "dget (fold (\<lambda>toks m. fold (\<lambda>r m. dput (customer_id r) (record_of_row r) m) (select_tokens T toks) m)
     bs m) t =
     (if t \<in> set (concat bs) then (case table_map T t of None \<Rightarrow> dget m t | Some q \<Rightarrow> Some q) else dget m t)"
  by (induction bs arbitrary: m) (auto simp: dget_select_tokens [OF assms] split: option.splits)

lemma get_many_lookup:
  assumes "table_ok T"
  shows "dget (get_many T n toks) t = (if t \<in> set toks then table_map T t else None)"
proof (cases "toks = []")
  case False
  then show ?thesis
    using get_many_fold [OF assms, of "batches (py_sorted_set toks) n" "[]" t]
    by (auto simp: get_many_def split: option.splits)
qed (simp add: get_many_def)

end
