(* ===== verification/Pii_Sync.thy ===== *)
theory Pii_Sync
  imports Pii_Cache
begin

text \<open>
  Filling and refreshing the PII cache: the snapshot and incremental loaders
  (\<open>app/services/pii_mapping_snapshot.py\<close>) over any paged source of records, the start-up
  retries (\<open>initialize_account_map_in_memory\<close> in \<open>app/dependencies/services.py\<close>), the
  background loop (\<open>app/services/pii_cache_sync.py\<close>), and the step relation of a table that
  grows while the loop runs.
\<close>

section \<open>The loaders\<close>

text \<open>
  A source answers the \<open>k\<close>-th query of a load, \<open>fetch k limit offset\<close>, with a page of records
  or an exception. The loop asks for pages until one is empty; \<open>None\<close> means that it never
  stops. An exception leaves the records added so far in the cache.
\<close>

type_synonym source = "nat \<Rightarrow> nat \<Rightarrow> nat \<Rightarrow> exn + pii_record list"

partial_function (option) load_batches ::
  "source \<Rightarrow> nat \<Rightarrow> nat \<Rightarrow> nat \<Rightarrow> nat \<Rightarrow> account_map \<Rightarrow> ((exn + nat) \<times> account_map) option" where
  "load_batches fetch batch_size k offset loaded c =
     (case fetch k batch_size offset of
        Inl e \<Rightarrow> Some (Inl e, c)
      | Inr records \<Rightarrow>
          if records = [] then Some (Inr loaded, c)
          else load_batches fetch batch_size (Suc k) (offset + batch_size)
                 (loaded + length records) (add_records records c))"

definition load_pii_mapping_snapshot ::
  "source \<Rightarrow> nat \<Rightarrow> account_map \<Rightarrow> ((exn + nat) \<times> account_map) option" where
  "load_pii_mapping_snapshot fetch batch_size c = load_batches fetch batch_size 0 0 0 (clear_cache c)"

text \<open>The source of an incremental load also takes the time stamp the records are newer than.\<close>

definition load_pii_mapping_incremental ::
  "(instant \<Rightarrow> source) \<Rightarrow> nat \<Rightarrow> account_map \<Rightarrow> ((exn + nat) \<times> account_map) option" where
  "load_pii_mapping_incremental fetch batch_size c =
     (case last_synced_at c of
        None \<Rightarrow> Some (Inr 0, c)
      | Some since \<Rightarrow> load_batches (fetch since) batch_size 0 0 0 c)"

section \<open>The interface of a mapping source\<close>

text \<open>
  The contract of \<open>PiiMappingSnapshotRepository\<close>: the pages are consecutive parts of one
  list of records, the same for all queries of a load.
\<close>

locale mapping_source =
  fixes fetch :: "nat \<Rightarrow> nat \<Rightarrow> nat \<Rightarrow> exn + pii_record list"
    and content :: "pii_record list"
  assumes fetch_page: "fetch k limit offset = Inr (page limit offset content)"
begin

lemma load_batches_total:
  "0 < n \<Longrightarrow> load_batches fetch n k offset loaded c =
     Some (Inr (loaded + length (drop offset content)), add_records (drop offset content) c)"
proof (induction "length content - offset" arbitrary: k offset loaded c rule: less_induct)
  case less
  show ?case
  proof (cases "offset < length content")
    case True
    let ?rs = "page n offset content"
    have ne: "?rs \<noteq> []" using True less.prems by (simp add: page_empty_iff)
    have rest: "?rs @ drop (offset + n) content = drop offset content" by (rule page_append_rest)
    have "load_batches fetch n k offset loaded c =
        load_batches fetch n (Suc k) (offset + n) (loaded + length ?rs) (add_records ?rs c)"
      using ne by (subst load_batches.simps) (simp add: fetch_page)
    also have "\<dots> = Some (Inr (loaded + length ?rs + length (drop (offset + n) content)),
        add_records (drop (offset + n) content) (add_records ?rs c))"
      using True less.prems by (intro less.hyps) auto
    also have "\<dots> = Some (Inr (loaded + length (drop offset content)), add_records (drop offset content) c)"
      by (simp flip: rest)
    finally show ?thesis .
  next
    case False
    then show ?thesis by (subst load_batches.simps) (simp add: fetch_page page_def)
  qed
qed

lemma snapshot_total:
  "0 < n \<Longrightarrow> load_pii_mapping_snapshot fetch n c =
     Some (Inr (length content), add_records content new_account_map)"
  by (simp add: load_pii_mapping_snapshot_def load_batches_total)

end

text \<open>A source that fails from query \<open>j\<close> on: the pages before it are loaded.\<close>

locale interrupted_source =
  fixes fetch :: "nat \<Rightarrow> nat \<Rightarrow> nat \<Rightarrow> exn + pii_record list"
    and content :: "pii_record list" and failing :: nat and failure :: exn
  assumes fetch_before: "k < failing \<Longrightarrow> fetch k limit offset = Inr (page limit offset content)"
    and fetch_after: "failing \<le> k \<Longrightarrow> fetch k limit offset = Inl failure"
begin

lemma load_batches_prefix:
  "0 < n \<Longrightarrow> k \<le> failing \<Longrightarrow>
   \<exists>m r. load_batches fetch n k offset loaded c = Some (r, add_records (take m (drop offset content)) c)"
proof (induction "failing - k" arbitrary: k offset loaded c)
  case 0
  then have "load_batches fetch n k offset loaded c = Some (Inl failure, add_records (take 0 (drop offset content)) c)"
    by (subst load_batches.simps) (simp add: fetch_after)
  then show ?case by blast
next
  case (Suc d)
  let ?rs = "page n offset content"
  have step: "fetch k n offset = Inr ?rs" using Suc by (simp add: fetch_before)
  show ?case
  proof (cases "?rs = []")
    case True
    then have "load_batches fetch n k offset loaded c = Some (Inr loaded, add_records (take 0 (drop offset content)) c)"
      by (subst load_batches.simps) (simp add: step)
    then show ?thesis by blast
  next
    case False
    then have "load_batches fetch n k offset loaded c =
        load_batches fetch n (Suc k) (offset + n) (loaded + length ?rs) (add_records ?rs c)"
      by (subst load_batches.simps) (simp add: step)
    moreover have "d = failing - Suc k" "Suc k \<le> failing" using Suc.hyps(2) by auto
    then obtain m r where "load_batches fetch n (Suc k) (offset + n) (loaded + length ?rs) (add_records ?rs c)
        = Some (r, add_records (take m (drop (offset + n) content)) (add_records ?rs c))"
      using Suc.hyps(1) [of "Suc k" "offset + n" "loaded + length ?rs" "add_records ?rs c"] Suc.prems(1)
      by blast
    moreover have "?rs @ take m (drop (offset + n) content) = take (length ?rs + m) (drop offset content)"
    proof -
      have "take (length ?rs + m) (?rs @ drop (offset + n) content) = ?rs @ take m (drop (offset + n) content)"
        by simp
      then show ?thesis by (simp only: page_append_rest)
    qed
    ultimately show ?thesis by (metis add_records_simps(3))
  qed
qed

end

section \<open>The SQL repository as a source\<close>

definition table_source :: "mapping_table \<Rightarrow> instant option \<Rightarrow> source" where
  "table_source T since k limit offset = Inr (get_mappings_batch T limit offset since)"

definition table_records :: "mapping_table \<Rightarrow> instant option \<Rightarrow> pii_record list" where
  "table_records T since = map record_of_row (newer_rows since T)"

text \<open>The table as each query of one load sees it, and a connection lost at query \<open>j\<close>.\<close>

definition moving_source :: "(nat \<Rightarrow> mapping_table) \<Rightarrow> instant option \<Rightarrow> source" where
  "moving_source W since k limit offset = Inr (get_mappings_batch (W k) limit offset since)"

definition failing_source :: "nat \<Rightarrow> exn \<Rightarrow> mapping_table \<Rightarrow> instant option \<Rightarrow> source" where
  "failing_source j e T since k limit offset =
     (if k < j then Inr (get_mappings_batch T limit offset since) else Inl e)"

lemma get_mappings_batch_page: "get_mappings_batch T limit offset since = page limit offset (table_records T since)"
  by (simp add: get_mappings_batch_def table_records_def page_def take_map drop_map)

interpretation sql: mapping_source "table_source T since" "table_records T since" for T since
  by unfold_locales (simp add: table_source_def get_mappings_batch_page)

interpretation sql_fail: interrupted_source "failing_source j e T since" "table_records T since" j e for j e T since
  by unfold_locales (simp_all add: failing_source_def get_mappings_batch_page)

section \<open>What a load leaves in the cache\<close>

lemma fold_newer_Some: "fold newer ts (Some m) = Some (fold max ts m)"
  by (induction ts arbitrary: m) (auto simp: newer_def max.commute)

lemma fold_max_Max: "fold max ts m = Max (insert m (set ts))" for m :: int
  by (metis Max.set_eq_fold list.simps(15))

lemma last_synced_add_rows:
  "last_synced_at (add_records (map record_of_row rs) c) = fold newer (map row_created_at rs) (last_synced_at c)"
  by (induction rs arbitrary: c) auto

lemma last_synced_add_rows_Some:
  "rs \<noteq> [] \<or> last_synced_at c \<noteq> None \<Longrightarrow>
   last_synced_at (add_records (map record_of_row rs) c) =
     Some (Max (row_created_at ` set rs \<union> set_option (last_synced_at c)))"
proof (cases "last_synced_at c")
  case None
  assume "rs \<noteq> [] \<or> last_synced_at c \<noteq> None"
  with None obtain q qs where "rs = q # qs" by (cases rs) auto
  with None show ?thesis
    by (simp add: last_synced_add_rows newer_def fold_newer_Some fold_max_Max)
next
  case (Some t)
  then show ?thesis
    by (simp add: last_synced_add_rows fold_newer_Some fold_max_Max)
qed

lemma map_add_table_records:
  assumes "distinct (map customer_id rs)"
  shows "map_of (rev (map (\<lambda>r. (token r, mapped_value r)) (map record_of_row rs))) t = Some u \<longleftrightarrow>
     (\<exists>r \<in> set rs. customer_id r = t \<and> uuid r = u)"
  using assms
  by (subst map_of_rev_distinct) (auto simp: comp_def map_of_map_key_Some_iff)

lemma value_of_add_rows:
  assumes "distinct (map customer_id rs)"
  shows "value_of (add_records (map record_of_row rs) c) t = Some u \<longleftrightarrow>
     (\<exists>r \<in> set rs. customer_id r = t \<and> uuid r = u) \<or>
     t \<notin> customer_id ` set rs \<and> value_of c t = Some u"
proof -
  let ?m = "map_of (rev (map (\<lambda>r. (token r, mapped_value r)) (map record_of_row rs)))"
  have none: "?m t = None \<longleftrightarrow> t \<notin> customer_id ` set rs"
    by (auto simp: map_of_eq_None_iff image_image)
  show ?thesis
    unfolding value_of_add_records map_add_Some_iff none map_add_table_records [OF assms]
    by blast
qed

lemma distinct_table_records: "table_ok T \<Longrightarrow> distinct (map customer_id (newer_rows since T))"
  by (rule distinct_ids_newer_rows)

lemma value_of_snapshot:
  assumes "table_ok T"
  shows "value_of (add_records (table_records T None) new_account_map) t = map_option mapped_value (table_map T t)"
proof (rule option_eqI)
  fix u
  show "value_of (add_records (table_records T None) new_account_map) t = Some u \<longleftrightarrow>
      map_option mapped_value (table_map T t) = Some u"
    using value_of_add_rows [OF distinct_table_records [OF assms, of None], of new_account_map t u]
    by (auto simp: table_records_def table_map_Some_iff [OF assms])
qed

text \<open>
  Every row newer than \<open>since\<close> that a prefix of the sorted rows leaves out is no older than
  the rows of the prefix.
\<close>

lemma newer_rows_prefix_sorted:
  assumes "r \<in> set (take m (newer_rows since T))" "q \<in> set (drop m (newer_rows since T))"
  shows "row_created_at r \<le> row_created_at q"
proof -
  have "sorted (map row_key (newer_rows since T))" by (simp add: newer_rows_def)
  then have "sorted (map row_key (take m (newer_rows since T)) @ map row_key (drop m (newer_rows since T)))"
    by (simp flip: map_append)
  then have "row_key r \<le> row_key q" using assms by (auto simp: sorted_append)
  then show ?thesis by (auto simp: row_key_def less_eq_prod_def)
qed

section \<open>Start-up\<close>

text \<open>
  \<open>initialize_account_map_in_memory\<close>: attempt \<open>a\<close> of \<open>m\<close> opens a session, which may fail
  (\<open>Inl\<close>), and loads a snapshot from its source. The result carries the number of sleeps.
\<close>

type_synonym attempts = "nat \<Rightarrow> exn + source"

definition init_failed_message :: "nat \<Rightarrow> string" where
  "init_failed_message m =
     ''PII mapping cache failed to initialize after '' @ str_of_nat m @ '' retries''"

definition try_init :: "exn + source \<Rightarrow> int \<Rightarrow> account_map \<Rightarrow> ((exn + nat) \<times> account_map) option" where
  "try_init session batch_size c =
     (case session of
        Inl e \<Rightarrow> Some (Inl e, c)
      | Inr fetch \<Rightarrow>
          (case new_repository batch_size of
             Inl e \<Rightarrow> Some (Inl e, c)
           | Inr n \<Rightarrow> load_pii_mapping_snapshot fetch n c))"

fun init_attempts ::
  "attempts \<Rightarrow> int \<Rightarrow> nat \<Rightarrow> nat \<Rightarrow> nat \<Rightarrow> nat \<Rightarrow> account_map \<Rightarrow>
   ((exn + nat \<times> nat) \<times> account_map \<times> nat) option" where
  "init_attempts session batch_size m 0 a sleeps c =
     Some (Inl (RuntimeErr (init_failed_message m)), c, sleeps)"
| "init_attempts session batch_size m (Suc left) a sleeps c =
     (case try_init (session a) batch_size c of
        None \<Rightarrow> None
      | Some (Inr loaded, c') \<Rightarrow> Some (Inr (loaded, cache_size c'), c', sleeps)
      | Some (Inl e, c') \<Rightarrow>
          init_attempts session batch_size m left (Suc a) (if a < m then Suc sleeps else sleeps) c')"

definition initialize_account_map_in_memory ::
  "attempts \<Rightarrow> int \<Rightarrow> nat \<Rightarrow> account_map \<Rightarrow> ((exn + nat \<times> nat) \<times> account_map \<times> nat) option" where
  "initialize_account_map_in_memory session batch_size max_retries c =
     init_attempts session batch_size max_retries max_retries 1 0 c"

section \<open>The background loop\<close>

text \<open>
  One entry of the list is what \<open>wait_for(stop_event.wait(), interval)\<close> gives in one round of
  \<open>run_pii_cache_sync_loop\<close>: the event fired, or the interval passed and a session was opened
  (or not). The end of the list is the event found set at the head of the loop.
\<close>

datatype tick = StopFired | Interval "exn + (instant \<Rightarrow> source)"

fun sync_round :: "exn + (instant \<Rightarrow> source) \<Rightarrow> nat \<Rightarrow> account_map \<Rightarrow> account_map option" where
  "sync_round (Inl e) n c = Some c"
| "sync_round (Inr fetch) n c = map_option snd (load_pii_mapping_incremental fetch n c)"

fun run_pii_cache_sync_loop :: "nat \<Rightarrow> tick list \<Rightarrow> account_map \<Rightarrow> account_map option" where
  "run_pii_cache_sync_loop n [] c = Some c"
| "run_pii_cache_sync_loop n (StopFired # ts) c = Some c"
| "run_pii_cache_sync_loop n (Interval s # ts) c =
     (case sync_round s n c of None \<Rightarrow> None | Some c' \<Rightarrow> run_pii_cache_sync_loop n ts c')"

section \<open>A growing table and the loop\<close>

text \<open>
  The table gets rows with a fresh token and a time stamp newer than all rows so far (a
  strictly increasing clock); a round of the loop reads the whole of it or is cut off by an
  exception after some pages. The first state follows a snapshot of a table with rows.
\<close>

inductive sync_step :: "nat \<Rightarrow> mapping_table \<times> account_map \<Rightarrow> mapping_table \<times> account_map \<Rightarrow> bool" for n where
  grow: "customer_id r \<notin> customer_id ` set T \<Longrightarrow> (\<And>q. q \<in> set T \<Longrightarrow> row_created_at q < row_created_at r) \<Longrightarrow>
     sync_step n (T, c) (T @ [r], c)"
| sync: "sync_round (Inr (\<lambda>t. table_source T (Some t))) n c = Some c' \<Longrightarrow> sync_step n (T, c) (T, c')"
| cut: "sync_round (Inr (\<lambda>t. failing_source j e T (Some t))) n c = Some c' \<Longrightarrow> sync_step n (T, c) (T, c')"
| no_session: "sync_round (Inl e) n c = Some c' \<Longrightarrow> sync_step n (T, c) (T, c')"

inductive sync_reachable :: "nat \<Rightarrow> mapping_table \<times> account_map \<Rightarrow> bool" for n where
  start: "table_ok T \<Longrightarrow> T \<noteq> [] \<Longrightarrow> distinct (map row_created_at T) \<Longrightarrow>
     load_pii_mapping_snapshot (table_source T None) n c0 = Some (Inr m, c) \<Longrightarrow> sync_reachable n (T, c)"
| step: "sync_reachable n s \<Longrightarrow> sync_step n s s' \<Longrightarrow> sync_reachable n s'"

text \<open>
  The invariant: the cache holds only rows of the table, and every row as old as
  \<open>last_synced_at\<close>, which is the time stamp of a row.
\<close>

definition synced :: "mapping_table \<Rightarrow> account_map \<Rightarrow> bool" where
  "synced T c \<longleftrightarrow> table_ok T \<and> distinct (map row_created_at T) \<and>
     (\<exists>t. last_synced_at c = Some t \<and> t \<in> row_created_at ` set T \<and>
        (\<forall>r \<in> set T. row_created_at r \<le> t \<longrightarrow> value_of c (customer_id r) = Some (uuid r))) \<and>
     (\<forall>k u. value_of c k = Some u \<longrightarrow> (\<exists>r \<in> set T. customer_id r = k \<and> uuid r = u))"

lemma synced_prefix:
  assumes inv: "synced T c" and last: "last_synced_at c = Some t"
  shows "synced T (add_records (take m (table_records T (Some t))) c)"
proof -
  define rs where "rs = take m (newer_rows (Some t) T)"
  define c' where "c' = add_records (map record_of_row rs) c"
  have T: "table_ok T" "distinct (map row_created_at T)" and t: "t \<in> row_created_at ` set T"
    and old: "\<And>r. r \<in> set T \<Longrightarrow> row_created_at r \<le> t \<Longrightarrow> value_of c (customer_id r) = Some (uuid r)"
    and only: "\<And>k u. value_of c k = Some u \<Longrightarrow> \<exists>r \<in> set T. customer_id r = k \<and> uuid r = u"
    using inv last by (auto simp: synced_def)
  have dist: "distinct (map customer_id rs)"
    using distinct_table_records [OF T(1)] by (metis distinct_take rs_def take_map)
  have sub: "r \<in> set rs \<Longrightarrow> r \<in> set T \<and> t < row_created_at r" for r
    using set_take_subset [of m "newer_rows (Some t) T"] by (auto simp: rs_def)
  have val: "value_of c' k = Some u \<longleftrightarrow> (\<exists>r \<in> set rs. customer_id r = k \<and> uuid r = u) \<or>
      k \<notin> customer_id ` set rs \<and> value_of c k = Some u" for k u
    unfolding c'_def by (rule value_of_add_rows [OF dist])
  have max: "last_synced_at c' = Some (Max (row_created_at ` set rs \<union> {t}))"
    using last_synced_add_rows_Some [of rs c] last by (simp add: c'_def)
  let ?t' = "Max (row_created_at ` set rs \<union> {t})"
  have t'_in: "?t' \<in> row_created_at ` set T"
  proof -
    have "?t' \<in> row_created_at ` set rs \<union> {t}" by (rule Max_in) auto
    with sub t show ?thesis by auto
  qed
  have loaded: "value_of c' (customer_id r) = Some (uuid r)" if r: "r \<in> set T" "row_created_at r \<le> ?t'" for r
  proof (cases "r \<in> set rs")
    case True
    with val show ?thesis by blast
  next
    case False
    have "row_created_at r \<le> t"
    proof (rule ccontr)
      assume new: "\<not> row_created_at r \<le> t"
      with r False have "r \<in> set (drop m (newer_rows (Some t) T))"
      proof -
        have "r \<in> set (newer_rows (Some t) T)" using r new by simp
        then have "r \<in> set (take m (newer_rows (Some t) T) @ drop m (newer_rows (Some t) T))" by simp
        with False show ?thesis unfolding rs_def set_append by blast
      qed
      then have le: "row_created_at q \<le> row_created_at r" if "q \<in> set rs" for q
        using that newer_rows_prefix_sorted unfolding rs_def by blast
      then have "?t' \<le> row_created_at r" using new by auto
      with r(2) have "row_created_at r = ?t'" by (rule order_antisym)
      moreover have "?t' \<in> row_created_at ` set rs \<union> {t}" by (rule Max_in) auto
      ultimately have "row_created_at r \<in> row_created_at ` set rs" using new by (metis UnE order_refl singletonD)
      then obtain q where "q \<in> set rs" "row_created_at q = row_created_at r" by auto
      with sub r T(2) have "q = r" by (metis distinct_map inj_onD)
      with False \<open>q \<in> set rs\<close> show False by simp
    qed
    with old r have "value_of c (customer_id r) = Some (uuid r)" by simp
    moreover have "customer_id r \<notin> customer_id ` set rs"
      using False sub r T(1) by (auto simp: table_ok_def distinct_map inj_on_def)
    ultimately show ?thesis using val by blast
  qed
  have only': "\<exists>r \<in> set T. customer_id r = k \<and> uuid r = u" if "value_of c' k = Some u" for k u
    using that val only sub by blast
  have "synced T c'"
    unfolding synced_def
  proof (intro conjI exI [of _ ?t'] ballI impI allI)
  qed (use T max t'_in loaded only' in blast)+
  then show ?thesis by (simp add: c'_def rs_def table_records_def take_map)
qed

lemma sync_round_table:
  assumes "0 < n" "last_synced_at c = Some t"
  shows "sync_round (Inr (\<lambda>t. table_source T (Some t))) n c = Some (add_records (table_records T (Some t)) c)"
  using assms by (simp add: load_pii_mapping_incremental_def sql.load_batches_total)

lemma sync_round_failing:
  assumes "0 < n" "last_synced_at c = Some t"
  shows "\<exists>m. sync_round (Inr (\<lambda>t. failing_source j e T (Some t))) n c = Some (add_records (take m (table_records T (Some t))) c)"
  using sql_fail.load_batches_prefix [of n 0 j e T "Some t" 0 0 c] assms
  by (auto simp: load_pii_mapping_incremental_def)

lemma synced_step:
  assumes "sync_step n (T, c) (T', c')" "0 < n" "synced T c"
  shows "synced T' c'"
  using assms(1)
proof cases
  case (grow r)
  have fresh: "row_created_at r \<notin> row_created_at ` set T" using grow(4) by fastforce
  obtain t where t: "last_synced_at c = Some t" "t \<in> row_created_at ` set T"
    and old: "\<And>q. q \<in> set T \<Longrightarrow> row_created_at q \<le> t \<Longrightarrow> value_of c (customer_id q) = Some (uuid q)"
    and only: "\<And>k u. value_of c k = Some u \<Longrightarrow> \<exists>q \<in> set T. customer_id q = k \<and> uuid q = u"
    and T: "table_ok T" "distinct (map row_created_at T)"
    using assms(3) by (auto simp: synced_def)
  have "t < row_created_at r" using t(2) grow(4) by auto
  with t old have old': "value_of c (customer_id q) = Some (uuid q)"
    if "q \<in> set (T @ [r])" "row_created_at q \<le> t" for q using that by auto
  have T': "table_ok (T @ [r])" "distinct (map row_created_at (T @ [r]))" "t \<in> row_created_at ` set (T @ [r])"
    using T fresh grow(3) t(2) by (auto simp: table_ok_def)
  have only': "\<exists>q \<in> set (T @ [r]). customer_id q = k \<and> uuid q = u" if "value_of c k = Some u" for k u
    using only [OF that] by auto
  show ?thesis
    unfolding synced_def grow(1,2)
    using T' t(1) old' only' by blast
next
  case sync
  obtain t where t: "last_synced_at c = Some t" using assms(3) by (auto simp: synced_def)
  with sync assms(2) have "c' = add_records (take (length (table_records T (Some t))) (table_records T (Some t))) c"
    by (simp add: sync_round_table del: sync_round.simps)
  with sync t assms(3) show ?thesis using synced_prefix by blast
next
  case (cut j e)
  obtain t where t: "last_synced_at c = Some t" using assms(3) by (auto simp: synced_def)
  with cut assms(2) obtain m where "c' = add_records (take m (table_records T (Some t))) c"
    using sync_round_failing [of n c t j e T] by (auto simp del: sync_round.simps)
  with cut t assms(3) show ?thesis using synced_prefix by blast
next
  case no_session
  with assms(3) show ?thesis by simp
qed

lemma synced_snapshot:
  assumes "table_ok T" "T \<noteq> []" "distinct (map row_created_at T)"
  shows "synced T (add_records (table_records T None) new_account_map)"
proof -
  let ?c = "add_records (table_records T None) new_account_map"
  have "newer_rows None T \<noteq> []" using assms(2) by (metis length_0_conv length_sort newer_rows_None)
  then have last: "last_synced_at ?c = Some (Max (row_created_at ` set T))"
    using last_synced_add_rows_Some [of "newer_rows None T" new_account_map] by (simp add: table_records_def)
  have val: "value_of ?c k = Some u \<longleftrightarrow> (\<exists>r \<in> set T. customer_id r = k \<and> uuid r = u)" for k u
    by (auto simp: value_of_snapshot [OF assms(1)] table_map_Some_iff [OF assms(1)])
  have "Max (row_created_at ` set T) \<in> row_created_at ` set T" using assms(2) by (intro Max_in) auto
  with assms last show ?thesis unfolding synced_def val by auto
qed

lemma synced_reachable:
  assumes "sync_reachable n s" "0 < n"
  shows "synced (fst s) (snd s)"
  using assms(1)
proof (induction rule: sync_reachable.induct)
  case (start T c0 m c)
  with assms(2) show ?case by (auto simp: sql.snapshot_total synced_snapshot)
next
  case (step s s')
  with assms(2) show ?case by (cases s; cases s') (auto intro: synced_step)
qed

lemma synced_full_sync:
  assumes "0 < n" "synced T c"
  shows "\<exists>c'. sync_round (Inr (\<lambda>t. table_source T (Some t))) n c = Some c' \<and>
     (\<forall>k. value_of c' k = map_option mapped_value (table_map T k))"
proof -
  obtain t where t: "last_synced_at c = Some t" using assms by (auto simp: synced_def)
  let ?rs = "newer_rows (Some t) T" and ?c = "add_records (table_records T (Some t)) c"
  have T: "table_ok T" using assms by (simp add: synced_def)
  have "value_of ?c k = Some u \<longleftrightarrow> (\<exists>r \<in> set T. customer_id r = k \<and> uuid r = u)" for k u
  proof -
    have "value_of ?c k = Some u \<longleftrightarrow> (\<exists>r \<in> set ?rs. customer_id r = k \<and> uuid r = u) \<or>
        k \<notin> customer_id ` set ?rs \<and> value_of c k = Some u"
      unfolding table_records_def by (rule value_of_add_rows [OF distinct_table_records [OF T]])
    also have "\<dots> \<longleftrightarrow> (\<exists>r \<in> set T. customer_id r = k \<and> uuid r = u)"
    proof
      assume "\<exists>r \<in> set T. customer_id r = k \<and> uuid r = u"
      then obtain r where r: "r \<in> set T" "customer_id r = k" "uuid r = u" by blast
      show "(\<exists>r \<in> set ?rs. customer_id r = k \<and> uuid r = u) \<or> k \<notin> customer_id ` set ?rs \<and> value_of c k = Some u"
      proof (cases "k \<in> customer_id ` set ?rs")
        case True
        then obtain q where q: "q \<in> set ?rs" "customer_id q = k" by blast
        then have "q = r" using r T by (auto simp: table_ok_def distinct_map dest: inj_onD)
        with q r show ?thesis by blast
      next
        case False
        with r have "row_created_at r \<le> t" by auto
        with r have "value_of c k = Some u" using assms(2) t by (auto simp: synced_def)
        with False show ?thesis by blast
      qed
    qed (use assms(2) in \<open>auto simp: synced_def\<close>)
    finally show ?thesis .
  qed
  then have "value_of ?c k = map_option mapped_value (table_map T k)" for k
    by (intro option_eqI) (auto simp: table_map_Some_iff [OF T])
  with sync_round_table [OF assms(1) t] show ?thesis by blast
qed

lemma sync_round_None [simp]: "last_synced_at c = None \<Longrightarrow> sync_round s n c = Some c"
  by (cases s) (simp_all add: load_pii_mapping_incremental_def)

lemma sync_round_idle:
  assumes "0 < n" "last_synced_at c = Some t" "\<And>r. r \<in> set T \<Longrightarrow> row_created_at r \<le> t"
  shows "sync_round (Inr (\<lambda>t. table_source T (Some t))) n c = Some c"
proof -
  have "r \<notin> set (newer_rows (Some t) T)" for r using assms(3) [of r] by auto
  then have "newer_rows (Some t) T = []" by (metis list.set_intros(1) neq_Nil_conv)
  with assms show ?thesis by (simp add: sync_round_table table_records_def del: sync_round.simps)
qed

lemma loop_idle:
  assumes "0 < n" "last_synced_at c = Some t" "\<And>r. r \<in> set T \<Longrightarrow> row_created_at r \<le> t"
  shows "run_pii_cache_sync_loop n (replicate k (Interval (Inr (\<lambda>t. table_source T (Some t))))) c = Some c"
  by (induction k) (simp_all add: sync_round_idle [OF assms] del: sync_round.simps)

lemma init_attempts_fail_step:
  "try_init (session a) b c = Some (Inl e, c') \<Longrightarrow>
   init_attempts session b m (Suc left) a sl c =
     init_attempts session b m left (Suc a) (if a < m then Suc sl else sl) c'"
  by simp

lemma init_attempts_recover:
  assumes T: "table_ok T" "0 < b" and ok: "session j = Inr (table_source T None)"
    and bad: "\<And>i c. a \<le> i \<Longrightarrow> i < j \<Longrightarrow> \<exists>e c'. try_init (session i) b c = Some (Inl e, c')"
    and j: "a \<le> j" "j \<le> m"
  shows "init_attempts session b m (Suc m - a) a sl c =
     Some (Inr (length T, length T), add_records (table_records T None) new_account_map, sl + (j - a))"
  using bad j
proof (induction "j - a" arbitrary: a sl c)
  case 0
  let ?c = "add_records (table_records T None) new_account_map"
  have "nat b > 0" using T by simp
  then have "try_init (session j) b c = Some (Inr (length T), ?c)" for c
    using T ok by (simp add: try_init_def new_repository_def sql.snapshot_total table_records_def newer_rows_None)
  moreover have "cache_size ?c = length T"
  proof -
    have "cache_ok ?c" by (simp add: cache_ok_add_records)
    then have "cache_size ?c = card (dom (value_of ?c))"
      by (simp add: cache_size_def cache_ok_def dom_map_of_conv_image_fst distinct_card flip: image_set)
         (metis distinct_card length_map list.set_map)
    also have "dom (value_of ?c) = customer_id ` set T"
      using T by (auto simp: value_of_snapshot dom_def table_map_Some_iff image_iff)
    also have "card \<dots> = length T"
      using T by (metis distinct_card length_map list.set_map table_ok_def)
    finally show ?thesis .
  qed
  ultimately show ?case using 0 by (simp add: Suc_diff_le)
next
  case (Suc d)
  from Suc.hyps(2) have lt: "a < j" by simp
  with Suc.prems(1) [of a c] obtain e c' where "try_init (session a) b c = Some (Inl e, c')" by auto
  then have "init_attempts session b m (Suc m - a) a sl c = init_attempts session b m (Suc m - Suc a) (Suc a) (Suc sl) c'"
    using lt Suc.prems(3) by (simp add: Suc_diff_le)
  also have "\<dots> = Some (Inr (length T, length T), add_records (table_records T None) new_account_map, Suc sl + (j - Suc a))"
    using Suc lt by (intro Suc.hyps(1)) auto
  finally show ?case using lt by simp
qed

section \<open>Properties\<close>

definition demo_table :: mapping_table where
  "demo_table =
     [\<lparr>customer_id = ''tok-b'', uuid = ''uuid-2'', row_created_at = 20\<rparr>,
      \<lparr>customer_id = ''tok-a'', uuid = ''uuid-1'', row_created_at = 10\<rparr>,
      \<lparr>customer_id = ''tok-c'', uuid = ''uuid-3'', row_created_at = 30\<rparr>]"

lemma demo_table_ok: "table_ok demo_table" "demo_table \<noteq> []" "distinct (map row_created_at demo_table)"
  by (simp_all add: demo_table_def table_ok_def)

text \<open>A snapshot load of a table terminates for every positive batch size, replaces whatever
  the cache held, and leaves exactly the table's token-to-value mapping, with one entry per
  row and \<open>last_synced_at\<close> the newest time stamp.\<close>

lemma snapshot_exact:
  assumes "table_ok T" and "0 < n"
  shows "\<exists>c'. load_pii_mapping_snapshot (table_source T None) n c = Some (Inr (length T), c') \<and>
     (\<forall>t. value_of c' t = map_option mapped_value (table_map T t)) \<and>
     last_synced_at c' = (if T = [] then None else Some (Max (row_created_at ` set T)))"
proof -
  have "newer_rows None T = [] \<longleftrightarrow> T = []" by (metis length_0_conv length_sort newer_rows_None)
  then have "last_synced_at (add_records (table_records T None) new_account_map) =
      (if T = [] then None else Some (Max (row_created_at ` set T)))"
    using last_synced_add_rows_Some [of "newer_rows None T" new_account_map]
    by (auto simp: table_records_def)
  moreover have "length (table_records T None) = length T"
    by (simp add: table_records_def newer_rows_None)
  ultimately show ?thesis
    using sql.snapshot_total [OF assms(2), of T None c] value_of_snapshot [OF assms(1)] by auto
qed

lemma snapshot_exact_witness:
  "table_ok demo_table \<and> (\<exists>c'. load_pii_mapping_snapshot (table_source demo_table None) 2 new_account_map
      = Some (Inr 3, c') \<and> value_of c' ''tok-a'' = Some ''uuid-1'' \<and> last_synced_at c' = Some 30)"
  using snapshot_exact [OF demo_table_ok(1), of 2 new_account_map]
  by (auto simp: demo_table_def table_ok_def table_map_def)

text \<open>C18: start from a snapshot of a table that has rows, with distinct time stamps. Between the rounds of
  the background loop rows with new tokens and later time stamps are appended, and rounds complete, are
  cut off by an error after any page or get no session. Then nothing is lost for good: the next complete round,
  with no row appended while it reads, terminates and brings the cache to exactly the table's
  mapping. Rows that are appended while a load runs are not covered; they can be lost.\<close>

theorem sync_loop_catches_up:
  assumes "sync_reachable n (T, c)" and "0 < n"
  shows "\<exists>c'. run_pii_cache_sync_loop n [Interval (Inr (\<lambda>t. table_source T (Some t)))] c = Some c' \<and>
     (\<forall>k. value_of c' k = map_option mapped_value (table_map T k))"
proof -
  have "synced T c" using synced_reachable [OF assms] by simp
  from synced_full_sync [OF assms(2) this] show ?thesis by auto
qed

theorem sync_loop_catches_up_witness:
  "\<exists>c c'. sync_reachable 2 (demo_table @ [\<lparr>customer_id = ''tok-d'', uuid = ''uuid-4'', row_created_at = 40\<rparr>], c) \<and>
     run_pii_cache_sync_loop 2 [Interval (Inr (\<lambda>t. table_source
       (demo_table @ [\<lparr>customer_id = ''tok-d'', uuid = ''uuid-4'', row_created_at = 40\<rparr>]) (Some t)))] c = Some c' \<and>
     value_of c' ''tok-d'' = Some ''uuid-4''"
proof -
  let ?r = "\<lparr>customer_id = ''tok-d'', uuid = ''uuid-4'', row_created_at = 40\<rparr>"
  let ?c = "add_records (table_records demo_table None) new_account_map"
  have "sync_reachable 2 (demo_table, ?c)"
    by (rule sync_reachable.start [OF demo_table_ok, where m = "length (table_records demo_table None)" and ?c0.0 = new_account_map])
       (simp add: sql.snapshot_total)
  then have reach: "sync_reachable 2 (demo_table @ [?r], ?c)"
    by (rule sync_reachable.step) (rule sync_step.grow, auto simp: demo_table_def)
  from sync_loop_catches_up [OF reach] obtain c'
    where "run_pii_cache_sync_loop 2 [Interval (Inr (\<lambda>t. table_source (demo_table @ [?r]) (Some t)))] ?c = Some c'"
      "value_of c' ''tok-d'' = Some ''uuid-4''"
    by (auto simp: table_map_def demo_table_def simp del: run_pii_cache_sync_loop.simps)
  with reach show ?thesis by blast
qed

text \<open>C39: when the mapping table has no rows at start-up, the snapshot leaves \<open>last_synced_at\<close>
  unset, and then no run of the background loop, whatever rows the table gets meanwhile,
  ever puts an entry into the cache.\<close>

theorem empty_start_never_syncs:
  "load_pii_mapping_snapshot (table_source [] None) n c = Some (Inr 0, new_account_map) \<and>
   run_pii_cache_sync_loop n ticks new_account_map = Some new_account_map"
proof
  show "load_pii_mapping_snapshot (table_source [] None) n c = Some (Inr 0, new_account_map)"
    by (simp add: load_pii_mapping_snapshot_def load_batches.simps table_source_def get_mappings_batch_page
        table_records_def newer_rows_def page_def)
  show "run_pii_cache_sync_loop n ticks new_account_map = Some new_account_map"
    by (induction n ticks new_account_map rule: run_pii_cache_sync_loop.induct) simp_all
qed

text \<open>Start-up succeeds at the first attempt whose source works, with exactly the table in
  the cache whatever the failed attempts before it left there, after one sleep per failed
  attempt.\<close>

lemma initialize_recovers:
  assumes "table_ok T" and "0 < b" and "1 \<le> j" and "j \<le> m"
    and "session j = Inr (table_source T None)"
    and "\<And>i c. 1 \<le> i \<Longrightarrow> i < j \<Longrightarrow> \<exists>e c'. try_init (session i) b c = Some (Inl e, c')"
  shows "initialize_account_map_in_memory session b m c =
     Some (Inr (length T, length T), add_records (table_records T None) new_account_map, j - 1)"
  using init_attempts_recover [of T b session j 1 m 0 c] assms
  by (simp add: initialize_account_map_in_memory_def)

text \<open>When every attempt fails, start-up ends with a \<open>RuntimeError\<close> after exactly
  \<open>max_retries\<close> attempts, with a sleep between attempts and none after the last.\<close>

lemma initialize_gives_up:
  assumes "\<And>i c. 1 \<le> i \<Longrightarrow> i \<le> m \<Longrightarrow> \<exists>e c'. try_init (session i) b c = Some (Inl e, c')"
  shows "\<exists>c'. initialize_account_map_in_memory session b m c =
     Some (Inl (RuntimeErr (init_failed_message m)), c', m - 1)"
proof -
  have "\<exists>c'. init_attempts session b m left (Suc m - left) sl c =
      Some (Inl (RuntimeErr (init_failed_message m)), c', sl + (left - 1))" if "left \<le> m" for left sl c
    using that
  proof (induction left arbitrary: sl c)
    case (Suc left)
    have "1 \<le> Suc m - Suc left" "Suc m - Suc left \<le> m" using Suc.prems by simp_all
    then obtain e c' where "try_init (session (Suc m - Suc left)) b c = Some (Inl e, c')" using assms by blast
    then have "init_attempts session b m (Suc left) (Suc m - Suc left) sl c =
        init_attempts session b m left (Suc m - left) (if left = 0 then sl else Suc sl) c'"
      using Suc.prems by (simp add: Suc_diff_le)
    with Suc.IH [of "if left = 0 then sl else Suc sl" c'] Suc.prems show ?case by (cases left) auto
  qed simp
  from this [of m 0 c] show ?thesis by (simp add: initialize_account_map_in_memory_def)
qed

text \<open>C38: the loaders advance the offset by the batch size and not by the number of records
  received. When rows are appended between two queries of a load, a short page followed by a
  non-empty one skips rows; the newest row loaded sets \<open>last_synced_at\<close>, so that no later run
  of the loop ever loads the skipped row.\<close>

theorem concurrent_append_loses_row:
  assumes "distinct [customer_id r1, customer_id r2, customer_id r3]"
    and "row_created_at r1 < row_created_at r2" and "row_created_at r2 < row_created_at r3"
  shows "\<exists>c'. load_pii_mapping_snapshot (moving_source (\<lambda>k. if k = 0 then [r1] else [r1, r2, r3]) None) 2 c
       = Some (Inr 2, c') \<and>
     run_pii_cache_sync_loop 2 (replicate k (Interval (Inr (\<lambda>t. table_source [r1, r2, r3] (Some t))))) c' = Some c' \<and>
     value_of c' (customer_id r2) = None"
proof -
  let ?W = "\<lambda>k. if k = (0::nat) then [r1] else [r1, r2, r3]"
  let ?c = "add_records [record_of_row r1, record_of_row r3] new_account_map"
  have le: "row_key r1 \<le> row_key r2" "row_key r1 \<le> row_key r3" "row_key r2 \<le> row_key r3"
    using assms by (auto simp: row_key_def less_eq_prod_def)
  have sorted: "newer_rows None [r1, r2, r3] = [r1, r2, r3]"
    unfolding newer_rows_None by (rule sort_key_id_if_sorted) (use le in simp)
  have single: "newer_rows None [r1] = [r1]" by (simp add: newer_rows_def)
  have pages: "moving_source ?W None 0 2 0 = Inr [record_of_row r1]"
    "moving_source ?W None (Suc 0) 2 (Suc (Suc 0)) = Inr [record_of_row r3]"
    "moving_source ?W None (Suc (Suc 0)) 2 (Suc (Suc (Suc (Suc 0)))) = Inr []"
    by (simp_all add: moving_source_def get_mappings_batch_def sorted single page_def)
  have load: "load_pii_mapping_snapshot (moving_source ?W None) 2 c = Some (Inr 2, ?c)"
    by (simp add: load_pii_mapping_snapshot_def load_batches.simps pages)
  have last: "last_synced_at ?c = Some (row_created_at r3)"
    using assms by (simp add: newer_def)
  have "run_pii_cache_sync_loop 2 (replicate k (Interval (Inr (\<lambda>t. table_source [r1, r2, r3] (Some t))))) ?c = Some ?c"
    by (rule loop_idle [OF _ last]) (use assms in auto)
  with load assms(1) show ?thesis by auto
qed

theorem concurrent_append_loses_row_witness:
  "\<exists>c'. load_pii_mapping_snapshot (moving_source (\<lambda>k. if k = 0
        then [\<lparr>customer_id = ''a'', uuid = ''u1'', row_created_at = 1\<rparr>]
        else [\<lparr>customer_id = ''a'', uuid = ''u1'', row_created_at = 1\<rparr>,
              \<lparr>customer_id = ''b'', uuid = ''u2'', row_created_at = 2\<rparr>,
              \<lparr>customer_id = ''c'', uuid = ''u3'', row_created_at = 3\<rparr>]) None) 2 new_account_map = Some (Inr 2, c') \<and>
     value_of c' ''b'' = None"
  using concurrent_append_loses_row [of "\<lparr>customer_id = ''a'', uuid = ''u1'', row_created_at = 1\<rparr>"
      "\<lparr>customer_id = ''b'', uuid = ''u2'', row_created_at = 2\<rparr>"
      "\<lparr>customer_id = ''c'', uuid = ''u3'', row_created_at = 3\<rparr>" new_account_map 1]
  by fastforce

text \<open>\<open>get_many\<close> sends its tokens in batches of at most \<open>query_batch_size\<close> and returns, for
  every batch size, exactly the rows of the requested tokens.\<close>

lemma get_many_batch_independent:
  assumes "table_ok T" and "0 < n"
  shows "dget (get_many T n toks) = (\<lambda>t. if t \<in> set toks then table_map T t else None) \<and>
     concat (batches (py_sorted_set toks) n) = py_sorted_set toks \<and>
     (\<forall>b \<in> set (batches (py_sorted_set toks) n). b \<noteq> [] \<and> length b \<le> n)"
  using get_many_lookup [OF assms(1)] length_batches [OF assms(2)] by (auto simp: fun_eq_iff)

end
