(* ===== verification/Pii_Mapping.thy ===== *)
theory Pii_Mapping
  imports Pii_Sync
begin

text \<open>
  Replacing PII tokens in query results: the value transformers and the query specification
  (\<open>app/services/query_engine/pii_rules.py\<close>), the mapper (\<open>pii_mapper.py\<close>), the column rules
  of the two fixed data services, and the reverse look-up of \<open>BaseQueryService\<close>.
\<close>

section \<open>Transformers\<close>

type_synonym pii_dict = "(string, string) dict"
type_synonym transformer = "pyval \<Rightarrow> pii_dict \<Rightarrow> exn + pyval"

definition opt_str :: "string option \<Rightarrow> pyval" where
  "opt_str s = (case s of None \<Rightarrow> PNone | Some m \<Rightarrow> PStr m)"

definition transform_by_token_length :: transformer where
  "transform_by_token_length value pii_cache =
     (if value = PNone then Inr PNone
      else let tok = py_str value in
        if length tok = 32 then Inr (opt_str (dget pii_cache tok))
        else if length tok = 33
        then Inr (case dget pii_cache (take 32 tok) of
                    Some mapped \<Rightarrow> PStr (mapped @ [tok ! 32])
                  | None \<Rightarrow> PNone)
        else Inr PNone)"

definition transform_when_exceeds_length :: "int \<Rightarrow> bool \<Rightarrow> transformer" where
  "transform_when_exceeds_length min_length strip_last_character value pii_cache =
     (if value = PNone then Inr PNone
      else let tok = py_str value in
        if int (length tok) \<le> min_length then Inr PNone
        else if strip_last_character \<and> tok = [] then Inl IndexErr
        else let (actual_token, suf) =
               (if strip_last_character then (butlast tok, [last tok]) else (tok, []))
             in Inr (case dget pii_cache actual_token of
                       Some mapped \<Rightarrow> PStr (mapped @ suf)
                     | None \<Rightarrow> PNone))"

text \<open>
  The contract of \<open>PiiValueTransformer\<close>: null stays null, and a result is null or the cached
  value of a token followed by the part of the input after that token, of at most one
  character.
\<close>

definition mapped_from :: "pii_dict \<Rightarrow> pyval \<Rightarrow> pyval \<Rightarrow> bool" where
  "mapped_from cache v t \<longleftrightarrow> t = PNone \<or>
     (\<exists>tok mapped suf. py_str v = tok @ suf \<and> length suf \<le> 1 \<and>
        dget cache tok = Some mapped \<and> t = PStr (mapped @ suf))"

locale pii_transformer =
  fixes tr :: transformer
  assumes null_stays: "tr PNone cache = Inr PNone"
    and no_leak: "tr v cache = Inr t \<Longrightarrow> mapped_from cache v t"
begin

lemma unmapped_is_null:
  assumes "tr v cache = Inr t" "\<And>tok suf. py_str v = tok @ suf \<Longrightarrow> length suf \<le> 1 \<Longrightarrow> dget cache tok = None"
  shows "t = PNone"
  using no_leak [OF assms(1)] assms(2) unfolding mapped_from_def by fastforce

lemma empty_cache_nulls: "tr v [] = Inr t \<Longrightarrow> t = PNone"
  by (rule unmapped_is_null) auto

end

lemma take32_append: "length tok = 33 \<Longrightarrow> tok = take 32 tok @ [tok ! 32]"
  by (metis Suc_eq_plus1 append_take_drop_id drop_all id_take_nth_drop lessI order_refl
      semiring_norm(10) numeral_plus_one semiring_norm(5) take_Suc_conv_app_nth take_all)

lemma mapped_from_null [simp]: "mapped_from cache v PNone"
  by (simp add: mapped_from_def)

lemma mapped_fromI:
  "py_str v = tok @ suf \<Longrightarrow> length suf \<le> 1 \<Longrightarrow> dget cache tok = Some mapped \<Longrightarrow>
   mapped_from cache v (PStr (mapped @ suf))"
  by (auto simp: mapped_from_def)

lemma transform_by_token_length_no_leak:
  "transform_by_token_length v cache = Inr t \<Longrightarrow> mapped_from cache v t"
  using mapped_fromI [of v "py_str v" "[]" cache] take32_append [of "py_str v"]
    mapped_fromI [of v "take 32 (py_str v)" "[py_str v ! 32]" cache]
  by (auto simp: transform_by_token_length_def Let_def opt_str_def split: if_splits option.splits)

lemma transform_when_exceeds_length_no_leak:
  "transform_when_exceeds_length n strip v cache = Inr t \<Longrightarrow> mapped_from cache v t"
  using mapped_fromI [of v "py_str v" "[]" cache] append_butlast_last_id [of "py_str v"]
    mapped_fromI [of v "butlast (py_str v)" "[last (py_str v)]" cache]
  by (auto simp: transform_when_exceeds_length_def Let_def split: if_splits option.splits)

interpretation by_length: pii_transformer transform_by_token_length
  by unfold_locales (simp add: transform_by_token_length_def, rule transform_by_token_length_no_leak)

interpretation exceeds: pii_transformer "transform_when_exceeds_length n strip" for n strip
  by unfold_locales (simp add: transform_when_exceeds_length_def, rule transform_when_exceeds_length_no_leak)

section \<open>Query specifications and the mapper\<close>

record 'stmt query_spec =
  route_name :: string
  statement :: 'stmt
  column_pii_rules :: "(string, transformer) dict"

definition pii_columns :: "'stmt query_spec \<Rightarrow> string list" where
  "pii_columns spec = dkeys (column_pii_rules spec)"

definition get_pii_rule :: "'stmt query_spec \<Rightarrow> string \<Rightarrow> transformer option" where
  "get_pii_rule spec column_name = dget (column_pii_rules spec) column_name"

record missing_mapping =
  column_name :: string
  missing_value :: pyval

text \<open>The inner loop of \<open>map_pii_fields\<close> on one row, and the outer loop.\<close>

fun map_row :: "(string, transformer) dict \<Rightarrow> pii_dict \<Rightarrow> row \<Rightarrow> exn + row \<times> missing_mapping list" where
  "map_row [] cache r = Inr (r, [])"
| "map_row ((col, rule) # rules) cache r =
     (case dget r col of
        None \<Rightarrow> map_row rules cache r
      | Some v \<Rightarrow>
          if v = PNone then map_row rules cache r
          else rbind (rule v cache) (\<lambda>t.
                 rbind (map_row rules cache (dput col t r)) (\<lambda>(r', ms).
                   Inr (r', (if t = PNone then [\<lparr>column_name = col, missing_value = v\<rparr>] else []) @ ms))))"

fun map_rows :: "(string, transformer) dict \<Rightarrow> pii_dict \<Rightarrow> row list \<Rightarrow> exn + row list \<times> missing_mapping list" where
  "map_rows rules cache [] = Inr ([], [])"
| "map_rows rules cache (r # rs) =
     rbind (map_row rules cache r) (\<lambda>(r', ms).
       rbind (map_rows rules cache rs) (\<lambda>(rs', ms'). Inr (r' # rs', ms @ ms')))"

definition map_pii_fields ::
  "account_map \<Rightarrow> row list \<Rightarrow> 'stmt query_spec \<Rightarrow> exn + row list \<times> missing_mapping list" where
  "map_pii_fields mapping_cache rows spec =
     (if pii_columns spec = []
      then Inl (ValueErr (''Query '' @ route_name spec @ '' has no PII mapping rules''))
      else if rows = [] then Inr (rows, [])
      else map_rows (column_pii_rules spec) (hashmap_token_to_value mapping_cache) rows)"

definition USERS_PII_RULES :: "(string, transformer) dict" where
  "USERS_PII_RULES = [(''customer_id'', transform_by_token_length)]"

definition POWER_BI_ACCOUNT_PII_RULES :: "(string, transformer) dict" where
  "POWER_BI_ACCOUNT_PII_RULES = [(''accountid'', transform_by_token_length)]"

text \<open>\<open>_get_tokens_by_original_values\<close>\<close>

definition no_match_token :: string where
  "no_match_token = ''__NO_MATCH__''"

definition get_tokens_by_original_values :: "account_map \<Rightarrow> string list \<Rightarrow> string list" where
  "get_tokens_by_original_values mapping_cache original_values =
     (if original_values = [] then []
      else let lower_values = map py_casefold original_values;
               tokens = map snd (filter (\<lambda>(mapped, tok). py_casefold mapped \<in> set lower_values)
                          (hashmap_value_to_token mapping_cache))
           in if tokens = [] then [no_match_token] else tokens)"

section \<open>Facts about the mapper\<close>

text \<open>Rules whose transformers meet the contract, for distinct columns.\<close>

definition rules_ok :: "(string, transformer) dict \<Rightarrow> bool" where
  "rules_ok rules \<longleftrightarrow> distinct (dkeys rules) \<and> (\<forall>(col, tr) \<in> set rules. pii_transformer tr)"

lemma rules_ok_Cons:
  "rules_ok ((col, tr) # rules) \<longleftrightarrow> col \<notin> set (dkeys rules) \<and> pii_transformer tr \<and> rules_ok rules"
  by (auto simp: rules_ok_def)

lemma rules_ok_fixed: "rules_ok USERS_PII_RULES" "rules_ok POWER_BI_ACCOUNT_PII_RULES"
  "rules_ok [(c, transform_by_token_length)]"
  by (simp_all add: rules_ok_def USERS_PII_RULES_def POWER_BI_ACCOUNT_PII_RULES_def
      by_length.pii_transformer_axioms)

lemma map_row_other:
  "map_row rules cache r = Inr (r', ms) \<Longrightarrow> col \<notin> set (dkeys rules) \<Longrightarrow> dget r' col = dget r col"
  by (induction rules cache r arbitrary: r' ms rule: map_row.induct)
     (auto split: option.splits if_splits simp: rbind_Inr_iff)

lemma map_row_keys:
  "map_row rules cache r = Inr (r', ms) \<Longrightarrow> dkeys r' = dkeys r"
proof (induction rules cache r arbitrary: r' ms rule: map_row.induct)
  case (2 col rule rules cache r)
  show ?case
  proof (cases "dget r col")
    case None
    with 2 show ?thesis by simp
  next
    case (Some v)
    have "dkeys (dput col t r) = dkeys r" for t
      using dget_Some_in_dkeys [OF Some] by (induction r) auto
    with 2 Some show ?thesis by (auto split: if_splits simp: rbind_Inr_iff)
  qed
qed simp

text \<open>
  A mapped column holds null exactly where the row did, or where its transformer found
  nothing; each such value is listed as missing, in the order of the rules.
\<close>

definition column_result :: "transformer \<Rightarrow> pii_dict \<Rightarrow> pyval option \<Rightarrow> pyval option" where
  "column_result tr cache v =
     (case v of None \<Rightarrow> None
      | Some w \<Rightarrow> if w = PNone then Some PNone else (case tr w cache of Inl e \<Rightarrow> None | Inr t \<Rightarrow> Some t))"

definition missing_of :: "(string, transformer) dict \<Rightarrow> pii_dict \<Rightarrow> row \<Rightarrow> missing_mapping list" where
  "missing_of rules cache r =
     concat (map (\<lambda>(col, tr). case dget r col of
        Some v \<Rightarrow> if v \<noteq> PNone \<and> tr v cache = Inr PNone then [\<lparr>column_name = col, missing_value = v\<rparr>] else []
      | None \<Rightarrow> []) rules)"

lemma missing_of_update:
  "col \<notin> set (dkeys rules) \<Longrightarrow> missing_of rules cache (dput col t r) = missing_of rules cache r"
  unfolding missing_of_def
  by (rule arg_cong [where f = concat], rule map_cong [OF refl]) (force simp: image_iff split: option.splits)

lemma map_row_result:
  "distinct (dkeys rules) \<Longrightarrow> map_row rules cache r = Inr (r', ms) \<Longrightarrow>
   ms = missing_of rules cache r \<and>
   (\<forall>(col, tr) \<in> set rules. dget r' col = column_result tr cache (dget r col))"
proof (induction rules cache r arbitrary: r' ms rule: map_row.induct)
  case (1 cache r)
  then show ?case by (simp add: missing_of_def)
next
  case (2 col rule rules cache r)
  from "2.prems"(1) have notin: "col \<notin> set (dkeys rules)" and dist: "distinct (dkeys rules)" by auto
  have neq: "(c, tr) \<in> set rules \<Longrightarrow> c \<noteq> col" for c tr using notin by force
  show ?case
  proof (cases "dget r col = None \<or> dget r col = Some PNone")
    case True
    then have step: "map_row ((col, rule) # rules) cache r = map_row rules cache r" by auto
    with "2.prems"(2) have rest: "map_row rules cache r = Inr (r', ms)" by simp
    have "ms = missing_of rules cache r \<and> (\<forall>(c, tr) \<in> set rules. dget r' c = column_result tr cache (dget r c))"
    proof (cases "dget r col")
      case None
      from "2.IH"(1) [OF None dist rest] show ?thesis .
    next
      case (Some v)
      with True have "v = PNone" by simp
      from "2.IH"(2) [OF Some this dist rest] show ?thesis .
    qed
    moreover have "dget r' col = dget r col" using map_row_other [OF rest notin] .
    ultimately show ?thesis using True by (auto simp: missing_of_def column_result_def)
  next
    case False
    then obtain v where v: "dget r col = Some v" "v \<noteq> PNone" by (cases "dget r col") auto
    with "2.prems"(2) obtain t ms' where t: "rule v cache = Inr t"
      and rest: "map_row rules cache (dput col t r) = Inr (r', ms')"
      and ms: "ms = (if t = PNone then [\<lparr>column_name = col, missing_value = v\<rparr>] else []) @ ms'"
      by (auto simp: rbind_Inr_iff split: if_splits)
    have IH: "ms' = missing_of rules cache (dput col t r) \<and>
        (\<forall>(c, tr) \<in> set rules. dget r' c = column_result tr cache (dget (dput col t r) c))"
      using "2.IH"(3) [OF v dist rest] .
    have "dget r' col = Some t" using map_row_other [OF rest notin] by simp
    moreover have "\<forall>(c, tr) \<in> set rules. dget r' c = column_result tr cache (dget r c)"
      using IH neq by fastforce
    moreover have "missing_of ((col, rule) # rules) cache r =
        (if t = PNone then [\<lparr>column_name = col, missing_value = v\<rparr>] else []) @ missing_of rules cache r"
      using v t by (simp add: missing_of_def)
    ultimately show ?thesis
      using IH ms v t by (simp add: missing_of_update [OF notin] column_result_def)
  qed
qed

lemma map_rows_result:
  "map_rows rules cache rs = Inr (rs', ms) \<Longrightarrow> distinct (dkeys rules) \<Longrightarrow>
   list_all2 (\<lambda>r r'. dkeys r' = dkeys r \<and>
      (\<forall>col. col \<notin> set (dkeys rules) \<longrightarrow> dget r' col = dget r col) \<and>
      (\<forall>(col, tr) \<in> set rules. dget r' col = column_result tr cache (dget r col))) rs rs' \<and>
   ms = concat (map (missing_of rules cache) rs)"
proof (induction rs arbitrary: rs' ms)
  case (Cons r rs)
  then obtain r' m1 rs1 m2 where *: "map_row rules cache r = Inr (r', m1)"
    "map_rows rules cache rs = Inr (rs1, m2)" "rs' = r' # rs1" "ms = m1 @ m2"
    by (auto simp: rbind_Inr_iff)
  with Cons.IH [OF *(2) Cons.prems(2)] map_row_result [OF Cons.prems(2) *(1)]
    map_row_keys [OF *(1)] map_row_other [OF *(1)]
  show ?case by auto
qed simp

lemma by_length_total: "\<exists>t. transform_by_token_length v cache = Inr t"
  by (auto simp: transform_by_token_length_def Let_def)

lemma map_row_by_length_total: "\<exists>p. map_row [(col, transform_by_token_length)] cache r = Inr p"
proof (cases "dget r col")
  case (Some v)
  with by_length_total [of v cache] show ?thesis by auto
qed simp

lemma map_rows_by_length_total: "\<exists>p. map_rows [(col, transform_by_token_length)] cache rs = Inr p"
proof (induction rs)
  case (Cons r rs)
  with map_row_by_length_total [of col cache r] show ?case
    by (auto simp del: map_row.simps simp: rbind_def)
qed simp

lemma map_pii_fields_cases:
  "pii_columns spec \<noteq> [] \<Longrightarrow>
   map_pii_fields c rows spec = map_rows (column_pii_rules spec) (hashmap_token_to_value c) rows"
  by (simp add: map_pii_fields_def)

lemma in_tokens_iff:
  "tok \<in> snd ` set (filter (\<lambda>(mapped, t). py_casefold mapped \<in> py_casefold ` set vs) d) \<longleftrightarrow>
   (\<exists>mapped v. (mapped, tok) \<in> set d \<and> v \<in> set vs \<and> py_casefold mapped = py_casefold v)"
  by force

section \<open>Properties\<close>

definition demo_account_map :: account_map where
  "demo_account_map = add_records
     [\<lparr>token = replicate 32 CHR ''a'', mapped_value = ''ACC-1'', created_at = Some 7\<rparr>,
      \<lparr>token = replicate 32 CHR ''b'', mapped_value = ''ACC-2'', created_at = Some 8\<rparr>] new_account_map"

text \<open>C7: the mapper never leaks a token: when the rules meet the transformer contract, a row
  keeps its columns and every column without a rule, and a column with a rule ends up null or
  as a value of the cache followed by at most one character of the original.\<close>

theorem mapper_no_leak:
  assumes "rules_ok (column_pii_rules spec)"
    and "map_pii_fields c rows spec = Inr (rows', missing)"
  shows "list_all2 (\<lambda>r r'. dkeys r' = dkeys r \<and>
      (\<forall>col. col \<notin> set (pii_columns spec) \<longrightarrow> dget r' col = dget r col) \<and>
      (\<forall>col \<in> set (pii_columns spec). \<forall>v t. dget r col = Some v \<longrightarrow> dget r' col = Some t \<longrightarrow>
         mapped_from (hashmap_token_to_value c) v t)) rows rows'"
proof -
  let ?cache = "hashmap_token_to_value c"
  have rules: "distinct (dkeys (column_pii_rules spec))"
    "(col, tr) \<in> set (column_pii_rules spec) \<Longrightarrow> pii_transformer tr" for col tr
    using assms(1) by (auto simp: rules_ok_def)
  have leak: "mapped_from ?cache v t" if "pii_transformer tr" "column_result tr ?cache (Some v) = Some t" for tr v t
    using that pii_transformer.no_leak [OF that(1), of v ?cache t]
    by (auto simp: column_result_def split: if_splits sum.splits)
  have "map_rows (column_pii_rules spec) ?cache rows = Inr (rows', missing)"
    using assms(2) by (auto simp: map_pii_fields_def split: if_splits)
  note result = map_rows_result [OF this rules(1), THEN conjunct1]
  have col_leak: "mapped_from ?cache v t"
    if "col \<in> set (pii_columns spec)" "dget r col = Some v" "dget r' col = Some t"
      "\<forall>(col, tr) \<in> set (column_pii_rules spec). dget r' col = column_result tr ?cache (dget r col)"
    for col v t and r r' :: row
  proof -
    from that(1) obtain tr where tr: "(col, tr) \<in> set (column_pii_rules spec)"
      by (auto simp: pii_columns_def)
    with that(4) have "dget r' col = column_result tr ?cache (dget r col)" by blast
    with that(2,3) have "column_result tr ?cache (Some v) = Some t" by simp
    with leak [OF rules(2) [OF tr]] show ?thesis .
  qed
  show ?thesis
    by (rule list_all2_mono [OF result]) (use col_leak in \<open>auto simp: pii_columns_def\<close>)
qed

theorem mapper_no_leak_witness:
  "\<exists>rows' ms. map_pii_fields demo_account_map
      [[(''customer_id'', PStr (replicate 32 CHR ''a'' @ ''X'')), (''n'', PInt 1)]]
      \<lparr>route_name = ''users'', statement = (), column_pii_rules = USERS_PII_RULES\<rparr> = Inr (rows', ms) \<and>
    (\<exists>r'. rows' = [r'] \<and> dget r' ''n'' = Some (PInt 1))"
proof -
  let ?r = "[(''customer_id'', PStr (replicate 32 CHR ''a'' @ ''X'')), (''n'', PInt 1)]"
  let ?spec = "\<lparr>route_name = ''users'', statement = (), column_pii_rules = USERS_PII_RULES\<rparr>"
  obtain rows' ms where *: "map_pii_fields demo_account_map [?r] ?spec = Inr (rows', ms)"
    using map_rows_by_length_total [of "''customer_id''" "hashmap_token_to_value demo_account_map" "[?r]"]
    by (auto simp: map_pii_fields_def pii_columns_def USERS_PII_RULES_def)
  have ok: "rules_ok (column_pii_rules ?spec)" by (simp add: rules_ok_fixed)
  have "\<exists>r'. rows' = [r'] \<and> dget r' ''n'' = dget ?r ''n''"
    using mapper_no_leak [OF ok *]
    unfolding list_all2_Cons1 list_all2_Nil by (elim exE conjE allE [of _ "''n''"])
      (simp add: pii_columns_def USERS_PII_RULES_def)
  then have "\<exists>r'. rows' = [r'] \<and> dget r' ''n'' = Some (PInt 1)" by simp
  with * show ?thesis by blast
qed

text \<open>C30: the list of missing mappings is exact: in the order of rows and rules it names, with the
  original value, every non-null value of a mapped column for which the rule found nothing,
  and nothing else.\<close>

theorem missing_mappings_exact:
  assumes "rules_ok (column_pii_rules spec)"
    and "map_pii_fields c rows spec = Inr (rows', missing)"
  shows "missing = concat (map (missing_of (column_pii_rules spec) (hashmap_token_to_value c)) rows)"
  using assms map_rows_result [of "column_pii_rules spec" "hashmap_token_to_value c" rows rows' missing]
  by (auto simp: map_pii_fields_def rules_ok_def split: if_splits)

theorem missing_mappings_exact_witness:
  "\<exists>rows' ms. map_pii_fields demo_account_map
      [[(''accountid'', PStr ''zzz'')], [(''accountid'', PNone)]]
      \<lparr>route_name = ''power_bi/accounts'', statement = (), column_pii_rules = POWER_BI_ACCOUNT_PII_RULES\<rparr> =
      Inr (rows', ms) \<and> ms = [\<lparr>column_name = ''accountid'', missing_value = PStr ''zzz''\<rparr>]"
proof -
  let ?rs = "[[(''accountid'', PStr ''zzz'')], [(''accountid'', PNone)]]"
  let ?spec = "\<lparr>route_name = ''power_bi/accounts'', statement = (), column_pii_rules = POWER_BI_ACCOUNT_PII_RULES\<rparr>"
  obtain rows' ms where *: "map_pii_fields demo_account_map ?rs ?spec = Inr (rows', ms)"
    using map_rows_by_length_total [of "''accountid''" "hashmap_token_to_value demo_account_map" ?rs]
    by (auto simp: map_pii_fields_def pii_columns_def POWER_BI_ACCOUNT_PII_RULES_def)
  from missing_mappings_exact [OF _ *]
  have "ms = [\<lparr>column_name = ''accountid'', missing_value = PStr ''zzz''\<rparr>]"
    by (simp add: rules_ok_fixed missing_of_def POWER_BI_ACCOUNT_PII_RULES_def transform_by_token_length_def)
  with * show ?thesis by blast
qed

text \<open>The reverse filter is sound and complete and never vanishes: a request that names any
  account yields a non-empty token list, which is exactly the tokens whose cached value agrees
  with a named account up to case folding, or the one token that matches no row.\<close>

lemma token_filter_exact:
  assumes "original_values \<noteq> []"
  shows "get_tokens_by_original_values c original_values \<noteq> [] \<and>
     (set (get_tokens_by_original_values c original_values) =
        {tok. \<exists>mapped v. (mapped, tok) \<in> set (hashmap_value_to_token c) \<and> v \<in> set original_values \<and>
           py_casefold mapped = py_casefold v} \<or>
      (\<forall>(mapped, tok) \<in> set (hashmap_value_to_token c). \<forall>v \<in> set original_values.
         py_casefold mapped \<noteq> py_casefold v) \<and>
      get_tokens_by_original_values c original_values = [no_match_token])"
proof -
  let ?ts = "map snd (filter (\<lambda>(mapped, tok). py_casefold mapped \<in> py_casefold ` set original_values)
      (hashmap_value_to_token c))"
  have set_ts: "set ?ts = {tok. \<exists>mapped v. (mapped, tok) \<in> set (hashmap_value_to_token c) \<and>
      v \<in> set original_values \<and> py_casefold mapped = py_casefold v}"
    by (rule set_eqI) (simp only: set_map in_tokens_iff mem_Collect_eq)
  have tokens: "get_tokens_by_original_values c original_values = (if ?ts = [] then [no_match_token] else ?ts)"
    using assms by (simp add: get_tokens_by_original_values_def Let_def)
  show ?thesis
  proof (cases "?ts = []")
    case True
    then have "\<forall>(mapped, tok) \<in> set (hashmap_value_to_token c). \<forall>v \<in> set original_values.
        py_casefold mapped \<noteq> py_casefold v"
      by (auto simp: filter_empty_conv)
    with tokens True show ?thesis by auto
  next
    case False
    with tokens set_ts show ?thesis by auto
  qed
qed

lemma token_filter_exact_witness:
  "get_tokens_by_original_values demo_account_map [''acc-2''] \<noteq> []"
  using token_filter_exact [of "[''acc-2'']" demo_account_map] by simp

end
