(* ===== verification/Sql_Safety.thy ===== *)
theory Sql_Safety
  imports Pii_Mapping
begin

text \<open>
  The dynamic SQL policy (\<open>app/services/query_engine/sql_safety.py\<close>). The SQL parser is the
  package sqlglot: its calls and the node tests are the fields of a record the definitions
  take as argument, and nothing is assumed of them unless a lemma says so.
\<close>

section \<open>The parser\<close>

datatype node_class =
    Select | Insert | Update | Delete | Merge | Create | Drop | Alter | TruncateTable | Grant
  | Revoke | SetStmt | Use | Transaction | Commit | Rollback | Execute | Show | Describe | Command

text \<open>A failing parse: \<open>ParseError\<close> with the highlights of its errors, another
  \<open>SqlglotError\<close>, or any other exception.\<close>

datatype parse_failure =
    ParseError "string option list"
  | SqlglotError
  | OtherFailure exn

record 'n sqlglot =
  sg_parse :: "string \<Rightarrow> string \<Rightarrow> parse_failure + 'n option list"
  sg_parse_one :: "string \<Rightarrow> string \<Rightarrow> parse_failure + 'n"
  sg_sql :: "string \<Rightarrow> 'n \<Rightarrow> string"
  sg_walk :: "'n \<Rightarrow> 'n list"
  sg_isinstance :: "'n \<Rightarrow> node_class \<Rightarrow> bool"
  sg_placeholders :: "'n \<Rightarrow> string list"

definition FORBIDDEN_NODES :: "node_class list" where
  "FORBIDDEN_NODES =
     [Insert, Update, Delete, Merge, Create, Drop, Alter, TruncateTable, Grant, Revoke, SetStmt, Use,
      Transaction, Commit, Rollback, Execute, Show, Describe, Command]"

definition ALLOWED_CONTROL_CHARACTERS :: "char set" where
  "ALLOWED_CONTROL_CHARACTERS = {char_of (9 :: nat), char_of (10 :: nat), char_of (13 :: nat)}"

section \<open>The validator\<close>

record validated_sql =
  canonical_sql :: string
  parameter_names :: "string list"

fun validate_characters :: "string \<Rightarrow> exn + unit" where
  "validate_characters [] = Inr ()"
| "validate_characters (c # cs) =
     (if c \<in> ALLOWED_CONTROL_CHARACTERS then validate_characters cs
      else if category_C c
      then Inl (dynamic_sql_error ''dynamic_sql_unsafe_character''
                  ''SQL contains an unsafe control or formatting character'')
      else validate_characters cs)"

definition validate_select_tree :: "'n sqlglot \<Rightarrow> 'n \<Rightarrow> exn + unit" where
  "validate_select_tree sg e =
     (if \<not> sg_isinstance sg e Select
      then Inl (dynamic_sql_error ''dynamic_sql_statement_not_allowed'' ''Only SELECT queries are allowed'')
      else if list_ex (\<lambda>node. list_ex (sg_isinstance sg node) FORBIDDEN_NODES) (sg_walk sg e)
      then Inl (dynamic_sql_error ''dynamic_sql_statement_not_allowed''
                  ''Only read-only SELECT expressions are allowed'')
      else Inr ())"

definition parse_canonical_sql :: "'n sqlglot \<Rightarrow> string \<Rightarrow> string \<Rightarrow> exn + 'n" where
  "parse_canonical_sql sg canonical dialect =
     (case sg_parse_one sg dialect canonical of
        Inl (OtherFailure e) \<Rightarrow> Inl e
      | Inl _ \<Rightarrow> Inl (dynamic_sql_error ''dynamic_sql_invalid'' ''Canonical SQL could not be validated'')
      | Inr e \<Rightarrow> Inr e)"

text \<open>
  \<open>re.sub(r"%\(([A-Za-z_][A-Za-z0-9_]*)\)s", r":\1", sql)\<close>: the leftmost match is replaced and
  the search goes on behind it. The group's greedy match is unique, as it ends at the first
  character that is not an identifier character.
\<close>

fun match_pyformat :: "string \<Rightarrow> (string \<times> string) option" where
  "match_pyformat (a # b # r) =
     (if a = CHR ''%'' \<and> b = CHR ''('' \<and> is_identifier (takeWhile ident_char r) \<and>
         startswith (dropWhile ident_char r) '')s''
      then Some (takeWhile ident_char r, drop 2 (dropWhile ident_char r)) else None)"
| "match_pyformat _ = None"

lemma match_pyformat_shorter: "match_pyformat s = Some (name, rest) \<Longrightarrow> length rest < length s"
  by (cases s rule: match_pyformat.cases)
     (auto split: if_splits simp: le_imp_less_Suc length_dropWhile_le le_SucI diff_le_self
        intro!: le_imp_less_Suc le_trans [OF diff_le_self] le_SucI)

function pyformat_to_named :: "string \<Rightarrow> string" where
  "pyformat_to_named s =
     (case match_pyformat s of
        Some (name, rest) \<Rightarrow> CHR '':'' # name @ pyformat_to_named rest
      | None \<Rightarrow> (case s of [] \<Rightarrow> [] | c # cs \<Rightarrow> c # pyformat_to_named cs))"
  by auto
termination by (relation "measure length") (auto dest: match_pyformat_shorter)

declare pyformat_to_named.simps [simp del]

fun check_parameter_names :: "string list \<Rightarrow> exn + string list" where
  "check_parameter_names [] = Inr []"
| "check_parameter_names (n # ns) =
     (if \<not> is_identifier n
      then Inl (dynamic_sql_error ''dynamic_sql_invalid_parameter''
                  ''SQL parameters must use :name with an ASCII identifier'')
      else rbind (check_parameter_names ns) (\<lambda>ms. Inr (List.insert n ms)))"

definition validate :: "'n sqlglot \<Rightarrow> string \<Rightarrow> string \<Rightarrow> exn + validated_sql" where
  "validate sg dialect sql =
     rbind (validate_characters sql) (\<lambda>_.
     if py_strip sql = []
     then Inl (dynamic_sql_error ''dynamic_sql_empty'' ''SQL must not be empty'')
     else
       (case sg_parse sg dialect sql of
          Inl (ParseError highlights) \<Rightarrow>
            if Some '':'' \<in> set highlights
            then Inl (dynamic_sql_error ''dynamic_sql_invalid_parameter''
                        ''SQL parameters must use :name with an ASCII identifier'')
            else Inl (dynamic_sql_error ''dynamic_sql_invalid'' (''SQL is not valid '' @ dialect @ '' SQL''))
        | Inl SqlglotError \<Rightarrow>
            Inl (dynamic_sql_error ''dynamic_sql_invalid'' (''SQL is not valid '' @ dialect @ '' SQL''))
        | Inl (OtherFailure e) \<Rightarrow> Inl e
        | Inr [Some e] \<Rightarrow>
            rbind (validate_select_tree sg e) (\<lambda>_.
            let rendered = sg_sql sg dialect e;
                canonical = (if dialect = ''postgres'' then pyformat_to_named rendered else rendered)
            in rbind (parse_canonical_sql sg canonical dialect) (\<lambda>reparsed.
               rbind (validate_select_tree sg reparsed) (\<lambda>_.
               rbind (check_parameter_names (sg_placeholders sg reparsed)) (\<lambda>names.
                 Inr \<lparr>canonical_sql = canonical, parameter_names = names\<rparr>))))
        | Inr _ \<Rightarrow>
            Inl (dynamic_sql_error ''dynamic_sql_multiple_statements'' ''Exactly one SQL statement is required'')))"

section \<open>Facts\<close>

text \<open>A tree that reads only: a SELECT with no node of a forbidden class anywhere.\<close>

definition read_only :: "'n sqlglot \<Rightarrow> 'n \<Rightarrow> bool" where
  "read_only sg e \<longleftrightarrow> sg_isinstance sg e Select \<and>
     (\<forall>node \<in> set (sg_walk sg e). \<forall>k \<in> set FORBIDDEN_NODES. \<not> sg_isinstance sg node k)"

lemma validate_select_tree_iff: "validate_select_tree sg e = Inr u \<longleftrightarrow> read_only sg e"
  by (auto simp: validate_select_tree_def read_only_def list_ex_iff)

lemma exn_code_dynamic_sql [simp]: "exn_code (dynamic_sql_error c m) = c"
  by (simp add: exn_code_def dynamic_sql_error_def)

text \<open>The errors of the stages after the character check.\<close>

definition policy_error :: "exn \<Rightarrow> bool" where
  "policy_error e \<longleftrightarrow> (\<exists>c m. e = dynamic_sql_error c m) \<and> exn_code e \<in>
     {''dynamic_sql_invalid'', ''dynamic_sql_invalid_parameter'', ''dynamic_sql_multiple_statements'',
      ''dynamic_sql_statement_not_allowed''}"

lemma policy_error_dynamic_sql [simp]:
  "policy_error (dynamic_sql_error c m) \<longleftrightarrow> c \<in>
     {''dynamic_sql_invalid'', ''dynamic_sql_invalid_parameter'', ''dynamic_sql_multiple_statements'',
      ''dynamic_sql_statement_not_allowed''}"
  by (auto simp: policy_error_def)

lemma validate_select_tree_error:
  "validate_select_tree sg e = Inl x \<Longrightarrow> policy_error x"
  by (auto simp: validate_select_tree_def split: if_splits)

definition safe_char :: "char \<Rightarrow> bool" where
  "safe_char c \<longleftrightarrow> ord c \<in> {9, 10, 13} \<or> \<not> category_C c"

lemma eq_char_of_iff: "n < 256 \<Longrightarrow> c = char_of n \<longleftrightarrow> ord c = n"
  using ord_char_of [of n] by auto

lemma allowed_control_iff: "c \<in> ALLOWED_CONTROL_CHARACTERS \<longleftrightarrow> ord c \<in> {9, 10, 13}"
  by (simp add: ALLOWED_CONTROL_CHARACTERS_def eq_char_of_iff)

lemma validate_characters_iff: "validate_characters s = Inr u \<longleftrightarrow> list_all safe_char s"
  by (induction s) (auto simp: safe_char_def allowed_control_iff)

lemma validate_characters_error:
  "validate_characters s = Inl e \<Longrightarrow> (\<exists>c m. e = dynamic_sql_error c m) \<and>
     exn_code e = ''dynamic_sql_unsafe_character'' \<and> \<not> list_all safe_char s"
  by (induction s) (auto simp: safe_char_def allowed_control_iff split: if_splits)

lemma check_parameter_names_iff:
  "check_parameter_names ns = Inr ms \<Longrightarrow> list_all is_identifier ns \<and> set ms = set ns \<and> distinct ms"
  by (induction ns arbitrary: ms) (auto simp: rbind_Inr_iff split: if_splits)

lemma check_parameter_names_ok:
  "list_all is_identifier ns \<Longrightarrow> \<exists>ms. check_parameter_names ns = Inr ms"
  by (induction ns) auto

lemma check_parameter_names_error: "check_parameter_names ns = Inl e \<Longrightarrow> policy_error e"
  by (induction ns) (auto simp: rbind_Inl_iff split: if_splits)

lemma match_pyformat_iff:
  "match_pyformat s = Some (name, rest) \<longleftrightarrow>
   is_identifier name \<and> s = ''%('' @ name @ '')s'' @ rest"
proof
  assume *: "match_pyformat s = Some (name, rest)"
  then obtain r where r: "s = ''%('' @ r" "is_identifier name" "name = takeWhile ident_char r"
    "startswith (dropWhile ident_char r) '')s''" "rest = drop 2 (dropWhile ident_char r)"
    by (cases s rule: match_pyformat.cases) (auto split: if_splits)
  from r(4) obtain q where q: "dropWhile ident_char r = '')s'' @ q" by (auto simp: startswith_iff)
  have "rest = q" unfolding r(5) q by simp
  then have "name @ '')s'' @ rest = r" using takeWhile_dropWhile_id [of ident_char r] unfolding r(3) q by simp
  with r(1,2) show "is_identifier name \<and> s = ''%('' @ name @ '')s'' @ rest" by simp
next
  assume *: "is_identifier name \<and> s = ''%('' @ name @ '')s'' @ rest"
  have chars: "list_all ident_char name"
    using * by (cases name) (auto simp: ident_char_def)
  have stop: "\<not> ident_char (CHR '')'')"
    by (simp add: ident_char_def ident_start_def is_ascii_letter_def is_ascii_digit_def)
  have "takeWhile ident_char (name @ '')s'' @ rest) = name"
    "dropWhile ident_char (name @ '')s'' @ rest) = '')s'' @ rest"
    using chars stop by (auto simp: takeWhile_append2 dropWhile_append2 list_all_iff)
  with * show "match_pyformat s = Some (name, rest)" by (simp add: startswith_iff)
qed

lemma pyformat_to_named_Nil [simp]: "pyformat_to_named [] = []"
  by (subst pyformat_to_named.simps) simp

lemma pyformat_to_named_match:
  "is_identifier name \<Longrightarrow> pyformat_to_named (''%('' @ name @ '')s'' @ rest) = CHR '':'' # name @ pyformat_to_named rest"
  using match_pyformat_iff [of "''%('' @ name @ '')s'' @ rest" name rest]
  by (subst pyformat_to_named.simps) simp

lemma pyformat_to_named_skip:
  "match_pyformat (c # cs) = None \<Longrightarrow> pyformat_to_named (c # cs) = c # pyformat_to_named cs"
  by (subst pyformat_to_named.simps) simp

lemma pyformat_to_named_plain:
  "CHR ''%'' \<notin> set t \<Longrightarrow> pyformat_to_named (t @ s) = t @ pyformat_to_named s"
proof (induction t)
  case (Cons c t)
  then have "match_pyformat (c # t @ s) = None"
    using match_pyformat_iff [of "c # t @ s"] by (cases "match_pyformat (c # t @ s)") auto
  with Cons show ?case by (simp add: pyformat_to_named_skip)
qed simp

text \<open>The replacement cannot create a match: a text without percent and colon that starts the
  output starts the input.\<close>

lemma pyformat_to_named_prefix:
  "set p \<inter> {CHR ''%'', CHR '':''} = {} \<Longrightarrow> startswith (pyformat_to_named s) p \<Longrightarrow> startswith s p"
proof (induction p arbitrary: s)
  case (Cons x p)
  show ?case
  proof (cases "match_pyformat s")
    case None
    with Cons.prems obtain c cs where s: "s = c # cs" by (cases s) (auto simp: startswith_def)
    with Cons None show ?thesis by (auto simp: pyformat_to_named_skip startswith_def)
  next
    case (Some nr)
    obtain name rest where "nr = (name, rest)" by force
    with Some have "pyformat_to_named s = CHR '':'' # name @ pyformat_to_named rest"
      by (subst pyformat_to_named.simps) simp
    with Cons.prems show ?thesis by (auto simp: startswith_def)
  qed
qed simp

lemma ident_no_marks: "is_identifier name \<Longrightarrow> set name \<inter> {CHR ''%'', CHR '':''} = {}"
proof -
  assume "is_identifier name"
  then have "list_all ident_char name" by (cases name) (auto simp: ident_char_def)
  moreover have "\<not> ident_char (CHR ''%'')" "\<not> ident_char (CHR '':'')"
    by (simp_all add: ident_char_def ident_start_def is_ascii_letter_def is_ascii_digit_def)
  ultimately show ?thesis by (auto simp: list_all_iff)
qed

lemma pyformat_to_named_idem: "pyformat_to_named (pyformat_to_named s) = pyformat_to_named s"
proof (induction s rule: pyformat_to_named.induct)
  case (1 s)
  show ?case
  proof (cases "match_pyformat s")
    case None
    show ?thesis
    proof (cases s)
      case (Cons c cs)
      have "match_pyformat (c # pyformat_to_named cs) = None"
      proof (rule ccontr)
        assume "match_pyformat (c # pyformat_to_named cs) \<noteq> None"
        then obtain name rest where "match_pyformat (c # pyformat_to_named cs) = Some (name, rest)" by auto
        then have m: "is_identifier name" "c = CHR ''%''" "pyformat_to_named cs = ''('' @ name @ '')s'' @ rest"
          by (simp_all add: match_pyformat_iff)
        then have "startswith cs (''('' @ name @ '')s'')"
          using pyformat_to_named_prefix [of "''('' @ name @ '')s''" cs] ident_no_marks [OF m(1)]
          by (auto simp: startswith_iff)
        then obtain r where "cs = ''('' @ name @ '')s'' @ r" by (auto simp: startswith_iff)
        with m Cons have "match_pyformat s = Some (name, r)" unfolding match_pyformat_iff by simp
        with None show False by simp
      qed
      with 1 None Cons show ?thesis by (simp add: pyformat_to_named_skip)
    qed simp
  next
    case (Some nr)
    obtain name rest where nr: "nr = (name, rest)" by force
    with Some have "is_identifier name \<and> s = ''%('' @ name @ '')s'' @ rest"
      using match_pyformat_iff by metis
    then have s: "is_identifier name" "pyformat_to_named s = (CHR '':'' # name) @ pyformat_to_named rest"
      using pyformat_to_named_match [of name rest] by simp_all
    have "CHR ''%'' \<notin> set (CHR '':'' # name)" using ident_no_marks [OF s(1)] by auto
    from pyformat_to_named_plain [OF this, of "pyformat_to_named rest"] 1(2) [OF Some nr [symmetric]] s(2)
    show ?thesis by simp
  qed
qed

text \<open>What an accepted statement went through.\<close>

lemma validate_InrE:
  assumes "validate sg dialect sql = Inr v"
  obtains e t where "list_all safe_char sql" "py_strip sql \<noteq> []" "sg_parse sg dialect sql = Inr [Some e]"
    "read_only sg e"
    "canonical_sql v = (if dialect = ''postgres'' then pyformat_to_named (sg_sql sg dialect e) else sg_sql sg dialect e)"
    "sg_parse_one sg dialect (canonical_sql v) = Inr t" "read_only sg t"
    "list_all is_identifier (sg_placeholders sg t)" "set (parameter_names v) = set (sg_placeholders sg t)"
    "distinct (parameter_names v)"
proof -
  from assms have chars: "list_all safe_char sql" "py_strip sql \<noteq> []"
    by (auto simp: validate_def rbind_Inr_iff validate_characters_iff split: if_splits)
  from assms obtain e where e: "sg_parse sg dialect sql = Inr [Some e]"
    by (auto simp: validate_def rbind_Inr_iff split: if_splits sum.splits parse_failure.splits
        list.splits option.splits)
  let ?c = "if dialect = ''postgres'' then pyformat_to_named (sg_sql sg dialect e) else sg_sql sg dialect e"
  from assms e have "rbind (validate_select_tree sg e) (\<lambda>_.
      rbind (parse_canonical_sql sg ?c dialect) (\<lambda>reparsed.
      rbind (validate_select_tree sg reparsed) (\<lambda>_.
      rbind (check_parameter_names (sg_placeholders sg reparsed)) (\<lambda>names.
        Inr \<lparr>canonical_sql = ?c, parameter_names = names\<rparr>)))) = Inr v"
    by (simp add: validate_def rbind_Inr_iff Let_def split: if_splits)
  then obtain t names where t: "read_only sg e" "parse_canonical_sql sg ?c dialect = Inr t" "read_only sg t"
    "check_parameter_names (sg_placeholders sg t) = Inr names"
    "v = \<lparr>canonical_sql = ?c, parameter_names = names\<rparr>"
    by (elim rbind_InrE) (auto simp: validate_select_tree_iff)
  from t(2) have "sg_parse_one sg dialect ?c = Inr t"
    by (auto simp: parse_canonical_sql_def split: sum.splits parse_failure.splits)
  with that [OF chars e t(1) _ _ t(3)] check_parameter_names_iff [OF t(4)] t(5) show thesis by simp
qed

text \<open>The contract the services use: an accepted statement names its parameters by identifiers,
  and a rejection is a client error. It holds for a parser that raises its own errors only.\<close>

definition sqlglot_errors_only :: "'n sqlglot \<Rightarrow> bool" where
  "sqlglot_errors_only sg \<longleftrightarrow>
     (\<forall>d s e. sg_parse sg d s \<noteq> Inl (OtherFailure e) \<and> sg_parse_one sg d s \<noteq> Inl (OtherFailure e))"

lemma validate_error:
  assumes "sqlglot_errors_only sg" and "validate sg dialect sql = Inl e"
  shows "validate_characters sql = Inl e \<or>
     list_all safe_char sql \<and> py_strip sql = [] \<and> e = dynamic_sql_error ''dynamic_sql_empty'' ''SQL must not be empty'' \<or>
     list_all safe_char sql \<and> py_strip sql \<noteq> [] \<and> policy_error e"
proof (cases "list_all safe_char sql \<and> py_strip sql \<noteq> []")
  case False
  with assms(2) show ?thesis
    by (cases "validate_characters sql") (auto simp: validate_def validate_characters_iff)
next
  case True
  then have chars: "validate_characters sql = Inr ()" "py_strip sql \<noteq> []" by (simp_all add: validate_characters_iff)
  have canonical: "parse_canonical_sql sg c dialect = Inl x \<Longrightarrow> policy_error x" for c x
    using assms(1) by (auto simp: parse_canonical_sql_def sqlglot_errors_only_def
        split: sum.splits parse_failure.splits)
  have "sg_parse sg dialect sql \<noteq> Inl (OtherFailure x)" for x
    using assms(1) by (simp add: sqlglot_errors_only_def)
  with assms(2) chars have "policy_error e"
    unfolding validate_def
    by (auto simp: rbind_Inl_iff Let_def canonical validate_select_tree_error
        check_parameter_names_error split: if_splits sum.splits parse_failure.splits list.splits option.splits)
  with True show ?thesis by simp
qed

section \<open>The interface of the validator\<close>

text \<open>What the route service relies on, for every parser: an accepted statement names its
  parameters by distinct identifiers, and the statement that is kept parses to a tree that
  passed the policy.\<close>

locale sql_policy =
  fixes vd :: "string \<Rightarrow> string \<Rightarrow> exn + validated_sql"
    and accepts :: "string \<Rightarrow> string \<Rightarrow> bool"
  assumes names_identifiers: "vd d s = Inr v \<Longrightarrow> list_all is_identifier (parameter_names v)"
    and names_distinct: "vd d s = Inr v \<Longrightarrow> distinct (parameter_names v)"
    and kept_accepted: "vd d s = Inr v \<Longrightarrow> accepts d (canonical_sql v)"
begin

lemma no_bad_name: "vd d s = Inr v \<Longrightarrow> n \<in> set (parameter_names v) \<Longrightarrow> is_identifier n"
  using names_identifiers by (auto simp: list_all_iff)

end

text \<open>A text the parser reads as one read-only SELECT.\<close>

definition accepts_text :: "'n sqlglot \<Rightarrow> string \<Rightarrow> string \<Rightarrow> bool" where
  "accepts_text sg dialect s \<longleftrightarrow>
     (case sg_parse_one sg dialect s of Inr t \<Rightarrow> read_only sg t | Inl _ \<Rightarrow> False)"

lemma list_all_set_eq: "list_all P xs \<Longrightarrow> set ys = set xs \<Longrightarrow> list_all P ys"
  by (simp add: list_all_iff)

interpretation policy: sql_policy "validate sg" "accepts_text sg" for sg :: "'n sqlglot"
  by unfold_locales
     (auto elim!: validate_InrE simp: accepts_text_def intro: list_all_set_eq)

section \<open>Properties\<close>

text \<open>A parser to evaluate the definitions with: it takes every text for one statement.\<close>

fun colon_names :: "string \<Rightarrow> string list" where
  "colon_names [] = []"
| "colon_names (c # cs) =
     (if c = CHR '':'' then takeWhile ident_char cs # colon_names cs else colon_names cs)"

definition demo_sqlglot :: "string sqlglot" where
  "demo_sqlglot = \<lparr>sg_parse = (\<lambda>d s. Inr [Some s]), sg_parse_one = (\<lambda>d s. Inr s), sg_sql = (\<lambda>d n. n),
     sg_walk = (\<lambda>n. [n]), sg_isinstance = (\<lambda>n k. case k of
        Select \<Rightarrow> startswith n ''SELECT'' | Insert \<Rightarrow> startswith n ''INSERT'' | _ \<Rightarrow> False),
     sg_placeholders = colon_names\<rparr>"

lemma demo_validate:
  "validate demo_sqlglot ''trino'' ''SELECT :id'' =
     Inr \<lparr>canonical_sql = ''SELECT :id'', parameter_names = [''id'']\<rparr>"
  by code_simp

text \<open>C2: every statement that passes the validator is written in harmless characters and was parsed
  as a single read-only SELECT, and so was the canonical text that is kept of it, after the
  placeholders of the Postgres dialect were renamed: the text that will be executed parses to
  one SELECT without a forbidden node anywhere, and all its placeholders are identifiers and
  are listed once.\<close>

theorem validated_sql_read_only:
  assumes "validate sg dialect sql = Inr v"
  shows "list_all safe_char sql \<and>
     (\<exists>e. sg_parse sg dialect sql = Inr [Some e] \<and> read_only sg e) \<and>
     (\<exists>t. sg_parse_one sg dialect (canonical_sql v) = Inr t \<and> read_only sg t \<and>
        set (parameter_names v) = set (sg_placeholders sg t) \<and> distinct (parameter_names v) \<and>
        list_all is_identifier (parameter_names v))"
  by (rule validate_InrE [OF assms]) (auto intro: list_all_set_eq)

theorem validated_sql_read_only_witness:
  "\<exists>v t. validate demo_sqlglot ''trino'' ''SELECT :id'' = Inr v \<and>
     sg_parse_one demo_sqlglot ''trino'' (canonical_sql v) = Inr t \<and> read_only demo_sqlglot t"
  using validated_sql_read_only [OF demo_validate] demo_validate by auto

text \<open>With a parser that raises its own errors only, every rejection is a DynamicSql client error
  with status 422; it reports an unsafe character exactly when the text has one, and an empty
  text exactly when the text is safe and blank.\<close>

lemma validate_rejections:
  assumes "sqlglot_errors_only sg" and "validate sg dialect sql = Inl e"
  shows "(\<exists>c m. e = dynamic_sql_error c m) \<and> rsp_status (handle_exception rid e) = 422 \<and>
     (exn_code e = ''dynamic_sql_unsafe_character'' \<longleftrightarrow> \<not> list_all safe_char sql) \<and>
     (exn_code e = ''dynamic_sql_empty'' \<longleftrightarrow> list_all safe_char sql \<and> py_strip sql = [])"
  using validate_error [OF assms] validate_characters_error [of sql e]
  by (auto simp: policy_error_def validate_characters_iff)

lemma validate_rejections_witness:
  "\<exists>e. validate demo_sqlglot ''trino'' ''DROP'' = Inl e \<and> rsp_status (handle_exception None e) = 422"
proof -
  obtain e where e: "validate demo_sqlglot ''trino'' ''DROP'' = Inl e"
    by (cases "validate demo_sqlglot ''trino'' ''DROP''")
       (auto elim!: validate_InrE simp: demo_sqlglot_def read_only_def startswith_def)
  have "sqlglot_errors_only demo_sqlglot" by (simp add: sqlglot_errors_only_def demo_sqlglot_def)
  from validate_rejections [OF this e, of None] e show ?thesis by blast
qed

text \<open>The renaming of Postgres placeholders is exact: every \<open>%(name)s\<close> between texts without a
  percent sign becomes \<open>:name\<close>, the texts stay, and a second pass changes nothing.\<close>

lemma pyformat_renaming_exact:
  assumes "\<forall>(t, n) \<in> set segs. CHR ''%'' \<notin> set t \<and> is_identifier n" and "CHR ''%'' \<notin> set rear"
  shows "pyformat_to_named (concat (map (\<lambda>(t, n). t @ ''%('' @ n @ '')s'') segs) @ rear) =
       concat (map (\<lambda>(t, n). t @ '':'' @ n) segs) @ rear \<and>
     pyformat_to_named (pyformat_to_named s) = pyformat_to_named s"
proof
  show "pyformat_to_named (concat (map (\<lambda>(t, n). t @ ''%('' @ n @ '')s'') segs) @ rear) =
       concat (map (\<lambda>(t, n). t @ '':'' @ n) segs) @ rear"
    using assms
  proof (induction segs)
    case Nil
    then show ?case using pyformat_to_named_plain [of rear "[]"] by simp
  next
    case (Cons tn segs)
    obtain t n where tn: "tn = (t, n)" by force
    let ?rest = "concat (map (\<lambda>(t, n). t @ ''%('' @ n @ '')s'') segs) @ rear"
    have "pyformat_to_named (t @ ''%('' @ n @ '')s'' @ ?rest) = t @ CHR '':'' # n @ pyformat_to_named ?rest"
      using Cons.prems tn pyformat_to_named_plain [of t] pyformat_to_named_match [of n ?rest] by simp
    with Cons tn show ?case by simp
  qed
qed (rule pyformat_to_named_idem)

lemma pyformat_renaming_exact_witness:
  "pyformat_to_named ''SELECT %(id)s'' = ''SELECT :id''"
  using pyformat_renaming_exact [of "[(''SELECT '', ''id'')]" "[]" "[]"]
  by (simp add: ident_start_def ident_char_def is_ascii_letter_def)

end
