(* ===== verification/Dynamic_Params.thy ===== *)
theory Dynamic_Params
  imports Sql_Safety
begin

text \<open>
  The typed parameters of dynamic routes (\<open>services/query_engine/dynamic_parameters.py\<close>):
  definitions and their validation, casting of request values, the contract between the
  placeholders of a statement and the definitions, and binding. The field validation of
  pydantic and the scan for \<open>:name\<close> in SQLAlchemy's \<open>text\<close> are parameters.
\<close>

section \<open>Definitions\<close>

datatype param_type = TString | TInteger | TFloat | TBoolean | TDate | TDatetime | TStringList

fun type_value :: "param_type \<Rightarrow> string" where
  "type_value TString = ''string''"
| "type_value TInteger = ''integer''"
| "type_value TFloat = ''float''"
| "type_value TBoolean = ''boolean''"
| "type_value TDate = ''date''"
| "type_value TDatetime = ''datetime''"
| "type_value TStringList = ''string_list''"

record param_def =
  ptype :: param_type
  required :: bool
  default :: pyval
  pdescription :: string

type_synonym param_defs = "(string, param_def) dict"

section \<open>Casting\<close>

definition quoted :: "string \<Rightarrow> string" where
  "quoted s = CHR 0x27 # s @ [CHR 0x27]"

definition invalid_parameter :: "string \<Rightarrow> row \<Rightarrow> exn" where
  "invalid_parameter msg ds = dynamic_parameter_error ''dynamic_parameter_invalid'' msg ds"

text \<open>\<open>_INTEGER\<close>: \<open>[+-]?[0-9]+\<close>\<close>

fun is_integer_text :: "string \<Rightarrow> bool" where
  "is_integer_text [] = False"
| "is_integer_text (c # cs) =
     (if c \<in> {CHR ''+'', CHR ''-''} then cs \<noteq> [] \<and> list_all is_ascii_digit cs
      else list_all is_ascii_digit (c # cs))"

fun split_items :: "string \<Rightarrow> pyval list \<Rightarrow> exn + string list" where
  "split_items name [] = Inr []"
| "split_items name (PStr s # vs) =
     rbind (split_items name vs) (\<lambda>rest. Inr (map py_strip (py_split (CHR '','') s) @ rest))"
| "split_items name (_ # vs) =
     Inl (invalid_parameter (''Parameter '' @ quoted name @ '' must contain only strings'')
            [(''parameter'', PStr name)])"

definition cast_string_list :: "pyval list \<Rightarrow> string \<Rightarrow> exn + pyval" where
  "cast_string_list values name =
     rbind (split_items name values) (\<lambda>result.
       if result = [] \<or> list_ex (\<lambda>item. item = []) result
       then Inl (invalid_parameter (''Parameter '' @ quoted name @ '' must contain non-empty strings'')
                   [(''parameter'', PStr name)])
       else Inr (PList (map PStr result)))"

text \<open>
  The body of the \<open>try\<close> block: \<open>None\<close> is a \<open>TypeError\<close> or \<open>ValueError\<close>, which the block
  catches; any other exception leaves it.
\<close>

definition finite_float :: "pyfloat \<Rightarrow> exn + pyval option" where
  "finite_float f = Inr (if py_isfinite f then Some (PFloat f) else None)"

definition cast_attempt :: "param_type \<Rightarrow> pyval \<Rightarrow> string \<Rightarrow> exn + pyval option" where
  "cast_attempt t v name =
     (case t of
        TString \<Rightarrow> Inr (case v of PStr s \<Rightarrow> Some v | _ \<Rightarrow> None)
      | TInteger \<Rightarrow> Inr (case v of
            PInt i \<Rightarrow> Some v
          | PStr s \<Rightarrow> if is_integer_text s then map_option PInt (py_int_of_str s) else None
          | _ \<Rightarrow> None)
      | TFloat \<Rightarrow> (case v of
            PStr s \<Rightarrow> (case py_float_of_str s of None \<Rightarrow> Inr None | Some f \<Rightarrow> finite_float f)
          | PInt i \<Rightarrow> (case py_float_of_int i of None \<Rightarrow> Inl OverflowErr | Some f \<Rightarrow> finite_float f)
          | PFloat f \<Rightarrow> finite_float f
          | _ \<Rightarrow> Inr None)
      | TBoolean \<Rightarrow> Inr (case v of
            PBool b \<Rightarrow> Some v
          | PStr s \<Rightarrow>
              if py_casefold s \<in> {''true'', ''1''} then Some (PBool True)
              else if py_casefold s \<in> {''false'', ''0''} then Some (PBool False) else None
          | _ \<Rightarrow> None)
      | TDate \<Rightarrow> Inr (case v of
            PDate d \<Rightarrow> Some v
          | PStr s \<Rightarrow> map_option PDate (date_fromisoformat s)
          | _ \<Rightarrow> None)
      | TDatetime \<Rightarrow> Inr (case v of
            PDateTime d \<Rightarrow> Some v
          | PStr s \<Rightarrow> map_option PDateTime (datetime_fromisoformat s)
          | _ \<Rightarrow> None)
      | TStringList \<Rightarrow> (case v of
            PList vs \<Rightarrow> map_sum id Some (cast_string_list vs name)
          | _ \<Rightarrow> Inr None))"

definition cast_value :: "param_type \<Rightarrow> pyval \<Rightarrow> string \<Rightarrow> exn + pyval" where
  "cast_value t v name =
     (case cast_attempt t v name of
        Inl e \<Rightarrow> Inl e
      | Inr (Some w) \<Rightarrow> Inr w
      | Inr None \<Rightarrow>
          Inl (invalid_parameter (''Parameter '' @ quoted name @ '' is not a valid '' @ type_value t)
                 [(''parameter'', PStr name), (''expected_type'', PStr (type_value t))]))"

section \<open>Validation of a definition\<close>

text \<open>
  \<open>validate_default\<close>: its \<open>ValueError\<close> becomes a pydantic \<open>ValidationError\<close>; an exception that
  is neither of these leaves the model's constructor as it is.
\<close>

definition value_error_issue :: "string \<Rightarrow> validation_issue" where
  "value_error_issue msg =
     \<lparr>vi_loc = Some (PList []), vi_msg = Some (PStr (''Value error, '' @ msg)),
      vi_type = Some (PStr ''value_error''), vi_input = None\<rparr>"

definition validate_default :: "param_def \<Rightarrow> exn + param_def" where
  "validate_default d =
     (if required d \<and> default d \<noteq> PNone
      then Inl (ModelValidationErr [value_error_issue ''required parameters cannot define a default''])
      else if \<not> required d \<and> default d \<noteq> PNone
      then (case cast_value (ptype d) (default d) ''default'' of
              Inl e \<Rightarrow>
                if is_app_error DynamicParameter e
                then Inl (ModelValidationErr [value_error_issue ''default does not match parameter type''])
                else Inl e
            | Inr w \<Rightarrow> Inr d)
      else Inr d)"

text \<open>\<open>model_validate\<close>, for the field validation \<open>pf\<close> of pydantic.\<close>

definition model_validate ::
  "(pyval \<Rightarrow> validation_issue list + param_def) \<Rightarrow> pyval \<Rightarrow> exn + param_def" where
  "model_validate pf v =
     (case pf v of
        Inl issues \<Rightarrow> Inl (ModelValidationErr issues)
      | Inr d \<Rightarrow> validate_default d)"

section \<open>The contract with the statement\<close>

definition str_list :: "string list \<Rightarrow> pyval" where
  "str_list xs = PList (map PStr xs)"

definition validate_parameter_contract :: "string list \<Rightarrow> param_defs \<Rightarrow> exn + unit" where
  "validate_parameter_contract names defs =
     (let invalid_names = sort (filter (\<lambda>n. \<not> is_identifier n) (dkeys defs)) in
      if invalid_names \<noteq> []
      then Inl (dynamic_parameter_error ''dynamic_parameter_invalid_name''
                  ''Parameter names must be ASCII identifiers''
                  [(''invalid_names'', str_list invalid_names)])
      else
        let missing = py_sorted_set (filter (\<lambda>n. n \<notin> set (dkeys defs)) names);
            unused = py_sorted_set (filter (\<lambda>n. n \<notin> set names) (dkeys defs))
        in if missing \<noteq> [] \<or> unused \<noteq> []
           then Inl (dynamic_parameter_error ''dynamic_parameter_contract_mismatch''
                       ''SQL placeholders and parameter definitions must match exactly''
                       [(''missing_definitions'', str_list missing),
                        (''unused_definitions'', str_list unused)])
           else Inr ())"

section \<open>Request values\<close>

text \<open>The raw values of a request: the query string, as the list of its pairs, or a mapping.\<close>

datatype raw_values = QueryParams "(string \<times> string) list" | RawMapping row

definition getlist :: "(string \<times> string) list \<Rightarrow> string \<Rightarrow> string list" where
  "getlist items key = map snd (filter (\<lambda>(k, v). k = key) items)"

definition query_keys :: "(string \<times> string) list \<Rightarrow> string list" where
  "query_keys items = rev (remdups (rev (map fst items)))"

fun collect_raw_values :: "raw_values \<Rightarrow> (string, pyval list) dict" where
  "collect_raw_values (QueryParams items) =
     map (\<lambda>key. (key, map PStr (getlist items key))) (query_keys items)"
| "collect_raw_values (RawMapping kvs) =
     map (\<lambda>(key, v). (key, case v of PList vs \<Rightarrow> vs | _ \<Rightarrow> [v])) kvs"

definition cast_supplied :: "param_def \<Rightarrow> string \<Rightarrow> pyval list \<Rightarrow> exn + pyval" where
  "cast_supplied d name values =
     (if ptype d = TStringList then cast_string_list values name
      else case values of
          [v] \<Rightarrow> cast_value (ptype d) v name
        | _ \<Rightarrow> Inl (invalid_parameter (''Parameter '' @ quoted name @ '' must be supplied once'')
                      [(''parameter'', PStr name)]))"

definition cast_absent :: "param_def \<Rightarrow> string \<Rightarrow> exn + pyval" where
  "cast_absent d name =
     (if required d
      then Inl (dynamic_parameter_error ''dynamic_parameter_missing''
                  (''Required parameter '' @ quoted name @ '' is missing'') [(''parameter'', PStr name)])
      else if default d = PNone then Inr PNone
      else cast_value (ptype d) (default d) ''default'')"

fun cast_definitions :: "param_defs \<Rightarrow> (string, pyval list) dict \<Rightarrow> exn + row" where
  "cast_definitions [] supplied = Inr []"
| "cast_definitions ((name, d) # defs) supplied =
     rbind (case dget supplied name of
              None \<Rightarrow> cast_absent d name
            | Some values \<Rightarrow> cast_supplied d name values) (\<lambda>v.
     rbind (cast_definitions defs supplied) (\<lambda>rest. Inr ((name, v) # rest)))"

definition cast_parameter_values :: "param_defs \<Rightarrow> raw_values \<Rightarrow> exn + row" where
  "cast_parameter_values defs raw =
     (let supplied = collect_raw_values raw;
          unknown = py_sorted_set (filter (\<lambda>n. n \<notin> set (dkeys defs)) (dkeys supplied))
      in if unknown \<noteq> []
         then Inl (dynamic_parameter_error ''dynamic_parameter_unknown''
                     ''Request contains undeclared parameters'' [(''parameters'', str_list unknown)])
         else cast_definitions defs supplied)"

section \<open>Binding\<close>

datatype sql_type = SqlString | SqlInteger | SqlFloat | SqlBoolean | SqlDate | SqlDateTime

record bind =
  bind_name :: string
  expanding :: bool
  bind_type :: sql_type

record bound_statement =
  stmt_text :: string
  stmt_binds :: "bind list"

fun sqlalchemy_type :: "param_type \<Rightarrow> exn + sql_type" where
  "sqlalchemy_type TString = Inr SqlString"
| "sqlalchemy_type TInteger = Inr SqlInteger"
| "sqlalchemy_type TFloat = Inr SqlFloat"
| "sqlalchemy_type TBoolean = Inr SqlBoolean"
| "sqlalchemy_type TDate = Inr SqlDate"
| "sqlalchemy_type TDatetime = Inr SqlDateTime"
| "sqlalchemy_type TStringList = Inl (KeyErr ''string_list'')"

definition bind_of :: "string \<times> param_def \<Rightarrow> exn + bind" where
  "bind_of nd = (case nd of (name, d) \<Rightarrow>
     if ptype d = TStringList then Inr \<lparr>bind_name = name, expanding = True, bind_type = SqlString\<rparr>
     else rbind (sqlalchemy_type (ptype d)) (\<lambda>t. Inr \<lparr>bind_name = name, expanding = False, bind_type = t\<rparr>))"

text \<open>
  \<open>text_binds\<close> stands for the names SQLAlchemy's \<open>text\<close> finds in a statement;
  \<open>TextClause.bindparams\<close> raises \<open>ArgumentError\<close> for a bind the text does not have.
\<close>

definition build_bound_statement ::
  "(string \<Rightarrow> string list) \<Rightarrow> string \<Rightarrow> param_defs \<Rightarrow> exn + bound_statement" where
  "build_bound_statement text_binds canonical defs =
     rbind (map_res bind_of defs) (\<lambda>binds.
       if list_all (\<lambda>b. bind_name b \<in> set (text_binds canonical)) binds
       then Inr \<lparr>stmt_text = canonical, stmt_binds = binds\<rparr>
       else Inl (SqlaErr ''ArgumentError''))"

section \<open>Facts about casting\<close>

text \<open>The values of a parameter type.\<close>

fun has_type :: "param_type \<Rightarrow> pyval \<Rightarrow> bool" where
  "has_type TString v = (case v of PStr s \<Rightarrow> True | _ \<Rightarrow> False)"
| "has_type TInteger v = (case v of PInt i \<Rightarrow> True | _ \<Rightarrow> False)"
| "has_type TFloat v = (case v of PFloat f \<Rightarrow> py_isfinite f | _ \<Rightarrow> False)"
| "has_type TBoolean v = (case v of PBool b \<Rightarrow> True | _ \<Rightarrow> False)"
| "has_type TDate v = (case v of PDate d \<Rightarrow> True | _ \<Rightarrow> False)"
| "has_type TDatetime v = (case v of PDateTime t \<Rightarrow> True | _ \<Rightarrow> False)"
| "has_type TStringList v =
     (case v of
        PList vs \<Rightarrow> vs \<noteq> [] \<and>
          list_all (\<lambda>v. case v of PStr s \<Rightarrow> s \<noteq> [] \<and> py_strip s = s \<and> CHR '','' \<notin> set s | _ \<Rightarrow> False) vs
      | _ \<Rightarrow> False)"

fun_cases split_itemsE: "split_items name (v # vs) = Inr items"

lemma split_items_clean:
  "split_items name vs = Inr items \<Longrightarrow> item \<in> set items \<Longrightarrow> py_strip item = item \<and> CHR '','' \<notin> set item"
proof (induction vs arbitrary: items)
  case (Cons v vs)
  from Cons.prems(1) obtain s
    where "Inr items = rbind (split_items name vs) (\<lambda>rest. Inr (map py_strip (py_split (CHR '','') s) @ rest))"
    by (elim split_itemsE)
  then obtain rest where rest: "split_items name vs = Inr rest"
    "items = map py_strip (py_split (CHR '','') s) @ rest"
    by (cases "split_items name vs") auto
  have "CHR '','' \<notin> set (py_strip w)" if "w \<in> set (py_split (CHR '','') s)" for w
    using py_split_no_sep [OF that] set_py_strip [of w] by blast
  with Cons.IH [OF rest(1)] Cons.prems(2) rest(2) show ?case by auto
qed simp

lemma cast_string_list_typed: "cast_string_list vs name = Inr w \<Longrightarrow> has_type TStringList w"
  by (auto simp: cast_string_list_def rbind_Inr_iff list_all_iff list_ex_iff
      dest: split_items_clean split: if_splits)

lemma cast_attempt_typed: "cast_attempt t v name = Inr (Some w) \<Longrightarrow> has_type t w"
  by (cases t; cases v)
     (auto simp: cast_attempt_def finite_float_def split: if_splits option.splits sum.splits
       intro: cast_string_list_typed elim!: map_sum_InrE simp del: has_type.simps(7))

lemma cast_value_Inr_iff: "cast_value t v name = Inr w \<longleftrightarrow> cast_attempt t v name = Inr (Some w)"
  by (auto simp: cast_value_def split: sum.splits option.splits)

lemma cast_value_typed: "cast_value t v name = Inr w \<Longrightarrow> has_type t w"
  by (simp add: cast_value_Inr_iff cast_attempt_typed)

text \<open>Which exceptions a cast can raise: only an integer for a float parameter is not covered by
  the handler.\<close>

lemma split_items_error: "split_items name vs = Inl e \<Longrightarrow> \<exists>m d. e = invalid_parameter m d"
  by (induction name vs rule: split_items.induct) (auto simp: rbind_Inl_iff)

lemma cast_string_list_error: "cast_string_list vs name = Inl e \<Longrightarrow> \<exists>m d. e = invalid_parameter m d"
  by (auto simp: cast_string_list_def rbind_Inl_iff split_items_error split: if_splits)

lemma cast_attempt_error:
  "cast_attempt t v name = Inl e \<Longrightarrow>
   (\<exists>m d. e = invalid_parameter m d) \<or> (e = OverflowErr \<and> t = TFloat \<and> (\<exists>i. v = PInt i \<and> py_float_of_int i = None))"
  by (cases t; cases v)
     (auto simp: cast_attempt_def finite_float_def split: option.splits sum.splits
       intro: cast_string_list_error elim!: map_sum_InlE)

lemma cast_value_error:
  "cast_value t v name = Inl e \<Longrightarrow>
   (\<exists>m d. e = invalid_parameter m d) \<or> (e = OverflowErr \<and> t = TFloat \<and> (\<exists>i. v = PInt i \<and> py_float_of_int i = None))"
  by (auto simp: cast_value_def dest: cast_attempt_error split: sum.splits option.splits)

lemma cast_value_str_error: "cast_value t (PStr s) name = Inl e \<Longrightarrow> \<exists>m d. e = invalid_parameter m d"
  using cast_value_error by fastforce

text \<open>The name enters error messages only.\<close>

lemma split_items_name: "split_items n vs = Inr items \<Longrightarrow> split_items n' vs = Inr items"
  by (induction n vs arbitrary: items rule: split_items.induct) (auto simp: rbind_Inr_iff)

lemma cast_string_list_name: "cast_string_list vs n = Inr w \<Longrightarrow> cast_string_list vs n' = Inr w"
  by (auto simp: cast_string_list_def rbind_Inr_iff dest: split_items_name [of n vs _ n'] split: if_splits)

lemma cast_value_name: "cast_value t v n = Inr w \<Longrightarrow> cast_value t v n' = Inr w"
  unfolding cast_value_Inr_iff
  by (cases t; cases v) (auto simp: cast_attempt_def split: option.splits elim!: map_sum_InrE
      dest: cast_string_list_name [of _ n _ n'])

text \<open>Casting a cast value changes nothing.\<close>

lemma clean_itemsE:
  assumes "list_all (\<lambda>v. case v of PStr s \<Rightarrow> P s | _ \<Rightarrow> False) vs"
  obtains ws where "vs = map PStr ws" "list_all P ws"
proof -
  have "\<exists>ws. vs = map PStr ws \<and> list_all P ws"
    using assms
  proof (induction vs)
    case (Cons v vs)
    then obtain ws where "vs = map PStr ws" "list_all P ws" by auto
    with Cons.prems show ?case by (cases v) (auto intro: exI [of _ "_ # ws"])
  qed simp
  then show thesis using that by blast
qed

lemma split_items_clean_id:
  "list_all (\<lambda>s. s \<noteq> [] \<and> py_strip s = s \<and> CHR '','' \<notin> set s) ws \<Longrightarrow>
   split_items name (map PStr ws) = Inr ws"
  by (induction ws) (auto simp: py_split_single)

lemma cast_string_list_id:
  assumes "has_type TStringList (PList vs)"
  shows "cast_string_list vs name = Inr (PList vs)"
proof -
  from assms obtain ws where ws: "vs = map PStr ws"
    "list_all (\<lambda>s. s \<noteq> [] \<and> py_strip s = s \<and> CHR '','' \<notin> set s) ws"
    by (auto elim!: clean_itemsE)
  then have "\<not> list_ex (\<lambda>item. item = []) ws" by (auto simp: list_ex_iff list_all_iff)
  with ws assms split_items_clean_id [OF ws(2)] show ?thesis by (simp add: cast_string_list_def)
qed

lemma cast_value_id: "has_type t w \<Longrightarrow> cast_value t w name = Inr w"
proof (cases "t = TStringList")
  case True
  then show "has_type t w \<Longrightarrow> cast_value t w name = Inr w"
    by (cases w) (simp_all add: cast_value_Inr_iff cast_attempt_def cast_string_list_id)
next
  case False
  then show "has_type t w \<Longrightarrow> cast_value t w name = Inr w"
    by (cases t; cases w) (auto simp: cast_value_Inr_iff cast_attempt_def finite_float_def)
qed

section \<open>Facts about definitions, the contract and requests\<close>

lemma validate_default_Inr:
  assumes "validate_default d = Inr d'"
  shows "d' = d" "required d \<Longrightarrow> default d = PNone"
    "default d \<noteq> PNone \<Longrightarrow> \<exists>w. cast_value (ptype d) (default d) ''default'' = Inr w"
  using assms by (auto simp: validate_default_def split: if_splits sum.splits)

text \<open>The definitions of a route: distinct names, each definition accepted by its validator.\<close>

definition defs_valid :: "param_defs \<Rightarrow> bool" where
  "defs_valid defs \<longleftrightarrow> distinct (dkeys defs) \<and> (\<forall>(n, d) \<in> set defs. validate_default d = Inr d)"

lemma defs_valid_Cons:
  "defs_valid ((n, d) # defs) \<longleftrightarrow> n \<notin> set (dkeys defs) \<and> validate_default d = Inr d \<and> defs_valid defs"
  by (auto simp: defs_valid_def)

lemma validate_parameter_contract_iff:
  "validate_parameter_contract names defs = Inr u \<longleftrightarrow>
     list_all is_identifier (dkeys defs) \<and> set names = set (dkeys defs)"
proof -
  have "sort (filter (\<lambda>n. \<not> is_identifier n) (dkeys defs)) = [] \<longleftrightarrow> list_all is_identifier (dkeys defs)"
    by (metis (mono_tags, lifting) filter_empty_conv list_all_iff set_empty set_sort)
  moreover have "py_sorted_set (filter (\<lambda>n. n \<notin> B) A) = [] \<longleftrightarrow> set A \<subseteq> B" for A and B :: "string set"
    by (auto simp: filter_empty_conv)
  ultimately show ?thesis
    by (auto simp: validate_parameter_contract_def Let_def split: if_splits)
qed

lemma validate_parameter_contract_error:
  "validate_parameter_contract names defs = Inl e \<Longrightarrow> \<exists>c m ds. e = dynamic_parameter_error c m ds"
  by (auto simp: validate_parameter_contract_def Let_def split: if_splits)

definition supplied_names :: "raw_values \<Rightarrow> string set" where
  "supplied_names raw = set (dkeys (collect_raw_values raw))"

lemma supplied_names_query: "supplied_names (QueryParams items) = fst ` set items"
  by (simp add: supplied_names_def query_keys_def comp_def)

text \<open>What a cast value is for its definition.\<close>

definition value_for :: "param_def \<Rightarrow> bool \<Rightarrow> pyval \<Rightarrow> bool" where
  "value_for d given w \<longleftrightarrow>
     (given \<or> \<not> required d) \<and>
     (has_type (ptype d) w \<or> \<not> given \<and> default d = PNone \<and> w = PNone)"

lemma cast_supplied_typed: "cast_supplied d n vs = Inr w \<Longrightarrow> has_type (ptype d) w"
  by (auto simp: cast_supplied_def cast_value_typed split: if_splits list.splits
      dest: cast_string_list_typed simp del: has_type.simps)

lemma cast_absent_value: "cast_absent d n = Inr w \<Longrightarrow> value_for d False w"
  by (auto simp: cast_absent_def value_for_def cast_value_typed split: if_splits)

lemma cast_definitions_result:
  "cast_definitions defs supplied = Inr res \<Longrightarrow>
   list_all2 (\<lambda>(n, d) (n', w). n' = n \<and> value_for d (n \<in> set (dkeys supplied)) w) defs res"
proof (induction defs arbitrary: res)
  case (Cons nd defs)
  obtain n d where nd: "nd = (n, d)" by force
  with Cons.prems obtain v rest where v: "(case dget supplied n of None \<Rightarrow> cast_absent d n
      | Some values \<Rightarrow> cast_supplied d n values) = Inr v"
    and rest: "cast_definitions defs supplied = Inr rest" "res = (n, v) # rest"
    by (auto simp: rbind_Inr_iff)
  have "value_for d (n \<in> set (dkeys supplied)) v"
  proof (cases "dget supplied n")
    case None
    with v show ?thesis by (metis cast_absent_value dget_None_iff option.simps(4))
  next
    case (Some vs)
    then have "n \<in> set (dkeys supplied)" by (rule dget_Some_in_dkeys)
    with v Some show ?thesis by (simp add: value_for_def cast_supplied_typed)
  qed
  with Cons.IH [OF rest(1)] rest(2) nd show ?case by simp
qed simp

lemma cast_absent_error:
  assumes "cast_absent d n = Inl e" "validate_default d = Inr d"
  shows "\<exists>c m ds. e = dynamic_parameter_error c m ds"
  using assms validate_default_Inr(3) [OF assms(2)] by (auto simp: cast_absent_def split: if_splits)

lemma cast_supplied_str_error:
  assumes "cast_supplied d n (map PStr ss) = Inl e"
  shows "\<exists>m ds. e = invalid_parameter m ds"
proof (cases "ptype d = TStringList")
  case True
  with assms show ?thesis by (auto simp: cast_supplied_def dest: cast_string_list_error)
next
  case False
  show ?thesis
  proof (cases "\<exists>s. ss = [s]")
    case True
    with assms False show ?thesis by (auto simp: cast_supplied_def dest: cast_value_str_error)
  next
    case more: False
    with assms False show ?thesis
      by (cases ss; cases "tl ss") (auto simp: cast_supplied_def)
  qed
qed

lemma cast_definitions_query_error:
  "cast_definitions defs (collect_raw_values (QueryParams items)) = Inl e \<Longrightarrow> defs_valid defs \<Longrightarrow>
   \<exists>c m ds. e = dynamic_parameter_error c m ds"
proof (induction defs)
  case (Cons nd defs)
  obtain n d where nd: "nd = (n, d)" by force
  let ?sup = "collect_raw_values (QueryParams items)"
  have strs: "\<exists>ss. vs = map PStr ss" if "dget ?sup n = Some vs" for vs
    using map_of_SomeD [OF that] by auto
  from Cons.prems nd consider (absent) "dget ?sup n = None" "cast_absent d n = Inl e"
    | (given) vs where "dget ?sup n = Some vs" "cast_supplied d n vs = Inl e"
    | (rest) "cast_definitions defs ?sup = Inl e"
    by (auto simp: rbind_Inl_iff simp del: collect_raw_values.simps split: option.splits)
  then show ?case
  proof cases
    case absent
    with Cons.prems(2) nd show ?thesis by (auto simp: defs_valid_Cons dest: cast_absent_error)
  next
    case given
    from strs [OF given(1)] obtain ss where "vs = map PStr ss" ..
    with given(2) cast_supplied_str_error [of d n ss e] show ?thesis unfolding invalid_parameter_def by blast
  next
    case rest
    with Cons nd show ?thesis by (simp add: defs_valid_Cons)
  qed
qed simp

section \<open>Round trip of stored definitions\<close>

text \<open>
  \<open>_serialize_definitions\<close> and \<open>_deserialize_definitions\<close> of \<open>dynamic_routes.py\<close>. The two
  pydantic calls, \<open>model_dump(mode="json")\<close> and the field validation of \<open>model_validate\<close>, are
  the fields of a codec.
\<close>

record definition_codec =
  dc_validate :: "pyval \<Rightarrow> validation_issue list + param_def"
  dc_dump :: "param_def \<Rightarrow> pyval"

definition serialize_definitions :: "definition_codec \<Rightarrow> param_defs \<Rightarrow> row" where
  "serialize_definitions dc defs = map (\<lambda>(n, d). (n, dc_dump dc d)) defs"

definition validate_definitions :: "definition_codec \<Rightarrow> row \<Rightarrow> exn + param_defs" where
  "validate_definitions dc values =
     map_res (\<lambda>(n, v). rbind (model_validate (dc_validate dc) v) (\<lambda>d. Inr (n, d))) values"

definition deserialize_definitions :: "definition_codec \<Rightarrow> row \<Rightarrow> exn + param_defs" where
  "deserialize_definitions dc values =
     (case validate_definitions dc values of
        Inr defs \<Rightarrow> Inr defs
      | Inl e \<Rightarrow>
          (case e of
             ModelValidationErr issues \<Rightarrow>
               Inl (dynamic_sql_error ''dynamic_sql_invalid_parameter_contract'' ''Stored parameter contract is invalid'')
           | TypeErr \<Rightarrow>
               Inl (dynamic_sql_error ''dynamic_sql_invalid_parameter_contract'' ''Stored parameter contract is invalid'')
           | _ \<Rightarrow> Inl e))"

text \<open>The documented round trip of the codec on the definitions at hand.\<close>

definition codec_inverts :: "definition_codec \<Rightarrow> param_defs \<Rightarrow> bool" where
  "codec_inverts dc defs \<longleftrightarrow> (\<forall>(n, d) \<in> set defs. dc_validate dc (dc_dump dc d) = Inr d)"

lemma validate_serialize:
  "codec_inverts dc defs \<Longrightarrow> defs_valid defs \<Longrightarrow>
   validate_definitions dc (serialize_definitions dc defs) = Inr defs"
  by (induction defs)
     (auto simp: serialize_definitions_def validate_definitions_def model_validate_def defs_valid_Cons codec_inverts_def)

lemma deserialize_serialize:
  "codec_inverts dc defs \<Longrightarrow> defs_valid defs \<Longrightarrow>
   deserialize_definitions dc (serialize_definitions dc defs) = Inr defs"
  by (simp add: deserialize_definitions_def validate_serialize)

text \<open>Whatever was stored, definitions that come back were accepted by their validator.\<close>

lemma validate_definitions_valid:
  "validate_definitions dc stored = Inr defs \<Longrightarrow>
   dkeys defs = dkeys stored \<and> (\<forall>(n, d) \<in> set defs. validate_default d = Inr d)"
proof (induction stored arbitrary: defs)
  case (Cons nv stored)
  obtain n v where nv: "nv = (n, v)" by force
  with Cons.prems obtain d rest where d: "model_validate (dc_validate dc) v = Inr d"
    and rest: "validate_definitions dc stored = Inr rest" "defs = (n, d) # rest"
    by (auto simp: validate_definitions_def rbind_Inr_iff)
  from d obtain d0 where "validate_default d0 = Inr d" by (auto simp: model_validate_def split: sum.splits)
  with validate_default_Inr(1) have "validate_default d = Inr d" by blast
  with Cons.IH [OF rest(1)] rest(2) nv show ?case by auto
qed (simp add: validate_definitions_def)

lemma deserialize_definitions_valid:
  "deserialize_definitions dc stored = Inr defs \<Longrightarrow> distinct (dkeys stored) \<Longrightarrow>
   defs_valid defs \<and> dkeys defs = dkeys stored"
  using validate_definitions_valid [of dc stored defs]
  by (auto simp: deserialize_definitions_def defs_valid_def split: sum.splits exn.splits)

section \<open>Properties\<close>

definition demo_defs :: param_defs where
  "demo_defs =
     [(''id'', \<lparr>ptype = TInteger, required = True, default = PNone, pdescription = []\<rparr>),
      (''tags'', \<lparr>ptype = TStringList, required = False, default = PNone, pdescription = []\<rparr>)]"

lemma demo_defs_valid: "defs_valid demo_defs"
  by (simp add: demo_defs_def defs_valid_def validate_default_def)

lemma demo_cast:
  "cast_parameter_values demo_defs (QueryParams [(''id'', ''7'')]) = Inr [(''id'', PInt 7), (''tags'', PNone)]"
  by code_simp

text \<open>C33: a successful cast is complete and typed: the result has exactly the declared names in
  their order and nothing undeclared was supplied; each supplied or defaulted value has the
  declared type (finite floats, non-empty trimmed list items without commas), null stands only
  for an absent optional parameter without a default, and no required parameter is absent.\<close>

theorem cast_values_typed:
  assumes "cast_parameter_values defs raw = Inr res"
  shows "supplied_names raw \<subseteq> set (dkeys defs) \<and> dkeys res = dkeys defs \<and>
     list_all2 (\<lambda>(n, d) (n', w). n' = n \<and> value_for d (n \<in> supplied_names raw) w) defs res"
proof -
  from assms have known: "supplied_names raw \<subseteq> set (dkeys defs)"
    and cast: "cast_definitions defs (collect_raw_values raw) = Inr res"
    by (auto simp: cast_parameter_values_def Let_def supplied_names_def filter_empty_conv split: if_splits)
  have typed: "list_all2 (\<lambda>(n, d) (n', w). n' = n \<and> value_for d (n \<in> supplied_names raw) w) defs res"
    using cast_definitions_result [OF cast] by (simp add: supplied_names_def)
  moreover from typed have "dkeys res = dkeys defs"
    by (induction rule: list_all2_induct) auto
  ultimately show ?thesis using known by blast
qed

theorem cast_values_typed_witness:
  "\<exists>res. cast_parameter_values demo_defs (QueryParams [(''id'', ''7'')]) = Inr res \<and> dkeys res = [''id'', ''tags'']"
  using cast_values_typed [OF demo_cast] demo_cast by (simp add: demo_defs_def)

text \<open>Whatever a client puts into the query string, a failing cast against accepted definitions
  is a DynamicParameter client error with status 422.\<close>

lemma query_cast_rejections:
  assumes "defs_valid defs" and "cast_parameter_values defs (QueryParams items) = Inl e"
  shows "(\<exists>c m ds. e = dynamic_parameter_error c m ds) \<and> rsp_status (handle_exception rid e) = 422"
proof -
  have "\<exists>c m ds. e = dynamic_parameter_error c m ds"
    using assms(2) cast_definitions_query_error [OF _ assms(1), of items e]
    by (auto simp: cast_parameter_values_def Let_def simp del: collect_raw_values.simps split: if_splits)
  then show ?thesis by auto
qed

text \<open>Casting is stable: a cast value, given again to the same type, is accepted and unchanged.\<close>

lemma cast_value_stable:
  assumes "cast_value t v n = Inr w"
  shows "has_type t w \<and> cast_value t w n' = Inr w"
  using cast_value_id cast_value_typed [OF assms] by blast

text \<open>C40: an integer beyond the range of doubles for a float parameter escapes the error handling:
  the cast raises \<open>OverflowError\<close>, also from the validator of a default, and the client gets an
  internal server error.\<close>

theorem float_overflow_escapes:
  assumes "2 ^ 1024 \<le> \<bar>i\<bar>"
  shows "cast_value TFloat (PInt i) n = Inl OverflowErr \<and>
     validate_default \<lparr>ptype = TFloat, required = False, default = PInt i, pdescription = ds\<rparr> = Inl OverflowErr \<and>
     rsp_status (handle_exception rid OverflowErr) = 500"
  by (simp add: cast_value_def cast_attempt_def validate_default_def py_float_of_huge_int [OF assms]
      handle_exception_def internal_error_response_def error_response_def)

theorem float_overflow_escapes_witness:
  "cast_value TFloat (PInt (2 ^ 1024)) ''x'' = Inl OverflowErr"
proof -
  have "(2 :: int) ^ 1024 \<le> \<bar>2 ^ 1024\<bar>" by (rule abs_ge_self)
  from float_overflow_escapes [OF this] show ?thesis by (rule conjunct1)
qed

text \<open>The contract between a statement and its definitions is exact: it is accepted when and
  only when the placeholders are exactly the declared names and all of them are identifiers, and
  every rejection is a client error.\<close>

lemma contract_exact:
  "(validate_parameter_contract names defs = Inr () \<longleftrightarrow>
      set names = set (dkeys defs) \<and> list_all is_identifier (dkeys defs)) \<and>
   (case validate_parameter_contract names defs of
      Inr _ \<Rightarrow> True
    | Inl e \<Rightarrow> rsp_status (handle_exception rid e) = 422)"
  using validate_parameter_contract_iff [of names defs "()"] validate_parameter_contract_error [of names defs]
  by (auto split: sum.splits)

text \<open>Stored definitions round-trip: what a route stores is read back as the same definitions,
  and reading anything else gives definitions that were accepted by their validator.\<close>

lemma definitions_roundtrip:
  assumes "codec_inverts dc defs" and "defs_valid defs"
  shows "deserialize_definitions dc (serialize_definitions dc defs) = Inr defs"
  using assms by (rule deserialize_serialize)

definition demo_codec :: definition_codec where
  "demo_codec = \<lparr>dc_validate = (\<lambda>v. case v of
       PDict [(_, PStr t), (_, PBool r), (_, dv), (_, PStr ds)] \<Rightarrow>
         (case filter (\<lambda>ty. type_value ty = t)
                 [TString, TInteger, TFloat, TBoolean, TDate, TDatetime, TStringList] of
            [ty] \<Rightarrow> Inr \<lparr>ptype = ty, required = r, default = dv, pdescription = ds\<rparr>
          | _ \<Rightarrow> Inl [])
     | _ \<Rightarrow> Inl []),
     dc_dump = (\<lambda>d. PDict [(''type'', PStr (type_value (ptype d))), (''required'', PBool (required d)),
       (''default'', default d), (''description'', PStr (pdescription d))])\<rparr>"

lemma demo_codec_inverts: "codec_inverts demo_codec defs"
proof -
  have "dc_validate demo_codec (dc_dump demo_codec d) = Inr d" for d
    by (cases d; cases "ptype d") (simp_all add: demo_codec_def)
  then show ?thesis by (simp add: codec_inverts_def)
qed

lemma definitions_roundtrip_witness:
  "deserialize_definitions demo_codec (serialize_definitions demo_codec demo_defs) = Inr demo_defs"
  by (rule definitions_roundtrip [OF demo_codec_inverts demo_defs_valid])

end
