(* ===== verification/Database.thy ===== *)
theory Database
  imports Dynamic_Params "HOL-Library.Word"
begin

text \<open>
  The application database (\<open>app/models\<close>), the session and unit of work
  (\<open>infrastructure/database\<close>) and the SQLAlchemy repositories (\<open>repositories/sqlalchemy\<close>).

  The database is the list of rows of each table with the constraints the models declare. A
  session holds the committed rows, the rows its own transaction sees, and the steps other
  transactions will commit: before each statement of a transaction that has not written, the
  next of them takes effect. A transaction that has written commits or rolls back within the
  same handler step; its flush takes the locks of the unique indexes. The last field of a session
  keeps the committed rows from before the last step of the others; no operation reads it.
\<close>

section \<open>Models\<close>

type_synonym uid = "128 word"

datatype role = RoleUser | RoleAdmin

fun role_value :: "role \<Rightarrow> string" where
  "role_value RoleUser = ''user''"
| "role_value RoleAdmin = ''admin''"

record user =
  user_id :: uid
  email :: "string option"
  username :: string
  hashed_password :: string
  user_role :: role
  user_created_at :: int
  user_updated_at :: int

datatype database_type = DbTrino | DbPostgres
datatype pii_column = AccountId | CustomerId
datatype response_type = Paginated | Data

fun db_type_value :: "database_type \<Rightarrow> string" where
  "db_type_value DbTrino = ''trino''"
| "db_type_value DbPostgres = ''postgres''"

fun pii_column_value :: "pii_column \<Rightarrow> string" where
  "pii_column_value AccountId = ''account_id''"
| "pii_column_value CustomerId = ''customer_id''"

record dynamic_route =
  dr_id :: uid
  dr_prefix :: string
  dr_path :: string
  dr_description :: string
  dr_original_sql :: string
  dr_canonical_sql :: string
  dr_parameter_definitions :: row
  dr_db_type :: database_type
  dr_pii_type :: "pii_column option"
  dr_response_type :: response_type
  dr_created_by :: "uid option"
  dr_updated_by :: "uid option"
  dr_created_at :: int
  dr_updated_at :: int

definition dr_api_path :: "dynamic_route \<Rightarrow> string" where
  "dr_api_path r = ''/'' @ dr_prefix r @ ''/'' @ dr_path r"

record audit_log =
  al_id :: uid
  al_user_id :: "uid option"
  al_username :: "string option"
  al_api_route :: string
  al_parameters :: "row option"
  al_allowed :: bool
  al_error_message :: "string option"
  al_time_process_ms :: "int option"

record db =
  users :: "user list"
  routes :: "dynamic_route list"
  audit_logs :: "audit_log list"

section \<open>Constraints\<close>

definition some_values :: "'a option list \<Rightarrow> 'a list" where
  "some_values xs = map the (filter (\<lambda>x. x \<noteq> None) xs)"

definition users_ok :: "user list \<Rightarrow> bool" where
  "users_ok us \<longleftrightarrow> distinct (map user_id us) \<and> distinct (map username us) \<and> distinct (some_values (map email us))"

text \<open>The check constraints of \<open>dynamic_routes\<close>.\<close>

definition route_row_ok :: "dynamic_route \<Rightarrow> bool" where
  "route_row_ok r \<longleftrightarrow>
     dr_prefix r = py_lower (dr_prefix r) \<and> dr_path r \<noteq> [] \<and>
     \<not> startswith (dr_path r) ''/'' \<and> \<not> endswith (dr_path r) ''/'' \<and> \<not> contains_str ''//'' (dr_path r)"

definition route_key :: "dynamic_route \<Rightarrow> string \<times> string" where
  "route_key r = (dr_prefix r, dr_path r)"

definition routes_ok :: "dynamic_route list \<Rightarrow> bool" where
  "routes_ok rs \<longleftrightarrow> distinct (map dr_id rs) \<and> distinct (map route_key rs) \<and> list_all route_row_ok rs"

definition refers :: "uid set \<Rightarrow> uid option \<Rightarrow> bool" where
  "refers ids r = (case r of None \<Rightarrow> True | Some i \<Rightarrow> i \<in> ids)"

definition db_ok :: "db \<Rightarrow> bool" where
  "db_ok d \<longleftrightarrow> users_ok (users d) \<and> routes_ok (routes d) \<and> distinct (map al_id (audit_logs d)) \<and>
     list_all (\<lambda>r. refers (user_id ` set (users d)) (dr_created_by r) \<and>
                   refers (user_id ` set (users d)) (dr_updated_by r)) (routes d) \<and>
     list_all (\<lambda>a. refers (user_id ` set (users d)) (al_user_id a)) (audit_logs d)"

text \<open>The widths of the \<open>varchar\<close> columns, in code points.\<close>

definition within :: "nat \<Rightarrow> string option \<Rightarrow> bool" where
  "within n s = (case s of None \<Rightarrow> True | Some t \<Rightarrow> length t \<le> n)"

definition user_fits :: "user \<Rightarrow> bool" where
  "user_fits u \<longleftrightarrow> within 320 (email u) \<and> length (username u) \<le> 50 \<and> length (hashed_password u) \<le> 255"

definition route_fits :: "dynamic_route \<Rightarrow> bool" where
  "route_fits r \<longleftrightarrow> length (dr_prefix r) \<le> 50 \<and> length (dr_path r) \<le> 500"

definition audit_fits :: "audit_log \<Rightarrow> bool" where
  "audit_fits a \<longleftrightarrow> within 50 (al_username a) \<and> length (al_api_route a) \<le> 500"

section \<open>Sessions\<close>

record store =
  committed :: db
  working :: db
  dirty :: bool
  others :: "(db \<Rightarrow> db) list"
  now :: int
  seen :: db

type_synonym 'a dbp = "(store, exn, 'a) proc"

definition let_others :: "store \<Rightarrow> store" where
  "let_others s =
     (if dirty s then s
      else case others s of
          [] \<Rightarrow> s
        | f # fs \<Rightarrow> s\<lparr>committed := f (committed s), working := f (committed s), others := fs,
                        seen := committed s\<rparr>)"

definition select :: "(db \<Rightarrow> 'a) \<Rightarrow> 'a dbp" where
  "select q s = (let s' = let_others s in (Inr (q (working s')), s'))"

definition all_fit :: "db \<Rightarrow> bool" where
  "all_fit d \<longleftrightarrow> list_all user_fits (users d) \<and> list_all route_fits (routes d) \<and> list_all audit_fits (audit_logs d)"

text \<open>
  A flush applies its change when the row it addresses is there, every row fits its columns and
  the result satisfies the constraints; otherwise the statement fails and changes nothing.
\<close>

definition flush :: "(db \<Rightarrow> bool) \<Rightarrow> (db \<Rightarrow> db) \<Rightarrow> unit dbp" where
  "flush hit change s =
     (let s' = let_others s; d = change (working s') in
      if \<not> hit (working s') then (Inl (SqlaErr ''StaleDataError''), s')
      else if \<not> all_fit d then (Inl (SqlaErr ''DataError''), s')
      else if \<not> db_ok d then (Inl IntegrityErr, s')
      else (Inr (), s'\<lparr>working := d, dirty := True\<rparr>))"

definition commit :: "unit dbp" where
  "commit s = (Inr (), s\<lparr>committed := working s, dirty := False\<rparr>)"

definition rollback :: "unit dbp" where
  "rollback s = (Inr (), s\<lparr>working := committed s, dirty := False\<rparr>)"

text \<open>\<open>scalar_one_or_none\<close>\<close>

definition scalar_one_or_none :: "'r list \<Rightarrow> exn + 'r option" where
  "scalar_one_or_none rs = (case rs of [] \<Rightarrow> Inr None | [r] \<Rightarrow> Inr (Some r) | _ \<Rightarrow> Inl (SqlaErr ''MultipleResultsFound''))"

text \<open>\<open>refresh\<close> reads the row again; a row that is gone is an error.\<close>

definition refresh :: "(db \<Rightarrow> 'r option) \<Rightarrow> 'r dbp" where
  "refresh q = seq (select q) (\<lambda>r. case r of Some x \<Rightarrow> ret x | None \<Rightarrow> raise (SqlaErr ''InvalidRequestError''))"

text \<open>\<open>session.add\<close>, \<open>flush\<close> and \<open>refresh\<close> of a new row.\<close>

definition add_row :: "('r \<Rightarrow> db \<Rightarrow> db) \<Rightarrow> (uid \<Rightarrow> db \<Rightarrow> 'r option) \<Rightarrow> ('r \<Rightarrow> uid) \<Rightarrow> 'r \<Rightarrow> 'r dbp" where
  "add_row ins look key r = seq (flush (\<lambda>_. True) (ins r)) (\<lambda>_. refresh (look (key r)))"

section \<open>User repository\<close>

definition find_user :: "uid \<Rightarrow> db \<Rightarrow> user option" where
  "find_user i d = find (\<lambda>u. user_id u = i) (users d)"

definition users_where :: "(user \<Rightarrow> bool) \<Rightarrow> user option dbp" where
  "users_where P = seq (select (\<lambda>d. filter P (users d))) (\<lambda>rs. embed (scalar_one_or_none rs))"

definition get_user_by_id :: "uid \<Rightarrow> user option dbp" where
  "get_user_by_id i = users_where (\<lambda>u. user_id u = i)"

definition get_user_by_email :: "string \<Rightarrow> user option dbp" where
  "get_user_by_email e = users_where (\<lambda>u. email u = Some (py_lower e))"

definition get_user_by_username :: "string \<Rightarrow> user option dbp" where
  "get_user_by_username n = users_where (\<lambda>u. username u = py_lower n)"

text \<open>\<open>LIMIT 1\<close> takes the first row of the table that matches.\<close>

definition get_admin_user :: "user option dbp" where
  "get_admin_user =
     seq (select (\<lambda>d. page 1 0 (filter (\<lambda>u. user_role u = RoleAdmin) (users d))))
         (\<lambda>rs. embed (scalar_one_or_none rs))"

definition repo_list_users :: "nat \<Rightarrow> nat \<Rightarrow> user list dbp" where
  "repo_list_users limit offset = select (\<lambda>d. page limit offset (sort_key user_created_at (users d)))"

definition insert_user :: "user \<Rightarrow> db \<Rightarrow> db" where
  "insert_user u d = d\<lparr>users := users d @ [u]\<rparr>"

text \<open>A new object gets its time stamps from the server's clock.\<close>

definition create_user_row :: "user \<Rightarrow> user dbp" where
  "create_user_row u =
     seq (reads now) (\<lambda>t. let u' = u\<lparr>user_created_at := t, user_updated_at := t\<rparr> in
     add_row insert_user find_user user_id u')"

text \<open>The \<open>values\<close> of \<open>update\<close>: one assignment per attribute; \<open>None\<close> for a column that may not
  be null violates the constraint when it is flushed.\<close>

datatype user_value =
    SetEmail "string option"
  | SetUsername "string option"
  | SetHashedPassword string
  | SetRole "role option"

fun apply_value :: "user_value \<Rightarrow> user \<Rightarrow> user option" where
  "apply_value (SetEmail e) u = Some (u\<lparr>email := e\<rparr>)"
| "apply_value (SetUsername n) u = map_option (\<lambda>m. u\<lparr>username := m\<rparr>) n"
| "apply_value (SetHashedPassword h) u = Some (u\<lparr>hashed_password := h\<rparr>)"
| "apply_value (SetRole r) u = map_option (\<lambda>q. u\<lparr>user_role := q\<rparr>) r"

fun apply_values :: "user_value list \<Rightarrow> user \<Rightarrow> user option" where
  "apply_values [] u = Some u"
| "apply_values (v # vs) u = Option.bind (apply_value v u) (apply_values vs)"

text \<open>The attributes that differ from the loaded object are the columns of the UPDATE.\<close>

definition changes_user :: "user \<Rightarrow> user_value \<Rightarrow> bool" where
  "changes_user u v \<longleftrightarrow> apply_value v u \<noteq> Some u"

definition replace_row :: "('r \<Rightarrow> bool) \<Rightarrow> ('r \<Rightarrow> 'r) \<Rightarrow> 'r list \<Rightarrow> 'r list" where
  "replace_row P f rs = map (\<lambda>r. if P r then f r else r) rs"

definition update_user_row :: "user \<Rightarrow> user_value list \<Rightarrow> user dbp" where
  "update_user_row u vs =
     (let cs = filter (changes_user u) vs in
      seq (if cs = [] then ret ()
           else if apply_values cs u = None
           then seq (select (\<lambda>d. ())) (\<lambda>_. raise IntegrityErr)
           else seq (reads now) (\<lambda>t.
                flush (\<lambda>d. find_user (user_id u) d \<noteq> None)
                  (\<lambda>d. d\<lparr>users := replace_row (\<lambda>r. user_id r = user_id u)
                    (\<lambda>r. (the (apply_values cs r))\<lparr>user_updated_at := t\<rparr>) (users d)\<rparr>)))
          (\<lambda>_. refresh (find_user (user_id u))))"

text \<open>Deleting a user sets the references to it to null (\<open>ON DELETE SET NULL\<close>).\<close>

definition unref :: "uid \<Rightarrow> uid option \<Rightarrow> uid option" where
  "unref i r = (if r = Some i then None else r)"

definition delete_user_from :: "uid \<Rightarrow> db \<Rightarrow> db" where
  "delete_user_from i d =
     \<lparr>users = filter (\<lambda>u. user_id u \<noteq> i) (users d),
      routes = map (\<lambda>r. r\<lparr>dr_created_by := unref i (dr_created_by r),
                           dr_updated_by := unref i (dr_updated_by r)\<rparr>) (routes d),
      audit_logs = map (\<lambda>a. a\<lparr>al_user_id := unref i (al_user_id a)\<rparr>) (audit_logs d)\<rparr>"

definition delete_user_row :: "user \<Rightarrow> unit dbp" where
  "delete_user_row u = flush (\<lambda>_. True) (delete_user_from (user_id u))"

section \<open>Dynamic route repository\<close>

definition find_route :: "uid \<Rightarrow> db \<Rightarrow> dynamic_route option" where
  "find_route i d = find (\<lambda>r. dr_id r = i) (routes d)"

definition get_route_by_id :: "uid \<Rightarrow> dynamic_route option dbp" where
  "get_route_by_id i =
     seq (select (\<lambda>d. filter (\<lambda>r. dr_id r = i) (routes d))) (\<lambda>rs. embed (scalar_one_or_none rs))"

definition get_by_route :: "string \<Rightarrow> string \<Rightarrow> dynamic_route option dbp" where
  "get_by_route pre path =
     seq (select (\<lambda>d. filter (\<lambda>r. dr_prefix r = pre \<and> dr_path r = path) (routes d)))
         (\<lambda>rs. embed (scalar_one_or_none rs))"

definition list_all_routes :: "dynamic_route list dbp" where
  "list_all_routes = select (\<lambda>d. sort_key dr_prefix (sort_key dr_path (routes d)))"

definition insert_route :: "dynamic_route \<Rightarrow> db \<Rightarrow> db" where
  "insert_route r d = d\<lparr>routes := routes d @ [r]\<rparr>"

definition create_route_row :: "dynamic_route \<Rightarrow> dynamic_route dbp" where
  "create_route_row r =
     seq (reads now) (\<lambda>t. let r' = r\<lparr>dr_created_at := t, dr_updated_at := t\<rparr> in
     add_row insert_route find_route dr_id r')"

text \<open>
  \<open>update\<close> flushes what the service assigned to the loaded object \<open>old\<close>: the assignments
  that change it are the columns of the UPDATE, and without any no statement is sent. Parameter
  definitions that differ in the order of their keys only count as changed here; SQLAlchemy
  finds them equal and leaves the column out.
\<close>

type_synonym route_assignment = "dynamic_route \<Rightarrow> dynamic_route"

definition update_route_row :: "dynamic_route \<Rightarrow> route_assignment list \<Rightarrow> dynamic_route dbp" where
  "update_route_row old gs =
     (let cs = filter (\<lambda>g. g old \<noteq> old) gs in
      seq (if cs = [] then ret ()
           else seq (reads now) (\<lambda>t.
                flush (\<lambda>d. find_route (dr_id old) d \<noteq> None)
                  (\<lambda>d. d\<lparr>routes := replace_row (\<lambda>r. dr_id r = dr_id old)
                    (\<lambda>r. (fold (\<lambda>g. g) cs r)\<lparr>dr_updated_at := t\<rparr>) (routes d)\<rparr>)))
          (\<lambda>_. refresh (find_route (dr_id old))))"

definition delete_route_row :: "dynamic_route \<Rightarrow> unit dbp" where
  "delete_route_row r = flush (\<lambda>_. True) (\<lambda>d. d\<lparr>routes := filter (\<lambda>q. dr_id q \<noteq> dr_id r) (routes d)\<rparr>)"

section \<open>Audit log repository\<close>

definition find_audit :: "uid \<Rightarrow> db \<Rightarrow> audit_log option" where
  "find_audit i d = find (\<lambda>a. al_id a = i) (audit_logs d)"

definition insert_audit :: "audit_log \<Rightarrow> db \<Rightarrow> db" where
  "insert_audit a d = d\<lparr>audit_logs := audit_logs d @ [a]\<rparr>"

definition create_audit_row :: "audit_log \<Rightarrow> audit_log dbp" where
  "create_audit_row a = add_row insert_audit find_audit al_id a"

section \<open>Request sessions\<close>

text \<open>\<open>get_session\<close>: an exception rolls the session back, and closing it drops what was not
  committed.\<close>

definition close_session :: "store \<Rightarrow> store" where
  "close_session s = s\<lparr>working := committed s, dirty := False\<rparr>"

definition with_session :: "'a dbp \<Rightarrow> 'a dbp" where
  "with_session m s =
     (case handle m (\<lambda>e. seq rollback (\<lambda>_. raise e)) s of (r, s') \<Rightarrow> (r, close_session s'))"

section \<open>The invariant of a session\<close>

definition good_db :: "db \<Rightarrow> bool" where
  "good_db d \<longleftrightarrow> db_ok d \<and> all_fit d"

definition store_ok :: "store \<Rightarrow> bool" where
  "store_ok s \<longleftrightarrow> good_db (committed s) \<and> good_db (working s) \<and> (\<not> dirty s \<longrightarrow> working s = committed s) \<and>
     (\<forall>f \<in> set (others s). \<forall>d. good_db d \<longrightarrow> good_db (f d))"

lemma store_ok_let_others: "store_ok s \<Longrightarrow> store_ok (let_others s)"
  by (auto simp: store_ok_def let_others_def split: list.splits)

lemma let_others_dirty [simp]: "dirty s \<Longrightarrow> let_others s = s"
  by (simp add: let_others_def)

lemma let_others_quiet [simp]: "others s = [] \<Longrightarrow> let_others s = s"
  by (simp add: let_others_def)

lemma keeps_select [keeps_intros]: "keeps store_ok (select q)"
  by (simp add: keeps_def select_def Let_def store_ok_let_others)

lemma keeps_flush [keeps_intros]: "keeps store_ok (flush hit change)"
proof (rule keepsI)
  fix s assume "store_ok s"
  then have "store_ok (let_others s)" by (rule store_ok_let_others)
  then show "store_ok (snd (flush hit change s))"
    by (auto simp: flush_def Let_def store_ok_def good_db_def)
qed

lemma keeps_commit [keeps_intros]: "keeps store_ok commit"
  by (simp add: keeps_def commit_def store_ok_def)

lemma keeps_rollback [keeps_intros]: "keeps store_ok rollback"
  by (simp add: keeps_def rollback_def store_ok_def)

lemma keeps_refresh [keeps_intros]: "keeps store_ok (refresh q)"
  unfolding refresh_def by (intro keeps_intros)

lemma keeps_add_row [keeps_intros]: "keeps store_ok (add_row ins look key r)"
  unfolding add_row_def by (intro keeps_intros)

lemma keeps_users_where [keeps_intros]: "keeps store_ok (users_where P)"
  unfolding users_where_def by (intro keeps_intros)

lemma keeps_user_repository [keeps_intros]:
  "keeps store_ok (get_user_by_id i)" "keeps store_ok (get_user_by_email e)"
  "keeps store_ok (get_user_by_username n)" "keeps store_ok get_admin_user"
  "keeps store_ok (repo_list_users limit offset)" "keeps store_ok (create_user_row u)"
  "keeps store_ok (update_user_row u vs)" "keeps store_ok (delete_user_row u)"
  unfolding get_user_by_id_def get_user_by_email_def get_user_by_username_def get_admin_user_def
    repo_list_users_def create_user_row_def update_user_row_def delete_user_row_def
  by (intro keeps_intros)+

lemma keeps_route_repository [keeps_intros]:
  "keeps store_ok (get_route_by_id i)" "keeps store_ok (get_by_route p q)"
  "keeps store_ok list_all_routes" "keeps store_ok (create_route_row r)"
  "keeps store_ok (update_route_row r gs)" "keeps store_ok (delete_route_row r)"
  "keeps store_ok (create_audit_row a)"
  unfolding get_route_by_id_def get_by_route_def list_all_routes_def create_route_row_def
    update_route_row_def delete_route_row_def create_audit_row_def
  by (intro keeps_intros)+

section \<open>The unit of work\<close>

text \<open>
  The protocol \<open>UnitOfWork\<close>: a commit makes durable what the transaction sees, a rollback takes
  it back to what is durable. A service that commits at the end of its work and rolls back when
  the work raises is then atomic.
\<close>

definition atomically ::
  "('s, 'e, unit) proc \<Rightarrow> ('s, 'e, unit) proc \<Rightarrow> ('s, 'e, 'a) proc \<Rightarrow> ('e \<Rightarrow> 'e) \<Rightarrow> ('s, 'e, 'a) proc" where
  "atomically do_commit do_rollback m err =
     handle (seq m (\<lambda>x. seq do_commit (\<lambda>_. ret x))) (\<lambda>e. seq do_rollback (\<lambda>_. raise (err e)))"

locale unit_of_work =
  fixes do_commit :: "('s, 'e, unit) proc"
    and do_rollback :: "('s, 'e, unit) proc"
    and durable :: "'s \<Rightarrow> 'd"
    and visible :: "'s \<Rightarrow> 'd"
  assumes commit_durable: "\<exists>t. do_commit s = (Inr (), t) \<and> durable t = visible s \<and> visible t = visible s"
    and rollback_durable: "\<exists>t. do_rollback s = (Inr (), t) \<and> durable t = durable s \<and> visible t = durable s"
begin

lemma atomically_ok:
  assumes "m s = (Inr x, s')"
  shows "\<exists>t. atomically do_commit do_rollback m err s = (Inr x, t) \<and> durable t = visible s' \<and> visible t = visible s'"
  using commit_durable [of s'] assms by (auto simp: atomically_def handle_def seq_def)

lemma atomically_error:
  assumes "m s = (Inl e, s')"
  shows "\<exists>t. atomically do_commit do_rollback m err s = (Inl (err e), t) \<and> durable t = durable s' \<and> visible t = durable s'"
  using rollback_durable [of s'] assms by (auto simp: atomically_def handle_def seq_def)

end

interpretation uow: unit_of_work commit rollback committed working
  by unfold_locales (simp_all add: commit_def rollback_def)

section \<open>Look-ups by a unique key\<close>

text \<open>
  The query methods of the repositories share a contract: they select the rows that match a key
  and take the one or none; the constraints of the table make the key unique.
\<close>

lemma distinct_set_single: "set xs = {x} \<Longrightarrow> distinct xs \<Longrightarrow> xs = [x]"
  by (cases xs; cases "tl xs") auto

lemma find_Some_D: "find P xs = Some x \<Longrightarrow> x \<in> set xs \<and> P x"
  by (auto simp: find_Some_iff)

lemma distinct_of_map: "distinct (map f xs) \<Longrightarrow> distinct xs"
  by (simp add: distinct_map)

locale unique_lookup =
  fixes lookup :: "'k \<Rightarrow> 'r option dbp"
    and rows :: "db \<Rightarrow> 'r list"
    and matches :: "'k \<Rightarrow> 'r \<Rightarrow> bool"
  assumes lookup_select: "lookup k = seq (select (\<lambda>d. filter (matches k) (rows d))) (\<lambda>rs. embed (scalar_one_or_none rs))"
    and rows_distinct: "db_ok d \<Longrightarrow> distinct (rows d)"
    and match_unique: "db_ok d \<Longrightarrow> r \<in> set (rows d) \<Longrightarrow> r' \<in> set (rows d) \<Longrightarrow> matches k r \<Longrightarrow> matches k r' \<Longrightarrow> r = r'"
begin

lemma filter_find: "db_ok d \<Longrightarrow> filter (matches k) (rows d) = (case find (matches k) (rows d) of None \<Rightarrow> [] | Some r \<Rightarrow> [r])"
proof -
  assume ok: "db_ok d"
  show ?thesis
  proof (cases "find (matches k) (rows d)")
    case None
    then have "filter (matches k) (rows d) = []" by (simp add: find_None_iff filter_empty_conv)
    with None show ?thesis by simp
  next
    case (Some r)
    then have r: "r \<in> set (rows d)" "matches k r" by (auto simp: find_Some_iff)
    then have "set (filter (matches k) (rows d)) = {r}" using match_unique [OF ok] by auto
    moreover have "distinct (filter (matches k) (rows d))" using rows_distinct [OF ok] by simp
    ultimately have "filter (matches k) (rows d) = [r]" by (rule distinct_set_single)
    with Some show ?thesis by simp
  qed
qed

lemma lookup_find:
  "store_ok s \<Longrightarrow> lookup k s = (Inr (find (matches k) (rows (working (let_others s)))), let_others s)"
  using store_ok_let_others [of s] filter_find [of "working (let_others s)" k]
  by (simp add: lookup_select seq_def select_def Let_def scalar_one_or_none_def store_ok_def good_db_def
      split: option.splits)

end

lemma distinct_map_key: "distinct (map f xs) \<Longrightarrow> x \<in> set xs \<Longrightarrow> y \<in> set xs \<Longrightarrow> f x = f y \<Longrightarrow> x = y"
  by (simp add: distinct_map inj_on_def)

lemma some_values_Cons [simp]:
  "some_values (None # xs) = some_values xs" "some_values (Some x # xs) = x # some_values xs"
  by (simp_all add: some_values_def)

lemma some_values_Nil [simp]: "some_values [] = []"
  by (simp add: some_values_def)

lemma set_some_values: "x \<in> set (some_values xs) \<longleftrightarrow> Some x \<in> set xs"
  by (induction xs) (auto simp: some_values_def)

lemma distinct_some_values_key:
  "distinct (some_values (map f xs)) \<Longrightarrow> x \<in> set xs \<Longrightarrow> y \<in> set xs \<Longrightarrow> f x = Some k \<Longrightarrow> f y = Some k \<Longrightarrow> x = y"
proof (induction xs)
  case (Cons z xs)
  show ?case
  proof (cases "f z")
    case None
    with Cons show ?thesis by auto
  next
    case (Some m)
    with Cons.prems(1) have "m \<notin> set (some_values (map f xs))" "distinct (some_values (map f xs))" by simp_all
    then have "f w \<noteq> Some m" if "w \<in> set xs" for w
      using that by (auto simp: set_some_values) (metis rev_image_eqI)
    with Cons Some show ?thesis by auto
  qed
qed simp

lemmas db_ok_defs = db_ok_def users_ok_def routes_ok_def

interpretation user_by_id: unique_lookup get_user_by_id users "\<lambda>i u. user_id u = i"
  by unfold_locales
     (auto simp: get_user_by_id_def users_where_def db_ok_defs dest: distinct_of_map distinct_map_key)

interpretation user_by_email: unique_lookup get_user_by_email users "\<lambda>e u. email u = Some (py_lower e)"
  by unfold_locales
     (auto simp: get_user_by_email_def users_where_def db_ok_defs dest: distinct_of_map distinct_some_values_key)

interpretation user_by_username: unique_lookup get_user_by_username users "\<lambda>n u. username u = py_lower n"
  by unfold_locales
     (auto simp: get_user_by_username_def users_where_def db_ok_defs dest: distinct_of_map
        dest: distinct_map_key [of username])

interpretation route_by_id: unique_lookup get_route_by_id routes "\<lambda>i r. dr_id r = i"
  by unfold_locales
     (auto simp: get_route_by_id_def db_ok_defs dest: distinct_of_map distinct_map_key)

interpretation route_by_key: unique_lookup "\<lambda>(p, q). get_by_route p q" routes "\<lambda>(p, q) r. dr_prefix r = p \<and> dr_path r = q"
  by unfold_locales
     (auto simp: get_by_route_def db_ok_defs route_key_def dest: distinct_of_map
        intro: distinct_map_key [of route_key])

section \<open>Insertion\<close>

locale row_insert =
  fixes ins :: "'r \<Rightarrow> db \<Rightarrow> db"
    and look :: "uid \<Rightarrow> db \<Rightarrow> 'r option"
    and key :: "'r \<Rightarrow> uid"
  assumes look_ins: "db_ok (ins r d) \<Longrightarrow> look (key r) (ins r d) = Some r"
begin

lemma add_row_eq:
  "add_row ins look key r s =
     (let s' = let_others s; d = ins r (working s') in
      if \<not> all_fit d then (Inl (SqlaErr ''DataError''), s')
      else if \<not> db_ok d then (Inl IntegrityErr, s')
      else (Inr r, s'\<lparr>working := d, dirty := True\<rparr>))"
  using look_ins [of r "working (let_others s)"]
  by (simp add: add_row_def refresh_def seq_def flush_def select_def Let_def)

lemma add_row_InrE:
  assumes "add_row ins look key r s = (Inr x, t)"
  obtains "x = r" "t = (let_others s)\<lparr>working := ins r (working (let_others s)), dirty := True\<rparr>"
    "good_db (ins r (working (let_others s)))"
  using assms by (auto simp: add_row_eq Let_def good_db_def split: if_splits)

lemma add_row_InlE:
  assumes "add_row ins look key r s = (Inl e, t)"
  obtains "t = let_others s" "e = IntegrityErr" "\<not> db_ok (ins r (working (let_others s)))"
    | "t = let_others s" "e = SqlaErr ''DataError''" "\<not> all_fit (ins r (working (let_others s)))"
  using assms by (auto simp: add_row_eq Let_def split: if_splits)

end

lemma find_append_new: "key x \<notin> key ` set xs \<Longrightarrow> find (\<lambda>y. key y = key x) (xs @ [x]) = Some x"
  by (induction xs) auto

interpretation user_insert: row_insert insert_user find_user user_id
  by unfold_locales (auto simp: find_user_def insert_user_def db_ok_defs intro!: find_append_new)

interpretation route_insert: row_insert insert_route find_route dr_id
  by unfold_locales (auto simp: find_route_def insert_route_def db_ok_defs intro!: find_append_new)

interpretation audit_insert: row_insert insert_audit find_audit al_id
  by unfold_locales (auto simp: find_audit_def insert_audit_def db_ok_defs intro!: find_append_new)

end
