(* ===== verification/Security.thy ===== *)
theory Security
  imports Config
begin

text \<open>
  Passwords and tokens (\<open>app/core/security.py\<close>). SHA-256 and base64 of the standard library are
  written out on 32-bit words; bcrypt and PyJWT are the fields of a record the definitions
  take. Textual UUIDs, which tokens carry as their subject, are printed and parsed as Python
  does. The clock is in whole seconds, the precision of a token's dates.
\<close>

section \<open>SHA-256\<close>

type_synonym word32 = "32 word"

definition sha256_k :: "word32 list" where
  "sha256_k =
     [0x428A2F98, 0x71374491, 0xB5C0FBCF, 0xE9B5DBA5, 0x3956C25B, 0x59F111F1, 0x923F82A4, 0xAB1C5ED5,
      0xD807AA98, 0x12835B01, 0x243185BE, 0x550C7DC3, 0x72BE5D74, 0x80DEB1FE, 0x9BDC06A7, 0xC19BF174,
      0xE49B69C1, 0xEFBE4786, 0x0FC19DC6, 0x240CA1CC, 0x2DE92C6F, 0x4A7484AA, 0x5CB0A9DC, 0x76F988DA,
      0x983E5152, 0xA831C66D, 0xB00327C8, 0xBF597FC7, 0xC6E00BF3, 0xD5A79147, 0x06CA6351, 0x14292967,
      0x27B70A85, 0x2E1B2138, 0x4D2C6DFC, 0x53380D13, 0x650A7354, 0x766A0ABB, 0x81C2C92E, 0x92722C85,
      0xA2BFE8A1, 0xA81A664B, 0xC24B8B70, 0xC76C51A3, 0xD192E819, 0xD6990624, 0xF40E3585, 0x106AA070,
      0x19A4C116, 0x1E376C08, 0x2748774C, 0x34B0BCB5, 0x391C0CB3, 0x4ED8AA4A, 0x5B9CCA4F, 0x682E6FF3,
      0x748F82EE, 0x78A5636F, 0x84C87814, 0x8CC70208, 0x90BEFFFA, 0xA4506CEB, 0xBEF9A3F7, 0xC67178F2]"

definition sha256_init :: "word32 list" where
  "sha256_init =
     [0x6A09E667, 0xBB67AE85, 0x3C6EF372, 0xA54FF53A, 0x510E527F, 0x9B05688C, 0x1F83D9AB, 0x5BE0CD19]"

definition be_bytes :: "nat \<Rightarrow> nat \<Rightarrow> string" where
  "be_bytes n x = map (\<lambda>i. char_of (x div 256 ^ i mod 256)) (rev [0..<n])"

definition be_value :: "string \<Rightarrow> nat" where
  "be_value bs = foldl (\<lambda>a c. 256 * a + ord c) 0 bs"

definition sha256_pad :: "string \<Rightarrow> string" where
  "sha256_pad msg =
     msg @ [char_of (128 :: nat)] @ replicate (nat ((55 - int (length msg)) mod 64)) (char_of (0 :: nat)) @
     be_bytes 8 (8 * length msg)"

function chunks :: "nat \<Rightarrow> 'a list \<Rightarrow> 'a list list" where
  "chunks n xs = (if n = 0 \<or> xs = [] then [] else take n xs # chunks n (drop n xs))"
  by auto
termination by (relation "measure (\<lambda>(n, xs). length xs)") auto

declare chunks.simps [simp del]

unbundle bit_operations_syntax

fun sha256_extend :: "nat \<Rightarrow> word32 list \<Rightarrow> word32 list" where
  "sha256_extend 0 ws = ws"
| "sha256_extend (Suc n) ws =
     (let i = length ws;
          a = ws ! (i - 15); b = ws ! (i - 2);
          s0 = word_rotr 7 a XOR word_rotr 18 a XOR drop_bit 3 a;
          s1 = word_rotr 17 b XOR word_rotr 19 b XOR drop_bit 10 b
      in sha256_extend n (ws @ [ws ! (i - 16) + s0 + ws ! (i - 7) + s1]))"

fun sha256_round :: "word32 list \<Rightarrow> word32 \<times> word32 \<Rightarrow> word32 list" where
  "sha256_round [a, b, c, d, e, f, g, h] (k, w) =
     (let s1 = word_rotr 6 e XOR word_rotr 11 e XOR word_rotr 25 e;
          ch = (e AND f) XOR (NOT e AND g);
          t1 = h + s1 + ch + k + w;
          s0 = word_rotr 2 a XOR word_rotr 13 a XOR word_rotr 22 a;
          maj = (a AND b) XOR (a AND c) XOR (b AND c);
          t2 = s0 + maj
      in [t1 + t2, a, b, c, d + t1, e, f, g])"
| "sha256_round s _ = s"

definition sha256_block :: "word32 list \<Rightarrow> string \<Rightarrow> word32 list" where
  "sha256_block st blk =
     (let ws = sha256_extend 48 (map (\<lambda>bs. of_nat (be_value bs)) (chunks 4 blk))
      in map2 (+) st (foldl sha256_round st (zip sha256_k ws)))"

definition sha256 :: "string \<Rightarrow> string" where
  "sha256 msg =
     concat (map (\<lambda>w. be_bytes 4 (unat w)) (foldl sha256_block sha256_init (chunks 64 (sha256_pad msg))))"

section \<open>Base 64\<close>

definition b64_char :: "nat \<Rightarrow> char" where
  "b64_char n =
     (if n < 26 then char_of (65 + n) else if n < 52 then char_of (71 + n)
      else if n < 62 then digit_char (n - 52) else if n = 62 then CHR ''+'' else CHR ''/'')"

definition b64_group :: "string \<Rightarrow> string" where
  "b64_group bs =
     (let v = be_value (bs @ replicate (3 - length bs) (char_of (0 :: nat)));
          cs = map (\<lambda>i. b64_char (v div 64 ^ i mod 64)) [3, 2, 1, 0]
      in take (Suc (length bs)) cs @ replicate (3 - length bs) (CHR ''=''))"

definition b64encode :: "string \<Rightarrow> string" where
  "b64encode bs = concat (map b64_group (chunks 3 bs))"

section \<open>Passwords\<close>

text \<open>
  bcrypt: \<open>gensalt\<close> takes the randomness it draws, \<open>checkpw\<close> raises for a text that is no hash.
  PyJWT: \<open>decode\<close> checks the signature and the dates against the clock.
\<close>

record crypto =
  bcrypt_gensalt :: "nat \<Rightarrow> int \<Rightarrow> exn + string"
  bcrypt_hashpw :: "string \<Rightarrow> string \<Rightarrow> exn + string"
  bcrypt_checkpw :: "string \<Rightarrow> string \<Rightarrow> exn + bool"
  jwt_encode :: "row \<Rightarrow> string \<Rightarrow> string \<Rightarrow> string"
  jwt_decode :: "int \<Rightarrow> string \<Rightarrow> string \<Rightarrow> string list \<Rightarrow> row option"

definition prepare_password :: "string \<Rightarrow> string" where
  "prepare_password password = b64encode (sha256 (utf8 password))"

definition hash_password :: "crypto \<Rightarrow> nat \<Rightarrow> string \<Rightarrow> int \<Rightarrow> exn + string" where
  "hash_password cr seed password rounds =
     rbind (bcrypt_gensalt cr seed rounds) (\<lambda>salt. bcrypt_hashpw cr (prepare_password password) salt)"

definition verify_password :: "crypto \<Rightarrow> string \<Rightarrow> string \<Rightarrow> exn + bool" where
  "verify_password cr plain_password hashed =
     bcrypt_checkpw cr (prepare_password plain_password) (utf8 hashed)"

section \<open>Tokens\<close>

datatype token_type = Access | Refresh

fun token_type_value :: "token_type \<Rightarrow> string" where
  "token_type_value Access = ''access''"
| "token_type_value Refresh = ''refresh''"

text \<open>\<open>payload.update(extra_claims)\<close> of an empty dictionary changes nothing either.\<close>

definition token_payload :: "int \<Rightarrow> string \<Rightarrow> string \<Rightarrow> token_type \<Rightarrow> int \<Rightarrow> row \<Rightarrow> row" where
  "token_payload t jti subject ty expires_delta extra_claims =
     fold (\<lambda>(k, v). dput k v) extra_claims
       [(''sub'', PStr subject), (''iat'', PInt t), (''nbf'', PInt t), (''exp'', PInt (t + expires_delta)),
        (''jti'', PStr jti), (''typ'', PStr (token_type_value ty))]"

definition create_token ::
  "crypto \<Rightarrow> settings \<Rightarrow> int \<Rightarrow> string \<Rightarrow> string \<Rightarrow> token_type \<Rightarrow> int \<Rightarrow> row \<Rightarrow> string" where
  "create_token cr st t jti subject ty expires_delta extra_claims =
     jwt_encode cr (token_payload t jti subject ty expires_delta extra_claims)
       (jwt_secret_key st) (jwt_algorithm st)"

definition create_access_token :: "crypto \<Rightarrow> settings \<Rightarrow> int \<Rightarrow> string \<Rightarrow> string \<Rightarrow> row \<Rightarrow> string" where
  "create_access_token cr st t jti subject extra_claims =
     create_token cr st t jti subject Access (60 * access_token_expire_minutes st) extra_claims"

definition create_refresh_token :: "crypto \<Rightarrow> settings \<Rightarrow> int \<Rightarrow> string \<Rightarrow> string \<Rightarrow> row \<Rightarrow> string" where
  "create_refresh_token cr st t jti subject extra_claims =
     create_token cr st t jti subject Refresh (60 * refresh_token_expire_minutes st) extra_claims"

definition decode_token :: "crypto \<Rightarrow> settings \<Rightarrow> int \<Rightarrow> string \<Rightarrow> token_type \<Rightarrow> exn + row" where
  "decode_token cr st t tok expected_type =
     (case jwt_decode cr t tok (jwt_secret_key st) [jwt_algorithm st] of
        None \<Rightarrow> Inl (authentication_error ''Invalid or expired token'')
      | Some payload \<Rightarrow>
          if dget payload ''typ'' \<noteq> Some (PStr (token_type_value expected_type))
          then Inl (authentication_error ''Invalid token type'')
          else Inr payload)"

section \<open>UUIDs\<close>

fun py_replace :: "string \<Rightarrow> string \<Rightarrow> string" where
  \<comment> \<open>\<open>s.replace(old, "")\<close> for a non-empty \<open>old\<close>\<close>
  "py_replace old [] = []"
| "py_replace old (c # cs) =
     (if old \<noteq> [] \<and> startswith (c # cs) old then py_replace old (drop (length old - 1) cs)
      else c # py_replace old cs)"

definition strip_chars :: "char set \<Rightarrow> string \<Rightarrow> string" where
  "strip_chars A s = rev (dropWhile (\<lambda>c. c \<in> A) (rev (dropWhile (\<lambda>c. c \<in> A) s)))"

definition hex_value :: "char \<Rightarrow> nat option" where
  "hex_value c =
     (if 48 \<le> ord c \<and> ord c \<le> 57 then Some (ord c - 48)
      else if 97 \<le> ord c \<and> ord c \<le> 102 then Some (ord c - 87)
      else if 65 \<le> ord c \<and> ord c \<le> 70 then Some (ord c - 55) else None)"

fun und_hex :: "nat \<Rightarrow> string \<Rightarrow> nat option" where
  "und_hex a [] = None"
| "und_hex a [c] = map_option (\<lambda>d. 16 * a + d) (hex_value c)"
| "und_hex a (c # d # cs) =
     (case hex_value c of None \<Rightarrow> None
      | Some v \<Rightarrow> und_hex (16 * a + v) (if d = CHR ''_'' then cs else d # cs))"

text \<open>\<open>int(s, 16)\<close>\<close>

definition py_int_base16 :: "string \<Rightarrow> int option" where
  "py_int_base16 s =
     (case split_sign (num_strip s) of (neg, u) \<Rightarrow>
        let v = (if startswith (py_lower u) ''0x''
                 then (case drop 2 u of c # cs \<Rightarrow> if c = CHR ''_'' then cs else c # cs | [] \<Rightarrow> [])
                 else u)
        in map_option (with_sign neg) (und_hex 0 v))"

definition parse_uuid :: "string \<Rightarrow> uid option" where
  "parse_uuid s =
     (let h = py_replace ''-'' (strip_chars {CHR 0x7B, CHR 0x7D} (py_replace ''uuid:'' (py_replace ''urn:'' s)))
      in if length h \<noteq> 32 then None
         else (case py_int_base16 h of
                 None \<Rightarrow> None
               | Some i \<Rightarrow> if 0 \<le> i \<and> i < 2 ^ 128 then Some (word_of_int i) else None))"

definition hex_digits :: "nat \<Rightarrow> nat \<Rightarrow> string" where
  "hex_digits n x = map (\<lambda>i. hex_digit (x div 16 ^ i mod 16)) (rev [0..<n])"

definition uuid_str :: "uid \<Rightarrow> string" where
  "uuid_str u =
     (let h = hex_digits 32 (unat u)
      in take 8 h @ ''-'' @ take 4 (drop 8 h) @ ''-'' @ take 4 (drop 12 h) @ ''-'' @
         take 4 (drop 16 h) @ ''-'' @ drop 20 h)"

section \<open>Facts about digests\<close>

lemma length_be_bytes [simp]: "length (be_bytes n x) = n"
  by (simp add: be_bytes_def)

lemma length_sha256_round: "length (sha256_round st kw) = length st"
  by (cases "(st, kw)" rule: sha256_round.cases) (simp_all add: Let_def)

lemma length_foldl_round: "length (foldl sha256_round st kws) = length st"
  by (induction kws arbitrary: st) (simp_all add: length_sha256_round)

lemma length_sha256_block: "length (sha256_block st blk) = length st"
  by (simp add: sha256_block_def length_foldl_round)

lemma length_foldl_block: "length (foldl sha256_block st blks) = length st"
  by (induction blks arbitrary: st) (simp_all add: length_sha256_block)

lemma length_sha256 [simp]: "length (sha256 msg) = 32"
  by (simp add: sha256_def length_concat comp_def sum_list_triv length_foldl_block sha256_init_def)

lemma chunks_Cons: "n \<noteq> 0 \<Longrightarrow> xs \<noteq> [] \<Longrightarrow> chunks n xs = take n xs # chunks n (drop n xs)"
  by (subst chunks.simps) simp

lemma chunks_Nil [simp]: "chunks n [] = []"
  by (subst chunks.simps) simp

lemma concat_chunks: "0 < n \<Longrightarrow> concat (chunks n xs) = xs"
proof (induction n xs rule: chunks.induct)
  case (1 n xs)
  show ?case
  proof (cases "xs = []")
    case False
    with 1 show ?thesis by (simp add: chunks_Cons)
  qed simp
qed

lemma chunks_lengths: "w \<in> set (chunks n xs) \<Longrightarrow> 0 < length w \<and> length w \<le> n"
proof (induction n xs rule: chunks.induct)
  case (1 n xs)
  show ?case
  proof (cases "n = 0 \<or> xs = []")
    case True
    with 1(2) show ?thesis by (subst (asm) chunks.simps) simp
  next
    case False
    with 1(2) have "w = take n xs \<or> w \<in> set (chunks n (drop n xs))" by (simp add: chunks_Cons)
    with 1(1) False show ?thesis by auto
  qed
qed

lemma length_chunks_3: "length (chunks 3 xs) = (length xs + 2) div 3"
proof (induction "length xs" arbitrary: xs rule: less_induct)
  case less
  show ?case
  proof (cases "xs = []")
    case False
    then have "length (drop 3 xs) < length xs" "0 < length xs" by auto
    with less [of "drop 3 xs"] False have "length (chunks 3 xs) = Suc ((length xs - 3 + 2) div 3)"
      by (simp add: chunks_Cons)
    moreover have "Suc ((n - 3 + 2) div 3) = (n + 2) div 3" if "0 < n" for n :: nat
    proof (cases "3 \<le> n")
      case True
      then obtain k where "n = k + 3" by (metis le_Suc_ex add.commute)
      moreover have "(k + 2 + 3) div 3 = Suc ((k + 2) div 3)" by simp
      ultimately show ?thesis by (simp add: algebra_simps)
    next
      case False
      with that have "n = 1 \<or> n = 2" by auto
      then show ?thesis by auto
    qed
    ultimately show ?thesis using \<open>0 < length xs\<close> by simp
  qed simp
qed

lemma length_b64_group: "0 < length bs \<Longrightarrow> length bs \<le> 3 \<Longrightarrow> length (b64_group bs) = 4"
  by (simp add: b64_group_def Let_def)

lemma length_b64encode: "length (b64encode bs) = 4 * ((length bs + 2) div 3)"
proof -
  have "map (length \<circ> b64_group) (chunks 3 bs) = map (\<lambda>_. 4) (chunks 3 bs)"
    using chunks_lengths [of _ 3 bs] length_b64_group by simp
  then have "sum_list (map (length \<circ> b64_group) (chunks 3 bs)) = sum_list (map (\<lambda>_. 4) (chunks 3 bs))"
    by (rule arg_cong)
  then have "length (b64encode bs) = 4 * length (chunks 3 bs)"
    by (simp add: b64encode_def length_concat sum_list_triv)
  then show ?thesis by (simp add: length_chunks_3)
qed

definition b64_alphabet :: "char \<Rightarrow> bool" where
  "b64_alphabet c \<longleftrightarrow> is_ascii_letter c \<or> is_ascii_digit c \<or> c \<in> {CHR ''+'', CHR ''/'', CHR ''=''}"

lemma b64_char_alphabet: "n < 64 \<Longrightarrow> b64_alphabet (b64_char n)"
  by (auto simp: b64_alphabet_def b64_char_def is_ascii_letter_def is_ascii_digit_def digit_char_def ord_char_of)

lemma b64encode_alphabet: "c \<in> set (b64encode bs) \<Longrightarrow> b64_alphabet c"
proof -
  assume "c \<in> set (b64encode bs)"
  then obtain w where "c \<in> set (b64_group w)" by (auto simp: b64encode_def)
  then have "c = CHR ''='' \<or> (\<exists>m. c = b64_char (m mod 64))"
    unfolding b64_group_def Let_def by (auto dest!: in_set_takeD split: if_splits)
  then show ?thesis using b64_char_alphabet [OF mod_less_divisor] by (auto simp: b64_alphabet_def)
qed

lemma prepare_password_shape:
  "length (prepare_password pw) = 44 \<and> list_all b64_alphabet (prepare_password pw)"
  by (auto simp: prepare_password_def length_b64encode list_all_iff intro: b64encode_alphabet)

lemma prepared_password_short: "length (prepare_password pw) \<le> 255"
  using prepare_password_shape [of pw] by simp

section \<open>Facts about UUIDs\<close>

lemma py_replace_absent: "CHR ''-'' \<noteq> c \<Longrightarrow> c \<notin> set s \<Longrightarrow> py_replace (c # cs) s = s"
  by (induction s) (auto simp: startswith_def)

lemma py_replace_char: "py_replace [c] s = filter (\<lambda>x. x \<noteq> c) s"
  by (induction s) (auto simp: startswith_def)

definition is_hex :: "char \<Rightarrow> bool" where
  "is_hex c \<longleftrightarrow> 48 \<le> ord c \<and> ord c \<le> 57 \<or> 97 \<le> ord c \<and> ord c \<le> 102"

lemma hex_digit_props:
  assumes "d < 16"
  shows "is_hex (hex_digit d)" "hex_value (hex_digit d) = Some d"
  using assms by (auto simp: is_hex_def hex_digit_def hex_value_def ord_char_of)

lemma hex_digits_hex: "list_all is_hex (hex_digits n x)"
  by (simp add: hex_digits_def list_all_iff hex_digit_props)

lemma length_hex_digits [simp]: "length (hex_digits n x) = n"
  by (simp add: hex_digits_def)

lemma und_hex_fold:
  "list_all is_hex s \<Longrightarrow> s \<noteq> [] \<Longrightarrow> und_hex a s = Some (foldl (\<lambda>a c. 16 * a + the (hex_value c)) a s)"
proof (induction a s rule: und_hex.induct)
  case (2 a c)
  then show ?case by (auto simp: is_hex_def hex_value_def)
next
  case (3 a c d cs)
  from "3.prems"(1) have "hex_value c \<noteq> None" "d \<noteq> CHR ''_''" by (auto simp: is_hex_def hex_value_def)
  with 3 show ?case by auto
qed simp

lemma foldl_hex_digits: "foldl (\<lambda>a c. 16 * a + the (hex_value c)) a (hex_digits n x) = a * 16 ^ n + x mod 16 ^ n"
proof (induction n arbitrary: a)
  case (Suc n)
  have "hex_digits (Suc n) x = hex_digit (x div 16 ^ n mod 16) # hex_digits n x"
    by (simp add: hex_digits_def)
  moreover have "x mod (16 * 16 ^ n) = 16 ^ n * (x div 16 ^ n mod 16) + x mod 16 ^ n"
    using mod_mult2_eq [of x "16 ^ n" 16] by (simp add: mult.commute)
  ultimately show ?case using Suc by (simp add: hex_digit_props algebra_simps)
qed (simp add: hex_digits_def)

lemma no_hex:
  "\<not> is_hex (CHR ''-'')" "\<not> is_hex (CHR ''u'')" "\<not> is_hex (CHR 0x7B)" "\<not> is_hex (CHR 0x7D)" "\<not> is_hex (CHR ''x'')"
  "\<not> is_hex (CHR ''+'')"
  by (simp_all add: is_hex_def)

lemma filter_dashed:
  assumes "CHR ''-'' \<notin> set h"
  shows "filter (\<lambda>x. x \<noteq> CHR ''-'') (take 8 h @ ''-'' @ take 4 (drop 8 h) @ ''-'' @ take 4 (drop 12 h) @ ''-'' @
     take 4 (drop 16 h) @ ''-'' @ drop 20 h) = h"
proof -
  have keep: "filter (\<lambda>x. x \<noteq> CHR ''-'') t = t" if "set t \<subseteq> set h" for t
    using that assms by (intro filter_True) auto
  have "h = take 8 h @ take 4 (drop 8 h) @ take 4 (drop 4 (drop 8 h)) @ take 4 (drop 4 (drop 4 (drop 8 h))) @
      drop 4 (drop 4 (drop 4 (drop 8 h)))"
    by (simp only: append_take_drop_id)
  then have "take 8 h @ take 4 (drop 8 h) @ take 4 (drop 12 h) @ take 4 (drop 16 h) @ drop 20 h = h"
    by simp
  moreover have "set (take n (drop m h)) \<subseteq> set h" "set (take n h) \<subseteq> set h" "set (drop m h) \<subseteq> set h" for m n
    by (meson order_trans set_take_subset set_drop_subset)+
  ultimately show ?thesis by (simp add: keep)
qed

lemma py_int_base16_hex:
  assumes "list_all is_hex h" "h \<noteq> []"
  shows "py_int_base16 h = Some (int (foldl (\<lambda>a c. 16 * a + the (hex_value c)) 0 h))"
proof -
  have hd: "is_hex (hd h)" "is_hex (last h)" using assms by (auto simp: list_all_iff)
  have space: "\<not> is_num_space c" if "is_hex c" for c
    using that by (auto simp: is_num_space_def is_hex_def)
  have "dropWhile is_num_space h = h" using assms(2) hd space by (cases h) auto
  moreover have "dropWhile is_num_space (rev h) = rev h"
    using assms(2) hd space by (cases "rev h") (auto simp: hd_rev [symmetric])
  ultimately have strip: "num_strip h = h" by (simp add: num_strip_def)
  have sign: "split_sign h = (False, h)"
    using hd(1) no_hex assms(2) by (cases h) (auto simp: split_sign_def)
  have "\<not> startswith (py_lower h) ''0x''"
  proof
    assume "startswith (py_lower h) ''0x''"
    then have "CHR ''x'' \<in> set (py_lower h)" by (auto simp: startswith_iff)
    then obtain c where "c \<in> set h" "lower_char c = CHR ''x''" by (auto simp: py_lower_def)
    moreover have "lower_char c = c" if "is_hex c" for c
      using that by (auto simp: lower_char_def is_hex_def)
    ultimately show False using assms(1) no_hex by (auto simp: list_all_iff)
  qed
  then show ?thesis using und_hex_fold [OF assms, of 0] by (simp add: py_int_base16_def strip sign Let_def with_sign_def)
qed

lemma parse_uuid_str: "parse_uuid (uuid_str u) = Some u"
proof -
  let ?h = "hex_digits 32 (unat u)"
  have hex: "list_all is_hex ?h" by (rule hex_digits_hex)
  then have no_h: "c \<notin> set ?h" if "\<not> is_hex c" for c using that by (auto simp: list_all_iff)
  have parts: "set (uuid_str u) \<subseteq> insert (CHR ''-'') (set ?h)"
    by (auto simp: uuid_str_def Let_def dest: in_set_takeD in_set_dropD)
  have no: "c \<notin> set (uuid_str u)" if "\<not> is_hex c" "c \<noteq> CHR ''-''" for c
    using parts no_h [OF that(1)] that(2) by blast
  have u: "CHR ''u'' \<notin> set (uuid_str u)" by (rule no) (simp_all add: no_hex)
  have braces: "CHR 0x7B \<notin> set (uuid_str u)" "CHR 0x7D \<notin> set (uuid_str u)"
    by (rule no; simp add: no_hex)+
  have "dropWhile (\<lambda>c. c \<in> {CHR 0x7B, CHR 0x7D}) t = t" if "set t \<subseteq> set (uuid_str u)" for t
    using that braces by (cases t) auto
  then have strip: "strip_chars {CHR 0x7B, CHR 0x7D} (uuid_str u) = uuid_str u"
    by (simp add: strip_chars_def)
  have filter: "filter (\<lambda>x. x \<noteq> CHR ''-'') (uuid_str u) = ?h"
    unfolding uuid_str_def Let_def using no_hex(1) by (intro filter_dashed no_h)
  have "unat u < 2 ^ 128" using unsigned_less [where 'a = nat, of u] by simp
  then have val: "foldl (\<lambda>a c. 16 * a + the (hex_value c)) 0 ?h = unat u"
    by (simp add: foldl_hex_digits)
  have "?h \<noteq> []" by (simp add: hex_digits_def)
  from py_int_base16_hex [OF hex this] val have "py_int_base16 ?h = Some (int (unat u))" by simp
  moreover have "uint u < 2 ^ 128" using unsigned_less [where 'a = int, of u] by simp
  ultimately show ?thesis
    using u by (simp add: parse_uuid_def py_replace_absent py_replace_char strip filter Let_def)
qed

section \<open>Facts about tokens\<close>

lemma token_payload_claim:
  assumes "k \<notin> set (dkeys extra)"
  shows "dget (token_payload t jti subject ty delta extra) k =
     dget [(''sub'', PStr subject), (''iat'', PInt t), (''nbf'', PInt t), (''exp'', PInt (t + delta)),
           (''jti'', PStr jti), (''typ'', PStr (token_type_value ty))] k"
proof -
  have "dget (fold (\<lambda>(k, v). dput k v) extra d) k = dget d k" for d
    using assms by (induction extra arbitrary: d) auto
  then show ?thesis by (simp add: token_payload_def)
qed

lemma token_type_value_inj [simp]: "token_type_value a = token_type_value b \<longleftrightarrow> a = b"
  by (cases a; cases b) simp_all

text \<open>A token the decoder accepts as one type is refused as the other.\<close>

lemma decode_token_Inr:
  "decode_token cr st t tok ty = Inr p \<longleftrightarrow>
     jwt_decode cr t tok (jwt_secret_key st) [jwt_algorithm st] = Some p \<and>
     dget p ''typ'' = Some (PStr (token_type_value ty))"
  by (auto simp: decode_token_def split: option.splits if_splits)

lemma decode_token_other_type:
  "decode_token cr st t tok ty = Inr p \<Longrightarrow> ty' \<noteq> ty \<Longrightarrow>
   decode_token cr st t tok ty' = Inl (authentication_error ''Invalid token type'')"
  unfolding decode_token_Inr by (simp add: decode_token_def)

lemma decode_token_error: "decode_token cr st t tok ty = Inl e \<Longrightarrow> is_app_error Authentication e"
  by (auto simp: decode_token_def split: option.splits if_splits)

section \<open>Properties\<close>

text \<open>What is handed to bcrypt never exceeds its limits: for every password the prepared text has
  exactly 44 characters, below bcrypt's 72, all of the base64 alphabet, so without a NUL.\<close>

lemma prepared_password_bounds:
  "length (prepare_password pw) = 44 \<and> length (prepare_password pw) \<le> 72 \<and>
   list_all (\<lambda>c. b64_alphabet c \<and> ord c \<noteq> 0) (prepare_password pw)"
proof -
  have "b64_alphabet c \<Longrightarrow> ord c \<noteq> 0" for c
    by (auto simp: b64_alphabet_def is_ascii_letter_def is_ascii_digit_def)
  then show ?thesis using prepare_password_shape [of pw] by (auto simp: list_all_iff)
qed

text \<open>The textual form of an identifier, which tokens carry as their subject, is read back as
  the same 128-bit identifier.\<close>

lemma uuid_roundtrip: "parse_uuid (uuid_str u) = Some u"
  by (rule parse_uuid_str)

end
