(* ===== verification/Transactions.thy ===== *)
theory Transactions
  imports Security
begin

text \<open>
  What a session does to the database while other transactions commit: procedures that only
  read (\<open>reads_only\<close>), the outcome of an insertion that is followed by a commit, and the
  translation of integrity errors the services share.
\<close>

named_theorems reads_intros "introduction rules for procedures that only read"

section \<open>Steps of other transactions\<close>

text \<open>\<open>t\<close> is \<open>s\<close> after some of the pending commits of other transactions.\<close>

definition only_others :: "store \<Rightarrow> store \<Rightarrow> bool" where
  "only_others s t \<longleftrightarrow>
     (\<exists>n. others t = drop n (others s) \<and> committed t = fold (\<lambda>f. f) (take n (others s)) (committed s)) \<and>
     now t = now s"

lemma only_others_refl [simp]: "only_others s s"
  unfolding only_others_def by (metis drop0 fold_simps(1) take0)

lemma only_others_trans: "only_others r s \<Longrightarrow> only_others s t \<Longrightarrow> only_others r t"
proof -
  assume "only_others r s" "only_others s t"
  then obtain m n where m: "others s = drop m (others r)" "committed s = fold (\<lambda>f. f) (take m (others r)) (committed r)"
    and n: "others t = drop n (others s)" "committed t = fold (\<lambda>f. f) (take n (others s)) (committed s)"
    and now: "now t = now r" by (auto simp: only_others_def)
  have "take (m + n) (others r) = take m (others r) @ take n (others s)" using m(1) by (simp add: take_add)
  then have "others t = drop (m + n) (others r) \<and> committed t = fold (\<lambda>f. f) (take (m + n) (others r)) (committed r)"
    using m n by (simp add: add.commute)
  with now show ?thesis unfolding only_others_def by blast
qed

lemma only_others_quiet: "others s = [] \<Longrightarrow> only_others s t \<Longrightarrow> committed t = committed s \<and> others t = []"
  by (auto simp: only_others_def)

text \<open>A session at rest: its invariant holds and it has written nothing.\<close>

definition clean :: "store \<Rightarrow> bool" where
  "clean s \<longleftrightarrow> store_ok s \<and> \<not> dirty s"

lemma clean_working: "clean s \<Longrightarrow> working s = committed s"
  by (simp add: clean_def store_ok_def)

lemma clean_good: "clean s \<Longrightarrow> good_db (committed s)"
  by (simp add: clean_def store_ok_def)

lemma clean_let_others: "clean s \<Longrightarrow> clean (let_others s)"
  by (simp add: clean_def store_ok_let_others) (simp add: let_others_def split: list.splits)

lemma only_others_let_others: "clean s \<Longrightarrow> only_others s (let_others s)"
proof (cases "others s")
  case (Cons f fs)
  assume "clean s"
  then have "\<not> dirty s" by (simp add: clean_def)
  with Cons show ?thesis unfolding only_others_def let_others_def
    by (auto intro!: exI [of _ "Suc 0"])
qed simp

lemma let_others_now [simp]: "now (let_others s) = now s"
  by (simp add: let_others_def split: list.splits)

section \<open>Procedures that only read\<close>

definition reads_only :: "'a dbp \<Rightarrow> bool" where
  "reads_only m \<longleftrightarrow> (\<forall>s. clean s \<longrightarrow> clean (snd (m s)) \<and> only_others s (snd (m s)))"

lemma reads_onlyD: "reads_only m \<Longrightarrow> clean s \<Longrightarrow> m s = (r, t) \<Longrightarrow> clean t \<and> only_others s t"
  by (metis reads_only_def snd_conv)

lemma reads_only_pure [reads_intros]:
  "reads_only (ret x)" "reads_only (raise e)" "reads_only (reads f)" "reads_only (embed r)"
  "reads_only (require b e)"
  by (auto simp: reads_only_def)

lemma reads_only_seq [reads_intros]:
  assumes "reads_only m" "\<And>x. reads_only (k x)"
  shows "reads_only (seq m k)"
proof -
  have "clean (snd (seq m k s)) \<and> only_others s (snd (seq m k s))" if "clean s" for s
  proof (cases "m s")
    case (Pair r s')
    with reads_onlyD [OF assms(1) that] have s': "clean s'" "only_others s s'" by auto
    show ?thesis
    proof (cases r)
      case (Inl e)
      with Pair s' show ?thesis by (simp add: seq_def)
    next
      case (Inr x)
      then have "seq m k s = k x s'" using Pair by (simp add: seq_def)
      moreover have "clean (snd (k x s'))" "only_others s' (snd (k x s'))"
        using assms(2) [of x] s'(1) by (auto simp: reads_only_def)
      ultimately show ?thesis using only_others_trans [OF s'(2)] by simp
    qed
  qed
  then show ?thesis by (simp add: reads_only_def)
qed

lemma reads_only_if [reads_intros]:
  "(b \<Longrightarrow> reads_only m) \<Longrightarrow> (\<not> b \<Longrightarrow> reads_only n) \<Longrightarrow> reads_only (if b then m else n)"
  by simp

lemma reads_only_option [reads_intros]:
  "(x = None \<Longrightarrow> reads_only m) \<Longrightarrow> (\<And>y. x = Some y \<Longrightarrow> reads_only (n y)) \<Longrightarrow>
   reads_only (case x of None \<Rightarrow> m | Some y \<Rightarrow> n y)"
  by (cases x) auto

lemma reads_only_let [reads_intros]: "reads_only (f x) \<Longrightarrow> reads_only (Let x f)"
  by simp

lemma reads_only_select [reads_intros]: "reads_only (select q)"
  by (simp add: reads_only_def select_def Let_def clean_let_others only_others_let_others)

lemma reads_only_lookups [reads_intros]:
  "reads_only (get_user_by_id i)" "reads_only (get_user_by_email e)" "reads_only (get_user_by_username n)"
  "reads_only get_admin_user" "reads_only (repo_list_users limit offset)"
  "reads_only (get_route_by_id i)" "reads_only (get_by_route p q)" "reads_only list_all_routes"
  unfolding get_user_by_id_def get_user_by_email_def get_user_by_username_def users_where_def get_admin_user_def
    repo_list_users_def get_route_by_id_def get_by_route_def list_all_routes_def
  by (intro reads_intros)+

section \<open>Integrity errors\<close>

text \<open>\<open>except IntegrityError: rollback; raise ConflictError\<close>\<close>

definition conflict_on_integrity :: "string \<Rightarrow> 'a dbp \<Rightarrow> 'a dbp" where
  "conflict_on_integrity msg m =
     handle m (\<lambda>e. if e = IntegrityErr
       then seq rollback (\<lambda>_. raise (conflict_error msg ''conflict'')) else raise e)"

definition committing :: "'a dbp \<Rightarrow> 'a dbp" where
  "committing m = seq m (\<lambda>x. seq commit (\<lambda>_. ret x))"

lemma keeps_conflict_on_integrity [keeps_intros]: "keeps store_ok m \<Longrightarrow> keeps store_ok (conflict_on_integrity msg m)"
  unfolding conflict_on_integrity_def by (intro keeps_intros)

lemma keeps_committing [keeps_intros]: "keeps store_ok m \<Longrightarrow> keeps store_ok (committing m)"
  unfolding committing_def by (intro keeps_intros)

lemma rollback_clean: "store_ok s \<Longrightarrow> clean (snd (rollback s))"
  by (simp add: rollback_def clean_def store_ok_def)

lemma clean_rollback_id: "clean s \<Longrightarrow> rollback s = (Inr (), s)"
  by (cases s) (auto simp: rollback_def clean_def store_ok_def)

lemma commit_clean: "store_ok s \<Longrightarrow> clean (snd (commit s))"
  by (simp add: commit_def clean_def store_ok_def)

text \<open>An insertion with its commit, for a session at rest.\<close>

context row_insert
begin

lemma commit_row:
  assumes "clean s"
  shows "committing (add_row ins look key r) s =
     (let s' = let_others s; d = ins r (committed s') in
      if \<not> all_fit d then (Inl (SqlaErr ''DataError''), s')
      else if \<not> db_ok d then (Inl IntegrityErr, s')
      else (Inr r, s'\<lparr>working := d, committed := d\<rparr>))"
proof -
  have "working (let_others s) = committed (let_others s)" "\<not> dirty (let_others s)"
    using clean_let_others [OF assms] clean_working by (auto simp: clean_def)
  then show ?thesis by (simp add: committing_def seq_def add_row_eq Let_def commit_def)
qed

lemma conflict_row:
  assumes "clean s"
  shows "conflict_on_integrity msg (committing (add_row ins look key r)) s =
     (let s' = let_others s; d = ins r (committed s') in
      if \<not> all_fit d then (Inl (SqlaErr ''DataError''), s')
      else if \<not> db_ok d then (Inl (conflict_error msg ''conflict''), s')
      else (Inr r, s'\<lparr>working := d, committed := d\<rparr>))"
  using commit_row [OF assms, of r] clean_rollback_id [OF clean_let_others [OF assms]]
  by (simp add: conflict_on_integrity_def handle_def seq_def Let_def)

end

end
