(* ===== verification/User_Service.thy ===== *)
theory User_Service
  imports Transactions
begin

text \<open>
  Users: the request schemas (\<open>app/schemas/user.py\<close>, \<open>schemas/auth.py\<close>) and the service
  (\<open>app/services/user.py\<close>). The e-mail syntax check of pydantic is a parameter. Identifiers and
  salts are drawn by the caller and passed in.
\<close>

section \<open>Schemas\<close>

text \<open>
  A field of an update that was not sent is \<open>None\<close>; a field sent as null is \<open>Some None\<close>.
  \<open>None\<close> as the result of a schema is a rejected request.
\<close>

record user_create =
  uc_email :: "string option"
  uc_username :: string
  uc_password :: string
  uc_role :: role

record user_update =
  uu_username :: "string option option"

record user_admin_update =
  ua_email :: "string option option"
  ua_username :: "string option option"
  ua_password :: "string option option"
  ua_role :: "role option option"

record login_request =
  lr_username :: string
  lr_password :: string

record change_password_request =
  cp_current_password :: string
  cp_new_password :: string

definition normalize_email :: "string option \<Rightarrow> string option" where
  "normalize_email e = map_option py_lower e"

definition normalize_username :: "string \<Rightarrow> string" where
  "normalize_username n = py_lower (py_strip n)"

definition username_field :: "string \<Rightarrow> string option" where
  "username_field n =
     (if 3 \<le> length n \<and> length n \<le> 50 \<and> is_slug n then Some (normalize_username n) else None)"

definition password_field :: "string \<Rightarrow> string option" where
  "password_field p = (if 12 \<le> length p \<and> length p \<le> 128 then Some p else None)"

definition email_field :: "(string \<Rightarrow> string option) \<Rightarrow> string option \<Rightarrow> string option option" where
  "email_field check e =
     (case e of None \<Rightarrow> Some None | Some a \<Rightarrow> map_option (\<lambda>b. normalize_email (Some b)) (check a))"

definition user_create_schema ::
  "(string \<Rightarrow> string option) \<Rightarrow> string option \<Rightarrow> string \<Rightarrow> string \<Rightarrow> role \<Rightarrow> user_create option" where
  "user_create_schema check e n p r =
     Option.bind (email_field check e) (\<lambda>e'.
     Option.bind (username_field n) (\<lambda>n'.
     Option.bind (password_field p) (\<lambda>p'.
       Some \<lparr>uc_email = e', uc_username = n', uc_password = p', uc_role = r\<rparr>)))"

text \<open>A field that may be null: null passes, a value goes through its checks.\<close>

definition nullable :: "(string \<Rightarrow> string option) \<Rightarrow> string option option \<Rightarrow> string option option option" where
  "nullable f v =
     (case v of None \<Rightarrow> Some None
      | Some None \<Rightarrow> Some (Some None)
      | Some (Some s) \<Rightarrow> map_option (\<lambda>t. Some (Some t)) (f s))"

definition user_update_schema :: "string option option \<Rightarrow> user_update option" where
  "user_update_schema n = map_option (\<lambda>n'. \<lparr>uu_username = n'\<rparr>) (nullable username_field n)"

definition user_admin_update_schema ::
  "(string \<Rightarrow> string option) \<Rightarrow> string option option \<Rightarrow> string option option \<Rightarrow> string option option \<Rightarrow>
   role option option \<Rightarrow> user_admin_update option" where
  "user_admin_update_schema check e n p r =
     Option.bind (nullable (\<lambda>a. map_option py_lower (check a)) e) (\<lambda>e'.
     Option.bind (nullable username_field n) (\<lambda>n'.
     Option.bind (nullable password_field p) (\<lambda>p'.
       Some \<lparr>ua_email = e', ua_username = n', ua_password = p', ua_role = r\<rparr>)))"

definition login_schema :: "string \<Rightarrow> string \<Rightarrow> login_request option" where
  "login_schema n p =
     (if 1 \<le> length n \<and> length n \<le> 50 \<and> 1 \<le> length p \<and> length p \<le> 128
      then Some \<lparr>lr_username = normalize_username n, lr_password = p\<rparr> else None)"

definition change_password_schema :: "string \<Rightarrow> string \<Rightarrow> change_password_request option" where
  "change_password_schema c n =
     (if 1 \<le> length c \<and> length c \<le> 128 \<and> 12 \<le> length n \<and> length n \<le> 128
      then Some \<lparr>cp_current_password = c, cp_new_password = n\<rparr> else None)"

section \<open>The service\<close>

definition taken_by_other :: "user option \<Rightarrow> user option \<Rightarrow> bool" where
  "taken_by_other existing current \<longleftrightarrow>
     (case existing of None \<Rightarrow> False
      | Some e \<Rightarrow> (case current of None \<Rightarrow> True | Some c \<Rightarrow> user_id e \<noteq> user_id c))"

definition ensure_email :: "string option \<Rightarrow> user option \<Rightarrow> unit dbp" where
  "ensure_email em current =
     (case em of
        None \<Rightarrow> ret ()
      | Some e \<Rightarrow>
          if (case current of None \<Rightarrow> True | Some c \<Rightarrow> Some e \<noteq> email c)
          then seq (get_user_by_email e) (\<lambda>existing.
                 if taken_by_other existing current
                 then raise (conflict_error ''Email is already registered'' ''email_exists'') else ret ())
          else ret ())"

definition ensure_username :: "string option \<Rightarrow> user option \<Rightarrow> unit dbp" where
  "ensure_username un current =
     (case un of
        None \<Rightarrow> ret ()
      | Some n \<Rightarrow>
          if (case current of None \<Rightarrow> True | Some c \<Rightarrow> n \<noteq> username c)
          then seq (get_user_by_username n) (\<lambda>existing.
                 if taken_by_other existing current
                 then raise (conflict_error ''Username is already registered'' ''username_exists'') else ret ())
          else ret ())"

definition ensure_unique_identity :: "string option \<Rightarrow> string option \<Rightarrow> user option \<Rightarrow> unit dbp" where
  "ensure_unique_identity em un current = seq (ensure_email em current) (\<lambda>_. ensure_username un current)"

definition new_user :: "uid \<Rightarrow> user_create \<Rightarrow> string \<Rightarrow> role \<Rightarrow> user" where
  "new_user i p h r =
     \<lparr>user_id = i, email = uc_email p, username = uc_username p, hashed_password = h, user_role = r,
      user_created_at = 0, user_updated_at = 0\<rparr>"

definition create_user :: "crypto \<Rightarrow> settings \<Rightarrow> nat \<Rightarrow> uid \<Rightarrow> user_create \<Rightarrow> user dbp" where
  "create_user cr st seed new_id p =
     seq (ensure_unique_identity (uc_email p) (Some (uc_username p)) None) (\<lambda>_.
     seq (embed (hash_password cr seed (uc_password p) (password_bcrypt_rounds st))) (\<lambda>h.
       conflict_on_integrity ''User already exists''
         (committing (create_user_row (new_user new_id p h (uc_role p))))))"

definition list_users :: "nat \<Rightarrow> nat \<Rightarrow> user list dbp" where
  "list_users limit offset = repo_list_users limit offset"

definition get_user :: "uid \<Rightarrow> user dbp" where
  "get_user i =
     seq (get_user_by_id i) (\<lambda>u. case u of None \<Rightarrow> raise (not_found_error ''User'') | Some x \<Rightarrow> ret x)"

definition name_str :: "string option \<Rightarrow> string" where
  \<comment> \<open>\<open>str(updates["username"])\<close>\<close>
  "name_str n = (case n of None \<Rightarrow> ''None'' | Some s \<Rightarrow> s)"

definition update_profile :: "user \<Rightarrow> user_update \<Rightarrow> user dbp" where
  "update_profile current p =
     seq (case uu_username p of
            None \<Rightarrow> ret ()
          | Some n \<Rightarrow>
              if n \<noteq> Some (username current)
              then seq (get_user_by_username (name_str n)) (\<lambda>existing.
                     if taken_by_other existing (Some current)
                     then raise (conflict_error ''Username is already registered'' ''username_exists'') else ret ())
              else ret ())
         (\<lambda>_. conflict_on_integrity ''User profile conflicts with existing data''
            (committing (update_user_row current
               (case uu_username p of None \<Rightarrow> [] | Some n \<Rightarrow> [SetUsername n]))))"

definition change_password :: "crypto \<Rightarrow> settings \<Rightarrow> nat \<Rightarrow> user \<Rightarrow> change_password_request \<Rightarrow> unit dbp" where
  "change_password cr st seed current p =
     seq (embed (verify_password cr (cp_current_password p) (hashed_password current))) (\<lambda>ok.
     if \<not> ok then raise (authentication_error ''Invalid current password'')
     else seq (embed (hash_password cr seed (cp_new_password p) (password_bcrypt_rounds st))) (\<lambda>h.
          seq (update_user_row current [SetHashedPassword h]) (\<lambda>_. commit)))"

definition admin_updates :: "user_admin_update \<Rightarrow> string option \<Rightarrow> user_value list" where
  "admin_updates p h =
     (case ua_email p of None \<Rightarrow> [] | Some e \<Rightarrow> [SetEmail e]) @
     (case ua_username p of None \<Rightarrow> [] | Some n \<Rightarrow> [SetUsername n]) @
     (case ua_role p of None \<Rightarrow> [] | Some r \<Rightarrow> [SetRole r]) @
     (case h of None \<Rightarrow> [] | Some x \<Rightarrow> [SetHashedPassword x])"

definition flatten_option :: "'a option option \<Rightarrow> 'a option" where
  "flatten_option v = (case v of None \<Rightarrow> None | Some w \<Rightarrow> w)"

definition update_user :: "crypto \<Rightarrow> settings \<Rightarrow> nat \<Rightarrow> uid \<Rightarrow> user_admin_update \<Rightarrow> user dbp" where
  "update_user cr st seed i p =
     seq (get_user_by_id i) (\<lambda>u. case u of
       None \<Rightarrow> raise (not_found_error ''User'')
     | Some usr \<Rightarrow>
         seq (ensure_unique_identity (flatten_option (ua_email p)) (flatten_option (ua_username p)) (Some usr)) (\<lambda>_.
         seq (case flatten_option (ua_password p) of
                None \<Rightarrow> ret None
              | Some pw \<Rightarrow> embed (map_sum id Some (hash_password cr seed pw (password_bcrypt_rounds st)))) (\<lambda>h.
           conflict_on_integrity ''User conflicts with existing data''
             (committing (update_user_row usr (admin_updates p h))))))"

definition delete_account :: "user \<Rightarrow> unit dbp" where
  "delete_account current = seq (delete_user_row current) (\<lambda>_. commit)"

definition delete_user :: "uid \<Rightarrow> unit dbp" where
  "delete_user i =
     seq (get_user_by_id i) (\<lambda>u. case u of
       None \<Rightarrow> raise (not_found_error ''User'')
     | Some usr \<Rightarrow> seq (delete_user_row usr) (\<lambda>_. commit))"

section \<open>Facts about the schemas\<close>

lemma normalize_username_slug:
  "is_slug n \<Longrightarrow> is_slug (normalize_username n) \<and> length (normalize_username n) = length n \<and>
     py_lower (normalize_username n) = normalize_username n"
  by (simp add: normalize_username_def is_slug_strip is_slug_lower)

definition username_ok :: "string \<Rightarrow> bool" where
  "username_ok n \<longleftrightarrow> 3 \<le> length n \<and> length n \<le> 50 \<and> is_slug n \<and> py_lower n = n"

lemma username_field_ok: "username_field n = Some m \<Longrightarrow> username_ok m"
  using normalize_username_slug [of n] by (auto simp: username_field_def username_ok_def split: if_splits)

lemma username_field_fix: "username_ok n \<Longrightarrow> username_field n = Some n"
  by (simp add: username_ok_def username_field_def normalize_username_def is_slug_strip)

definition payload_ok :: "user_create \<Rightarrow> bool" where
  "payload_ok p \<longleftrightarrow> username_ok (uc_username p) \<and> normalize_email (uc_email p) = uc_email p \<and>
     within 320 (uc_email p) \<and> 12 \<le> length (uc_password p)"

lemma user_create_schema_ok:
  assumes "user_create_schema check e n p r = Some c" and "\<And>a b. check a = Some b \<Longrightarrow> length b \<le> 320"
  shows "payload_ok c"
  using assms username_field_ok
  by (auto simp: user_create_schema_def payload_ok_def email_field_def normalize_email_def password_field_def
      within_def split: option.splits if_splits Option.bind_splits)

section \<open>Facts about the service\<close>

lemma reads_only_ensure [reads_intros]: "reads_only (ensure_unique_identity em un cur)"
  unfolding ensure_unique_identity_def ensure_email_def ensure_username_def by (intro reads_intros)

lemma reads_only_get_user [reads_intros]: "reads_only (get_user i)"
  unfolding get_user_def by (intro reads_intros)

lemma keeps_ensure [keeps_intros]: "keeps store_ok (ensure_unique_identity em un cur)"
  unfolding ensure_unique_identity_def ensure_email_def ensure_username_def by (intro keeps_intros)

lemma keeps_user_service [keeps_intros]:
  "keeps store_ok (create_user cr st seed i p)" "keeps store_ok (list_users limit offset)"
  "keeps store_ok (get_user i)" "keeps store_ok (update_profile u q)"
  "keeps store_ok (change_password cr st seed u c)" "keeps store_ok (update_user cr st seed i a)"
  "keeps store_ok (delete_account u)" "keeps store_ok (delete_user i)"
  unfolding create_user_def list_users_def get_user_def update_profile_def change_password_def
    update_user_def delete_account_def delete_user_def
  by (intro keeps_intros)+

lemma some_values_append [simp]: "some_values (xs @ ys) = some_values xs @ some_values ys"
  by (simp add: some_values_def)

definition fresh_user :: "user \<Rightarrow> db \<Rightarrow> bool" where
  "fresh_user u d \<longleftrightarrow> user_id u \<notin> user_id ` set (users d) \<and> username u \<notin> username ` set (users d) \<and>
     (email u = None \<or> email u \<notin> email ` set (users d))"

lemma users_ok_append:
  "users_ok (us @ [u]) \<longleftrightarrow> users_ok us \<and> user_id u \<notin> user_id ` set us \<and> username u \<notin> username ` set us \<and>
     (email u = None \<or> email u \<notin> email ` set us)"
  by (cases "email u") (auto simp: users_ok_def set_some_values)

lemma refers_mono: "refers A r \<Longrightarrow> A \<subseteq> B \<Longrightarrow> refers B r"
  by (auto simp: refers_def split: option.splits)

lemma db_ok_insert_user: "db_ok d \<Longrightarrow> db_ok (insert_user u d) \<longleftrightarrow> fresh_user u d"
  unfolding db_ok_def insert_user_def fresh_user_def
  by (auto simp: users_ok_append list_all_iff intro: refers_mono)

lemma all_fit_insert_user: "all_fit d \<Longrightarrow> all_fit (insert_user u d) \<longleftrightarrow> user_fits u"
  by (simp add: all_fit_def insert_user_def)

definition stamped :: "int \<Rightarrow> user \<Rightarrow> user" where
  "stamped t u = u\<lparr>user_created_at := t, user_updated_at := t\<rparr>"

lemma create_user_commit:
  assumes "clean s" "user_fits u"
  shows "conflict_on_integrity msg (committing (create_user_row u)) s =
     (let s' = let_others s; u' = stamped (now s) u; d = insert_user u' (committed s') in
      if fresh_user u' (committed s') then (Inr u', s'\<lparr>working := d, committed := d\<rparr>)
      else (Inl (conflict_error msg ''conflict''), s'))"
proof -
  have row: "conflict_on_integrity msg (committing (create_user_row u)) s =
      conflict_on_integrity msg (committing (add_row insert_user find_user user_id (stamped (now s) u))) s"
    by (simp add: conflict_on_integrity_def committing_def create_user_row_def handle_def seq_def stamped_def Let_def)
  have "good_db (committed (let_others s))" using clean_good clean_let_others assms(1) by blast
  moreover have "user_fits (stamped (now s) u)" using assms(2) by (simp add: user_fits_def stamped_def)
  ultimately show ?thesis
    unfolding row user_insert.conflict_row [OF assms(1)]
    by (simp add: Let_def good_db_def all_fit_insert_user db_ok_insert_user)
qed

text \<open>The identity check of a new user, step by step.\<close>

definition email_conflict :: exn where
  "email_conflict = conflict_error ''Email is already registered'' ''email_exists''"

definition username_conflict :: exn where
  "username_conflict = conflict_error ''Username is already registered'' ''username_exists''"

lemma clean_store_ok: "clean s \<Longrightarrow> store_ok s"
  by (simp add: clean_def)

definition email_taken :: "db \<Rightarrow> string option \<Rightarrow> user option \<Rightarrow> bool" where
  "email_taken d em cur \<longleftrightarrow>
     (\<exists>e. em = Some e \<and> (\<forall>c. cur = Some c \<longrightarrow> Some e \<noteq> email c) \<and>
        taken_by_other (find (\<lambda>u. email u = Some (py_lower e)) (users d)) cur)"

definition username_taken :: "db \<Rightarrow> string option \<Rightarrow> user option \<Rightarrow> bool" where
  "username_taken d un cur \<longleftrightarrow>
     (\<exists>n. un = Some n \<and> (\<forall>c. cur = Some c \<longrightarrow> n \<noteq> username c) \<and>
        taken_by_other (find (\<lambda>u. username u = py_lower n) (users d)) cur)"

lemma ensure_email_eq:
  assumes "clean s"
  shows "ensure_email em cur s = (Inr (), s) \<and> \<not> email_taken (committed s) em cur \<or>
     ensure_email em cur s =
       (if email_taken (committed (let_others s)) em cur then Inl email_conflict else Inr (), let_others s)"
  using user_by_email.lookup_find [OF clean_store_ok [OF assms]] clean_working [OF clean_let_others [OF assms]]
  by (auto simp: ensure_email_def email_conflict_def [symmetric] email_taken_def seq_def split: option.splits)

lemma ensure_username_eq:
  assumes "clean s"
  shows "ensure_username un cur s = (Inr (), s) \<and> \<not> username_taken (committed s) un cur \<or>
     ensure_username un cur s =
       (if username_taken (committed (let_others s)) un cur then Inl username_conflict else Inr (), let_others s)"
  using user_by_username.lookup_find [OF clean_store_ok [OF assms]] clean_working [OF clean_let_others [OF assms]]
  by (auto simp: ensure_username_def username_conflict_def [symmetric] username_taken_def seq_def split: option.splits)

lemma ensure_result:
  assumes "clean s" "ensure_unique_identity em un cur s = (r, t)"
  shows "clean t \<and> only_others s t \<and> r \<in> {Inr (), Inl email_conflict, Inl username_conflict}"
proof -
  have "clean t \<and> only_others s t" by (rule reads_onlyD [OF reads_only_ensure assms])
  moreover have "r \<in> {Inr (), Inl email_conflict, Inl username_conflict}"
    using assms ensure_email_eq [OF assms(1), of em cur] ensure_username_eq [OF assms(1), of un cur]
      ensure_username_eq [OF clean_let_others [OF assms(1)], of un cur]
    by (auto simp: ensure_unique_identity_def seq_def split: if_splits)
  ultimately show ?thesis by blast
qed

lemma ensure_quiet:
  assumes "clean s" "others s = []"
  shows "ensure_unique_identity em un cur s =
     (if email_taken (committed s) em cur then Inl email_conflict
      else if username_taken (committed s) un cur then Inl username_conflict
      else Inr (), s)"
  using ensure_email_eq [OF assms(1), of em cur] ensure_username_eq [OF assms(1), of un cur] assms(2)
  by (auto simp: ensure_unique_identity_def seq_def)

lemma taken_new: "taken_by_other (find P us) None \<longleftrightarrow> (\<exists>u \<in> set us. P u)"
proof (cases "find P us")
  case None
  with find_None_iff [of P us] show ?thesis by (auto simp: taken_by_other_def)
next
  case (Some u)
  with find_Some_D [OF Some] show ?thesis by (auto simp: taken_by_other_def)
qed

lemma email_taken_new:
  assumes "normalize_email em = em"
  shows "email_taken d em None \<longleftrightarrow> em \<noteq> None \<and> em \<in> email ` set (users d)"
proof (cases em)
  case (Some e)
  moreover have "(\<exists>u \<in> A. email u = Some e) \<longleftrightarrow> Some e \<in> email ` A" for A by force
  ultimately show ?thesis
    using assms by (simp add: email_taken_def taken_new normalize_email_def)
qed (simp add: email_taken_def)

lemma username_taken_new:
  "py_lower n = n \<Longrightarrow> username_taken d (Some n) None \<longleftrightarrow> n \<in> username ` set (users d)"
  by (auto simp: username_taken_def taken_new image_iff)

section \<open>Facts about updates\<close>

lemma replace_row_ids:
  "(\<And>r. key (f r) = key r) \<Longrightarrow> map key (replace_row P f rs) = map key rs"
  by (simp add: replace_row_def)

lemma find_user_in: "find_user i d = Some u \<Longrightarrow> u \<in> set (users d) \<and> user_id u = i"
  by (auto simp: find_user_def dest: find_Some_D)

lemma find_user_unique:
  "users_ok (users d) \<Longrightarrow> u \<in> set (users d) \<Longrightarrow> find_user (user_id u) d = Some u"
proof -
  assume ok: "users_ok (users d)" and u: "u \<in> set (users d)"
  then obtain v where v: "find_user (user_id u) d = Some v"
    unfolding find_user_def by (cases "find (\<lambda>r. user_id r = user_id u) (users d)") (auto simp: find_None_iff)
  with ok u find_user_in [OF v] show ?thesis
    by (auto simp: users_ok_def dest: distinct_map_key)
qed

text \<open>Setting a column that may not be null to null never succeeds.\<close>

lemma update_null_username:
  assumes "clean s"
  shows "update_user_row u [SetUsername None] s = (Inl IntegrityErr, let_others s)"
  by (simp add: update_user_row_def changes_user_def seq_def select_def Let_def)

lemma distinct_some_values_filter:
  "distinct (some_values (map f xs)) \<Longrightarrow> distinct (some_values (map f (filter P xs)))"
proof (induction xs)
  case (Cons x xs)
  then show ?case by (cases "f x") (auto simp: set_some_values)
qed simp

lemma refers_unref: "refers A r \<Longrightarrow> refers (A - {i}) (unref i r)"
  by (auto simp: refers_def unref_def split: option.splits)

lemma ids_without: "user_id ` {u \<in> A. user_id u \<noteq> i} = user_id ` A - {i}"
  by auto

lemma delete_user_good:
  assumes "good_db d"
  shows "good_db (delete_user_from i d)"
proof -
  have us: "users_ok (filter (\<lambda>u. user_id u \<noteq> i) (users d))"
    using assms by (auto simp: good_db_def db_ok_defs distinct_map_filter distinct_some_values_filter)
  have key: "route_key (r\<lparr>dr_created_by := a, dr_updated_by := b\<rparr>) = route_key r"
    "route_row_ok (r\<lparr>dr_created_by := a, dr_updated_by := b\<rparr>) = route_row_ok r"
    "route_fits (r\<lparr>dr_created_by := a, dr_updated_by := b\<rparr>) = route_fits r" for r a b
    by (simp_all add: route_key_def route_row_ok_def route_fits_def)
  have rs: "routes_ok (routes (delete_user_from i d))"
    using assms by (simp add: good_db_def db_ok_defs delete_user_from_def comp_def key list.pred_map)
  have "all_fit (delete_user_from i d)"
    using assms by (auto simp: good_db_def all_fit_def delete_user_from_def list_all_iff key audit_fits_def)
  moreover have "db_ok (delete_user_from i d)"
    using us rs assms by (auto simp: good_db_def db_ok_def delete_user_from_def list_all_iff ids_without comp_def
        intro: refers_unref)
  ultimately show ?thesis by (simp add: good_db_def)
qed

lemma delete_row_commit:
  assumes "clean s"
  shows "seq (delete_user_row u) (\<lambda>_. commit) s =
     (let s' = let_others s; d = delete_user_from (user_id u) (committed s')
      in (Inr (), s'\<lparr>working := d, committed := d\<rparr>))"
proof -
  have c: "clean (let_others s)" by (rule clean_let_others [OF assms])
  have "good_db (delete_user_from (user_id u) (working (let_others s)))"
    using delete_user_good clean_good [OF c] clean_working [OF c] by simp
  then show ?thesis
    using clean_working [OF c] c
    by (simp add: delete_user_row_def flush_def seq_def commit_def Let_def good_db_def clean_def)
qed

lemma good_insert_user:
  "good_db d \<Longrightarrow> fresh_user u d \<Longrightarrow> user_fits u \<Longrightarrow> good_db (insert_user u d)"
  by (simp add: good_db_def db_ok_insert_user all_fit_insert_user)

lemma user_fits_new:
  "payload_ok p \<Longrightarrow> length h \<le> 255 \<Longrightarrow> user_fits (new_user i p h r)"
  by (simp add: payload_ok_def username_ok_def user_fits_def new_user_def)

lemma create_user_step:
  assumes "clean s" "hash_password cr seed (uc_password p) (password_bcrypt_rounds st) = Inr h"
    and "ensure_unique_identity (uc_email p) (Some (uc_username p)) None s = (Inr (), t)"
  shows "create_user cr st seed i p s =
     conflict_on_integrity ''User already exists'' (committing (create_user_row (new_user i p h (uc_role p)))) t"
  using assms by (simp add: create_user_def seq_def)

lemma create_user_not_dirty:
  assumes "clean s" "create_user cr st seed i p s = (r, t)"
  shows "\<not> dirty t"
proof -
  have quiet: "\<not> dirty (snd (conflict_on_integrity m (committing (add_row insert_user find_user user_id u)) s'))"
    if "clean s'" for m u s'
    using clean_let_others [OF that] by (simp add: user_insert.conflict_row [OF that] Let_def clean_def)
  have row: "conflict_on_integrity m (committing (create_user_row u)) s' =
      conflict_on_integrity m (committing (add_row insert_user find_user user_id (stamped (now s') u))) s'" for m u s'
    by (simp add: conflict_on_integrity_def committing_def create_user_row_def handle_def seq_def stamped_def Let_def)
  obtain q s1 where ens: "ensure_unique_identity (uc_email p) (Some (uc_username p)) None s = (q, s1)" by force
  have s1: "clean s1" using ensure_result [OF assms(1) ens] by simp
  show ?thesis
    using assms(2) ens s1 quiet [OF s1] row
    by (auto simp: create_user_def seq_def clean_def split: sum.splits) (metis snd_conv)
qed

section \<open>Properties\<close>

definition demo_db :: db where
  "demo_db = \<lparr>users = [
      \<lparr>user_id = 1, email = Some ''root@example.com'', username = ''admin'', hashed_password = ''h-admin'',
       user_role = RoleAdmin, user_created_at = 1, user_updated_at = 1\<rparr>,
      \<lparr>user_id = 2, email = None, username = ''alice'', hashed_password = ''h-alice'',
       user_role = RoleUser, user_created_at = 2, user_updated_at = 2\<rparr>],
    routes = [], audit_logs = []\<rparr>"

definition demo_store :: "(db \<Rightarrow> db) list \<Rightarrow> store" where
  "demo_store fs = \<lparr>committed = demo_db, working = demo_db, dirty = False, others = fs, now = 100, seen = demo_db\<rparr>"

definition demo_crypto :: crypto where
  "demo_crypto = \<lparr>bcrypt_gensalt = (\<lambda>_ _. Inr ''salt''), bcrypt_hashpw = (\<lambda>p _. Inr p),
     bcrypt_checkpw = (\<lambda>p h. Inr (p = h)), jwt_encode = (\<lambda>_ _ _. []), jwt_decode = (\<lambda>_ _ _ _. None)\<rparr>"

lemma demo_db_good: "good_db demo_db"
  by (simp add: demo_db_def good_db_def db_ok_defs all_fit_def user_fits_def within_def)

lemma demo_clean: "(\<And>f d. f \<in> set fs \<Longrightarrow> good_db d \<Longrightarrow> good_db (f d)) \<Longrightarrow> clean (demo_store fs)"
  by (simp add: demo_store_def clean_def store_ok_def demo_db_good)

definition demo_payload :: user_create where
  "demo_payload = \<lparr>uc_email = None, uc_username = ''bob'', uc_password = ''a long password'', uc_role = RoleUser\<rparr>"

lemma demo_payload_ok: "payload_ok demo_payload"
  by (simp add: demo_payload_def payload_ok_def username_ok_def normalize_email_def within_def is_slug_def
      slug_char_def is_ascii_letter_def py_lower_def lower_char_def)

lemma demo_hash: "hash_password demo_crypto seed pw rounds = Inr (prepare_password pw)"
  by (simp add: hash_password_def demo_crypto_def)

lemma demo_verify: "verify_password demo_crypto pw h = Inr (prepare_password pw = utf8 h)"
  by (simp add: verify_password_def demo_crypto_def)

lemma create_user_exact_quiet:
  assumes "clean s" "others s = []" "payload_ok p" "i \<notin> user_id ` set (users (committed s))"
    and "hash_password cr seed (uc_password p) (password_bcrypt_rounds st) = Inr h" "length h \<le> 255"
  shows "create_user cr st seed i p s =
     (if uc_email p \<noteq> None \<and> uc_email p \<in> email ` set (users (committed s)) then (Inl email_conflict, s)
      else if uc_username p \<in> username ` set (users (committed s)) then (Inl username_conflict, s)
      else let u = stamped (now s) (new_user i p h (uc_role p)); d = insert_user u (committed s)
           in (Inr u, s\<lparr>working := d, committed := d\<rparr>))"
proof -
  have norm: "normalize_email (uc_email p) = uc_email p" "py_lower (uc_username p) = uc_username p"
    using assms(3) by (simp_all add: payload_ok_def username_ok_def)
  have ensure: "ensure_unique_identity (uc_email p) (Some (uc_username p)) None s =
      (if uc_email p \<noteq> None \<and> uc_email p \<in> email ` set (users (committed s)) then Inl email_conflict
       else if uc_username p \<in> username ` set (users (committed s)) then Inl username_conflict else Inr (), s)"
    using ensure_quiet [OF assms(1,2), of "uc_email p" "Some (uc_username p)" None]
    by (simp add: email_taken_new [OF norm(1)] username_taken_new [OF norm(2)])
  have fresh: "fresh_user (stamped (now s) (new_user i p h (uc_role p))) (committed s) \<longleftrightarrow>
      \<not> (uc_email p \<noteq> None \<and> uc_email p \<in> email ` set (users (committed s))) \<and>
      uc_username p \<notin> username ` set (users (committed s))"
    using assms(4) by (auto simp: fresh_user_def stamped_def new_user_def)
  show ?thesis
    using ensure create_user_commit [OF assms(1) user_fits_new [OF assms(3,6)], of "''User already exists''" i "uc_role p"]
      assms(2,5) fresh
    by (simp add: create_user_def seq_def Let_def)
qed

text \<open>Creating a user is exact when nothing interferes: it is refused with the e-mail or the
  username conflict, in this order and without any effect, exactly when another user has the
  normalised e-mail or username; otherwise exactly the new row is committed.\<close>

lemma create_user_exact:
  assumes "clean s" "others s = []" "payload_ok p" "i \<notin> user_id ` set (users (committed s))"
    and "hash_password cr seed (uc_password p) (password_bcrypt_rounds st) = Inr h" "length h \<le> 255"
  shows "create_user cr st seed i p s =
     (if uc_email p \<noteq> None \<and> uc_email p \<in> email ` set (users (committed s)) then (Inl email_conflict, s)
      else if uc_username p \<in> username ` set (users (committed s)) then (Inl username_conflict, s)
      else let u = stamped (now s) (new_user i p h (uc_role p)); d = insert_user u (committed s)
           in (Inr u, s\<lparr>working := d, committed := d\<rparr>))"
  using assms by (rule create_user_exact_quiet)

lemma create_user_exact_witness:
  "\<exists>u t. create_user demo_crypto default_settings 0 7 demo_payload (demo_store []) = (Inr u, t) \<and>
     username u = ''bob'' \<and> length (users (committed t)) = 3"
proof -
  have facts: "clean (demo_store [])" "others (demo_store []) = []" "length (prepare_password (uc_password demo_payload)) \<le> 255"
    "7 \<notin> user_id ` set (users (committed (demo_store [])))" "uc_email demo_payload = None"
    "uc_username demo_payload \<notin> username ` set (users (committed (demo_store [])))"
    using prepare_password_shape [of "uc_password demo_payload"] demo_clean [of "[]"]
    by (simp_all add: demo_store_def demo_db_def demo_payload_def)
  show ?thesis
    using create_user_exact [OF facts(1,2) demo_payload_ok facts(4) demo_hash facts(3), where st = default_settings and seed = 0] facts(5,6)
    by (simp add: Let_def stamped_def new_user_def insert_user_def) (simp add: demo_payload_def demo_store_def demo_db_def)
qed

text \<open>C6: creating a user is safe under any interference: whatever other transactions commit between
  the checks and the insertion, either exactly the new row is added to what the others left and
  the constraints hold, or the caller gets a 409 conflict and nothing but the others' work is
  committed. The race between the check and the insertion never surfaces as a server error.\<close>

theorem create_user_race_safe:
  assumes "clean s" "payload_ok p"
    and "hash_password cr seed (uc_password p) (password_bcrypt_rounds st) = Inr h" "length h \<le> 255"
    and "create_user cr st seed i p s = (r, t)"
  shows "clean t \<and>
     ((\<exists>s' u. only_others s s' \<and> r = Inr u \<and> username u = uc_username p \<and> hashed_password u = h \<and>
         committed t = insert_user u (committed s')) \<or>
      (\<exists>msg c. only_others s t \<and> r = Inl (conflict_error msg c)))"
proof -
  have "clean t"
    using keeps_result [OF keeps_user_service(1) clean_store_ok [OF assms(1)] assms(5)]
      create_user_not_dirty [OF assms(1,5)] by (simp add: clean_def)
  moreover obtain q s1 where ens: "ensure_unique_identity (uc_email p) (Some (uc_username p)) None s = (q, s1)"
    by force
  note s1 = ensure_result [OF assms(1) ens]
  have "(\<exists>s' u. only_others s s' \<and> r = Inr u \<and> username u = uc_username p \<and> hashed_password u = h \<and>
         committed t = insert_user u (committed s')) \<or>
      (\<exists>msg c. only_others s t \<and> r = Inl (conflict_error msg c))"
  proof (cases "q = Inr ()")
    case True
    have o2: "only_others s (let_others s1)" using s1 only_others_let_others only_others_trans by blast
    from assms(5) ens True s1 create_user_commit [OF _ user_fits_new [OF assms(2,4)], of s1 "''User already exists''" i "uc_role p"] assms(3)
    have res: "(r, t) = (let s' = let_others s1; u' = stamped (now s1) (new_user i p h (uc_role p));
          d = insert_user u' (committed s') in
        if fresh_user u' (committed s') then (Inr u', s'\<lparr>working := d, committed := d\<rparr>)
        else (Inl (conflict_error ''User already exists'' ''conflict''), s'))"
      by (simp add: create_user_def seq_def)
    show ?thesis
    proof (cases "fresh_user (stamped (now s1) (new_user i p h (uc_role p))) (committed (let_others s1))")
      case True
      with res have "r = Inr (stamped (now s1) (new_user i p h (uc_role p)))"
        "committed t = insert_user (stamped (now s1) (new_user i p h (uc_role p))) (committed (let_others s1))"
        by (simp_all add: Let_def)
      moreover have "username (stamped (now s1) (new_user i p h (uc_role p))) = uc_username p"
        "hashed_password (stamped (now s1) (new_user i p h (uc_role p))) = h"
        by (simp_all add: stamped_def new_user_def)
      ultimately show ?thesis using o2 by blast
    next
      case False
      with res o2 show ?thesis by (auto simp: Let_def)
    qed
  next
    case False
    have conflicts: "\<exists>msg c. email_conflict = conflict_error msg c" "\<exists>msg c. username_conflict = conflict_error msg c"
      unfolding email_conflict_def username_conflict_def by blast+
    from False s1 obtain e where q: "q = Inl e" "e \<in> {email_conflict, username_conflict}" by auto
    with assms(5) ens have "r = Inl e" "t = s1" by (auto simp: create_user_def seq_def)
    with s1 q(2) conflicts show ?thesis by auto
  qed
  ultimately show ?thesis by blast
qed

theorem create_user_race_safe_witness:
  "\<exists>r t. create_user demo_crypto default_settings 0 7 demo_payload
       (demo_store [\<lambda>d. d, delete_user_from 2]) = (r, t) \<and> clean t"
proof -
  have c: "clean (demo_store [\<lambda>d. d, delete_user_from 2])" by (rule demo_clean) (auto simp: delete_user_good)
  obtain r t where run: "create_user demo_crypto default_settings 0 7 demo_payload
       (demo_store [\<lambda>d. d, delete_user_from 2]) = (r, t)" by force
  have "length (prepare_password (uc_password demo_payload)) \<le> 255" using prepare_password_shape by simp
  from create_user_race_safe [OF c demo_payload_ok demo_hash this run] run show ?thesis by blast
qed

text \<open>A profile update that sends null for the username is answered with a 409 conflict, whatever
  other transactions do, and changes nothing: the null is only caught by the database.\<close>

lemma null_username_conflicts:
  assumes "clean s" and "update_profile u \<lparr>uu_username = Some None\<rparr> s = (r, t)"
  shows "clean t \<and> only_others s t \<and> (\<exists>msg c. r = Inl (conflict_error msg c))"
proof -
  let ?found = "find (\<lambda>v. username v = py_lower ''None'') (users (committed (let_others s)))"
  have c1: "clean (let_others s)" by (rule clean_let_others [OF assms(1)])
  have c2: "clean (let_others (let_others s))" by (rule clean_let_others [OF c1])
  have o: "only_others s (let_others s)" "only_others s (let_others (let_others s))"
    using only_others_let_others [OF assms(1)] only_others_let_others [OF c1] only_others_trans by blast+
  have look: "get_user_by_username ''None'' s = (Inr ?found, let_others s)"
    using user_by_username.lookup_find [OF clean_store_ok [OF assms(1)]] clean_working [OF c1] by simp
  have "(r, t) = (if taken_by_other ?found (Some u)
      then (Inl username_conflict, let_others s)
      else (Inl (conflict_error ''User profile conflicts with existing data'' ''conflict''), let_others (let_others s)))"
    unfolding assms(2) [symmetric]
    by (simp add: update_profile_def name_str_def seq_def look username_conflict_def conflict_on_integrity_def
        committing_def handle_def update_null_username [OF c1] clean_rollback_id [OF c2])
  with c1 c2 o show ?thesis by (auto simp: username_conflict_def split: if_splits)
qed

text \<open>Deleting a user keeps the history: exactly the user's row goes, every dynamic route and audit
  entry stays with its reference to the user set to null, and the constraints hold.\<close>

lemma delete_user_keeps_history:
  assumes "clean s" "others s = []" "u \<in> set (users (committed s))"
  shows "\<exists>t. delete_user (user_id u) s = (Inr (), t) \<and> clean t \<and>
     users (committed t) = filter (\<lambda>v. user_id v \<noteq> user_id u) (users (committed s)) \<and>
     map (\<lambda>r. (dr_id r, route_key r, dr_canonical_sql r)) (routes (committed t)) =
       map (\<lambda>r. (dr_id r, route_key r, dr_canonical_sql r)) (routes (committed s)) \<and>
     map (\<lambda>a. (al_id a, al_username a, al_api_route a, al_allowed a)) (audit_logs (committed t)) =
       map (\<lambda>a. (al_id a, al_username a, al_api_route a, al_allowed a)) (audit_logs (committed s)) \<and>
     list_all (\<lambda>a. al_user_id a \<noteq> Some (user_id u)) (audit_logs (committed t))"
proof -
  have ok: "users_ok (users (committed s))"
    using clean_good [OF assms(1)] by (simp add: good_db_def db_ok_def)
  have look: "get_user_by_id (user_id u) s = (Inr (Some u), s)"
    using user_by_id.lookup_find [OF clean_store_ok [OF assms(1)], of "user_id u"] assms(2)
      find_user_unique [OF ok assms(3)] clean_working [OF assms(1)]
    by (simp add: find_user_def)
  let ?d = "delete_user_from (user_id u) (committed s)"
  have run: "delete_user (user_id u) s = (Inr (), s\<lparr>working := ?d, committed := ?d\<rparr>)"
    using delete_row_commit [OF assms(1), of u] assms(2)
    by (simp add: delete_user_def seq_def [of "get_user_by_id _"] look Let_def)
  have "good_db ?d" using delete_user_good clean_good [OF assms(1)] by blast
  then have "clean (s\<lparr>working := ?d, committed := ?d\<rparr>)"
    using assms(1) by (simp add: clean_def store_ok_def)
  with run show ?thesis
    by (simp add: delete_user_from_def comp_def route_key_def list_all_iff unref_def)
qed

lemma delete_user_keeps_history_witness:
  "\<exists>t. delete_user 2 (demo_store []) = (Inr (), t) \<and> map username (users (committed t)) = [''admin'']"
  using delete_user_keeps_history [OF demo_clean, of "[]" "users demo_db ! 1"]
  by (auto simp: demo_store_def demo_db_def)

end
