(* ===== verification/Auth.thy ===== *)
theory Auth
  imports User_Service
begin

text \<open>
  Authentication and authorisation: the service (\<open>app/services/auth.py\<close>), the request
  dependencies (\<open>app/dependencies/auth.py\<close>) with the audit entry every decision leaves, and the
  endpoints of the auth and users routers with their dependencies
  (\<open>api/v1/endpoints/auth.py\<close>, \<open>users.py\<close>, \<open>api/v1/router.py\<close>).
\<close>

section \<open>The authentication service\<close>

record token_pair =
  access_token :: string
  refresh_token :: string
  expires_in :: int

text \<open>What a request draws: the clock in seconds, salt randomness and fresh identifiers. A request
  writes at most one audit entry before its response and one in its background task.\<close>

record draw =
  clock :: int
  seed :: nat
  fresh_id :: uid
  audit_id :: uid
  task_audit_id :: uid
  jti_access :: string
  jti_refresh :: string
  elapsed_ms :: int

definition user_claims :: "user \<Rightarrow> row" where
  "user_claims u = [(''role'', PStr (role_value (user_role u))), (''username'', PStr (username u))]"

definition create_token_pair :: "crypto \<Rightarrow> settings \<Rightarrow> draw \<Rightarrow> user \<Rightarrow> token_pair" where
  "create_token_pair cr st dw u =
     \<lparr>access_token = create_access_token cr st (clock dw) (jti_access dw) (uuid_str (user_id u)) (user_claims u),
      refresh_token = create_refresh_token cr st (clock dw) (jti_refresh dw) (uuid_str (user_id u)) (user_claims u),
      expires_in = access_token_expire_minutes st * 60\<rparr>"

definition register :: "crypto \<Rightarrow> settings \<Rightarrow> draw \<Rightarrow> user_create \<Rightarrow> user dbp" where
  "register cr st dw p =
     seq (case uc_email p of
            None \<Rightarrow> ret None
          | Some e \<Rightarrow> get_user_by_email e) (\<lambda>existing.
     if existing \<noteq> None then raise (conflict_error ''Email is already registered'' ''email_exists'')
     else seq (get_user_by_username (uc_username p)) (\<lambda>existing.
     if existing \<noteq> None then raise (conflict_error ''Username is already registered'' ''username_exists'')
     else seq (embed (hash_password cr (seed dw) (uc_password p) (password_bcrypt_rounds st))) (\<lambda>h.
       conflict_on_integrity ''User already exists''
         (committing (create_user_row (new_user (fresh_id dw) p h RoleUser))))))"

definition login :: "crypto \<Rightarrow> settings \<Rightarrow> draw \<Rightarrow> login_request \<Rightarrow> token_pair dbp" where
  "login cr st dw p =
     seq (get_user_by_username (lr_username p)) (\<lambda>u. case u of
       None \<Rightarrow> raise (authentication_error ''Invalid username or password'')
     | Some x \<Rightarrow>
         seq (embed (verify_password cr (lr_password p) (hashed_password x))) (\<lambda>ok.
         if \<not> ok then raise (authentication_error ''Invalid username or password'')
         else ret (create_token_pair cr st dw x)))"

definition token_subject :: "row \<Rightarrow> exn + uid" where
  "token_subject payload =
     (case dget payload ''sub'' of
        Some (PStr s) \<Rightarrow>
          (case parse_uuid s of
             None \<Rightarrow> Inl (authentication_error ''Invalid token subject'')
           | Some i \<Rightarrow> Inr i)
      | _ \<Rightarrow> Inl (authentication_error ''Invalid token subject''))"

definition refresh_pair :: "crypto \<Rightarrow> settings \<Rightarrow> draw \<Rightarrow> string \<Rightarrow> token_pair dbp" where
  "refresh_pair cr st dw tok =
     seq (embed (decode_token cr st (clock dw) tok Refresh)) (\<lambda>payload.
     seq (embed (token_subject payload)) (\<lambda>i.
     seq (get_user_by_id i) (\<lambda>u. case u of
       None \<Rightarrow> raise (authentication_error ''Invalid refresh token'')
     | Some x \<Rightarrow> ret (create_token_pair cr st dw x))))"

section \<open>Request dependencies\<close>

definition get_current_user :: "crypto \<Rightarrow> settings \<Rightarrow> draw \<Rightarrow> string \<Rightarrow> user dbp" where
  "get_current_user cr st dw tok =
     seq (embed (decode_token cr st (clock dw) tok Access)) (\<lambda>payload.
     seq (embed (token_subject payload)) (\<lambda>i.
     seq (get_user_by_id i) (\<lambda>u. case u of
       None \<Rightarrow> raise (authentication_error ''Invalid authentication credentials'')
     | Some x \<Rightarrow> ret x)))"

definition require_roles :: "role list \<Rightarrow> user \<Rightarrow> user dbp" where
  "require_roles allowed_roles u =
     (if user_role u \<notin> set allowed_roles then raise (authorization_error ''Not enough permissions'') else ret u)"

definition or_root :: "string \<Rightarrow> string" where
  "or_root p = (if p = [] then ''/'' else p)"

definition normalize_route_path :: "string \<Rightarrow> string \<Rightarrow> string" where
  "normalize_route_path path api_prefix =
     (let pre = rstrip_char (CHR ''/'') api_prefix;
          rest = (if startswith path pre then drop (length pre) path else path)
      in or_root (rstrip_char (CHR ''/'') rest))"

definition route_matches_username :: "string \<Rightarrow> string \<Rightarrow> bool" where
  "route_matches_username route_path name =
     (let normalized_path = or_root (rstrip_char (CHR ''/'') route_path);
          username_prefix = ''/'' @ py_lower name
      in normalized_path = username_prefix \<or> startswith normalized_path (username_prefix @ ''/''))"

definition check_api_permission :: "user \<Rightarrow> string \<Rightarrow> bool \<times> string option" where
  "check_api_permission u route_path =
     (if user_role u = RoleAdmin then (True, None)
      else if route_matches_username route_path (username u) then (True, None)
      else (False, Some ''API permission denied''))"

text \<open>The parts of a request the dependencies read: the path, the query string and the template of
  the matched route.\<close>

record http_request =
  url_path :: string
  query_params :: "(string \<times> string) list"
  matched_route :: string

definition query_dict :: "(string \<times> string) list \<Rightarrow> row" where
  "query_dict items = map (\<lambda>k. (k, PStr (last (getlist items k)))) (query_keys items)"

definition request_parameters :: "http_request \<Rightarrow> row" where
  "request_parameters rq =
     (if endswith (matched_route rq) ''/{prefix}/{path:path}''
      then [(''parameter_names'', str_list (py_sorted_set (query_keys (query_params rq))))]
      else query_dict (query_params rq))"

definition permission_audit :: "draw \<Rightarrow> http_request \<Rightarrow> user \<Rightarrow> bool \<Rightarrow> string option \<Rightarrow> audit_log" where
  "permission_audit dw rq u allowed msg =
     \<lparr>al_id = audit_id dw, al_user_id = Some (user_id u), al_username = Some (username u),
      al_api_route = url_path rq, al_parameters = Some (request_parameters rq), al_allowed = allowed,
      al_error_message = msg, al_time_process_ms = Some (elapsed_ms dw)\<rparr>"

definition write_api_permission_audit_log :: "draw \<Rightarrow> http_request \<Rightarrow> user \<Rightarrow> bool \<Rightarrow> string option \<Rightarrow> unit dbp" where
  "write_api_permission_audit_log dw rq u allowed msg =
     seq (create_audit_row (permission_audit dw rq u allowed msg)) (\<lambda>_. commit)"

definition require_api_permission :: "settings \<Rightarrow> draw \<Rightarrow> http_request \<Rightarrow> user \<Rightarrow> user dbp" where
  "require_api_permission st dw rq u =
     (let (allowed, msg) = check_api_permission u (normalize_route_path (url_path rq) (api_v1_prefix st)) in
      seq (write_api_permission_audit_log dw rq u allowed msg) (\<lambda>_.
      if \<not> allowed then raise (authorization_error (case msg of None \<Rightarrow> ''API permission denied'' | Some m \<Rightarrow> m))
      else ret u))"

section \<open>Endpoints\<close>

text \<open>A request body that did not validate is answered after the dependencies ran.\<close>

definition with_payload :: "validation_issue list + 'p \<Rightarrow> ('p \<Rightarrow> 'a dbp) \<Rightarrow> 'a dbp" where
  "with_payload p k = (case p of Inl issues \<Rightarrow> raise (RequestValidationErr issues) | Inr x \<Rightarrow> k x)"

definition login_endpoint :: "crypto \<Rightarrow> settings \<Rightarrow> draw \<Rightarrow> validation_issue list + login_request \<Rightarrow> token_pair dbp" where
  "login_endpoint cr st dw p = with_session (with_payload p (login cr st dw))"

text \<open>The form of \<open>/token\<close> is validated inside the handler, as a pydantic \<open>ValidationError\<close>.\<close>

definition token_endpoint :: "crypto \<Rightarrow> settings \<Rightarrow> draw \<Rightarrow> string \<Rightarrow> string \<Rightarrow> token_pair dbp" where
  "token_endpoint cr st dw name pw =
     with_session (case login_schema name pw of
       None \<Rightarrow> raise (ModelValidationErr [])
     | Some p \<Rightarrow> login cr st dw p)"

definition refresh_endpoint :: "crypto \<Rightarrow> settings \<Rightarrow> draw \<Rightarrow> validation_issue list + string \<Rightarrow> token_pair dbp" where
  "refresh_endpoint cr st dw p = with_session (with_payload p (refresh_pair cr st dw))"

definition me_endpoint :: "crypto \<Rightarrow> settings \<Rightarrow> draw \<Rightarrow> string \<Rightarrow> user dbp" where
  "me_endpoint cr st dw tok = with_session (get_current_user cr st dw tok)"

definition change_password_endpoint ::
  "crypto \<Rightarrow> settings \<Rightarrow> draw \<Rightarrow> string \<Rightarrow> validation_issue list + change_password_request \<Rightarrow> unit dbp" where
  "change_password_endpoint cr st dw tok p =
     with_session (seq (get_current_user cr st dw tok) (\<lambda>u.
       with_payload p (change_password cr st (seed dw) u)))"

text \<open>Every route of the users router first runs the permission check of the router.\<close>

definition users_router :: "crypto \<Rightarrow> settings \<Rightarrow> draw \<Rightarrow> http_request \<Rightarrow> string \<Rightarrow> (user \<Rightarrow> 'a dbp) \<Rightarrow> 'a dbp" where
  "users_router cr st dw rq tok k =
     with_session (seq (get_current_user cr st dw tok) (\<lambda>u.
       seq (require_api_permission st dw rq u) k))"

definition admin_only :: "(user \<Rightarrow> 'a dbp) \<Rightarrow> user \<Rightarrow> 'a dbp" where
  "admin_only k u = seq (require_roles [RoleAdmin] u) k"

definition create_user_endpoint ::
  "crypto \<Rightarrow> settings \<Rightarrow> draw \<Rightarrow> http_request \<Rightarrow> string \<Rightarrow> validation_issue list + user_create \<Rightarrow> user dbp" where
  "create_user_endpoint cr st dw rq tok p =
     users_router cr st dw rq tok (admin_only (\<lambda>_. with_payload p (create_user cr st (seed dw) (fresh_id dw))))"

definition list_users_endpoint ::
  "crypto \<Rightarrow> settings \<Rightarrow> draw \<Rightarrow> http_request \<Rightarrow> string \<Rightarrow> validation_issue list + (nat \<times> nat) \<Rightarrow> user list dbp" where
  "list_users_endpoint cr st dw rq tok p =
     users_router cr st dw rq tok (admin_only (\<lambda>_. with_payload p (\<lambda>(limit, offset). list_users limit offset)))"

definition update_me_endpoint ::
  "crypto \<Rightarrow> settings \<Rightarrow> draw \<Rightarrow> http_request \<Rightarrow> string \<Rightarrow> validation_issue list + user_update \<Rightarrow> user dbp" where
  "update_me_endpoint cr st dw rq tok p =
     users_router cr st dw rq tok (\<lambda>u. with_payload p (update_profile u))"

definition delete_me_endpoint :: "crypto \<Rightarrow> settings \<Rightarrow> draw \<Rightarrow> http_request \<Rightarrow> string \<Rightarrow> unit dbp" where
  "delete_me_endpoint cr st dw rq tok = users_router cr st dw rq tok delete_account"

definition get_user_endpoint ::
  "crypto \<Rightarrow> settings \<Rightarrow> draw \<Rightarrow> http_request \<Rightarrow> string \<Rightarrow> validation_issue list + uid \<Rightarrow> user dbp" where
  "get_user_endpoint cr st dw rq tok i = users_router cr st dw rq tok (admin_only (\<lambda>_. with_payload i get_user))"

definition update_user_endpoint ::
  "crypto \<Rightarrow> settings \<Rightarrow> draw \<Rightarrow> http_request \<Rightarrow> string \<Rightarrow> validation_issue list + (uid \<times> user_admin_update) \<Rightarrow> user dbp" where
  "update_user_endpoint cr st dw rq tok p =
     users_router cr st dw rq tok (admin_only (\<lambda>_. with_payload p (\<lambda>(i, q). update_user cr st (seed dw) i q)))"

definition delete_user_endpoint ::
  "crypto \<Rightarrow> settings \<Rightarrow> draw \<Rightarrow> http_request \<Rightarrow> string \<Rightarrow> validation_issue list + uid \<Rightarrow> unit dbp" where
  "delete_user_endpoint cr st dw rq tok i =
     users_router cr st dw rq tok (admin_only (\<lambda>_. with_payload i delete_user))"

section \<open>Facts about permissions\<close>

lemma route_matches_segments:
  assumes "CHR ''/'' \<notin> set (py_lower name)"
  shows "route_matches_username p name \<longleftrightarrow>
     take 2 (py_split (CHR ''/'') (or_root (rstrip_char (CHR ''/'') p))) = [[], py_lower name]"
proof -
  let ?n = "py_lower name" and ?q = "or_root (rstrip_char (CHR ''/'') p)"
  have split1: "py_split (CHR ''/'') (CHR ''/'' # ?n) = [[], ?n]"
    using py_split_single [OF assms] by simp
  have split2: "py_split (CHR ''/'') (CHR ''/'' # ?n @ CHR ''/'' # r) = [] # ?n # py_split (CHR ''/'') r" for r
    using py_split_append_sep [OF assms, of r] by simp
  show ?thesis
  proof
    assume "route_matches_username p name"
    then consider "?q = CHR ''/'' # ?n" | r where "?q = CHR ''/'' # ?n @ CHR ''/'' # r"
      by (auto simp: route_matches_username_def Let_def startswith_iff)
    then show "take 2 (py_split (CHR ''/'') ?q) = [[], ?n]"
      by cases (simp_all only: split1 split2, simp_all)
  next
    assume "take 2 (py_split (CHR ''/'') ?q) = [[], ?n]"
    then obtain ws where ws: "py_split (CHR ''/'') ?q = [] # ?n # ws"
      by (cases "py_split (CHR ''/'') ?q"; cases "tl (py_split (CHR ''/'') ?q)") (auto simp: numeral_2_eq_2)
    have "?q = py_join [CHR ''/''] ([] # ?n # ws)" using py_join_split [of "CHR ''/''" ?q] ws by simp
    then have "?q = CHR ''/'' # ?n \<or> (\<exists>r. ?q = CHR ''/'' # ?n @ CHR ''/'' # r)"
      by (cases ws) auto
    then show "route_matches_username p name"
      by (auto simp: route_matches_username_def Let_def startswith_iff)
  qed
qed

lemma slug_no_slash: "is_slug n \<Longrightarrow> CHR ''/'' \<notin> set (py_lower n)"
proof -
  assume "is_slug n"
  then have "list_all slug_char (py_lower n)" using is_slug_lower by (auto simp: is_slug_def)
  moreover have "\<not> slug_char (CHR ''/'')" by (simp add: slug_char_def is_ascii_letter_def is_ascii_digit_def)
  ultimately show ?thesis by (auto simp: list_all_iff)
qed

section \<open>Facts about audit entries\<close>

lemma db_ok_insert_audit:
  "db_ok d \<Longrightarrow> db_ok (insert_audit a d) \<longleftrightarrow>
     al_id a \<notin> al_id ` set (audit_logs d) \<and> refers (user_id ` set (users d)) (al_user_id a)"
  by (auto simp: db_ok_def insert_audit_def)

lemma all_fit_insert_audit: "all_fit d \<Longrightarrow> all_fit (insert_audit a d) \<longleftrightarrow> audit_fits a"
  by (simp add: all_fit_def insert_audit_def)

lemma audit_commit:
  assumes "clean s"
  shows "seq (create_audit_row a) (\<lambda>_. commit) s =
     (let s' = let_others s; d = insert_audit a (committed s') in
      if \<not> audit_fits a then (Inl (SqlaErr ''DataError''), s')
      else if al_id a \<in> al_id ` set (audit_logs (committed s')) \<or>
              \<not> refers (user_id ` set (users (committed s'))) (al_user_id a) then (Inl IntegrityErr, s')
      else (Inr (), s'\<lparr>working := d, committed := d\<rparr>))"
proof -
  have c: "clean (let_others s)" by (rule clean_let_others [OF assms])
  then have g: "good_db (committed (let_others s))" by (rule clean_good)
  show ?thesis
    using clean_working [OF c] c g
    by (simp add: create_audit_row_def seq_def audit_insert.add_row_eq Let_def commit_def good_db_def
        db_ok_insert_audit all_fit_insert_audit clean_def)
qed

lemma clean_commit_good: "clean s \<Longrightarrow> good_db d \<Longrightarrow> clean (s\<lparr>working := d, committed := d\<rparr>)"
  by (simp add: clean_def store_ok_def)

lemma permission_audit_fits:
  "user_fits u \<Longrightarrow> audit_fits (permission_audit dw rq u a m) \<longleftrightarrow> length (url_path rq) \<le> 500"
  by (simp add: permission_audit_def audit_fits_def user_fits_def within_def)

lemma user_fits_in: "good_db d \<Longrightarrow> u \<in> set (users d) \<Longrightarrow> user_fits u"
  by (simp add: good_db_def all_fit_def list_all_iff)

text \<open>The outcome of the permission check, on what the other transactions have committed by then.\<close>

lemma require_api_permission_outcome:
  assumes "clean s" "user_fits u"
    and "check_api_permission u (normalize_route_path (url_path rq) (api_v1_prefix st)) = (allowed, msg)"
  shows "require_api_permission st dw rq u s =
     (let s' = let_others s; d = insert_audit (permission_audit dw rq u allowed msg) (committed s') in
      if 500 < length (url_path rq) then (Inl (SqlaErr ''DataError''), s')
      else if audit_id dw \<in> al_id ` set (audit_logs (committed s')) \<or> user_id u \<notin> user_id ` set (users (committed s'))
      then (Inl IntegrityErr, s')
      else (if allowed then Inr u else Inl (authorization_error ''API permission denied''),
            s'\<lparr>working := d, committed := d\<rparr>))"
proof -
  have fits: "audit_fits (permission_audit dw rq u allowed msg) \<longleftrightarrow> length (url_path rq) \<le> 500"
    by (rule permission_audit_fits [OF assms(2)])
  have msg: "allowed \<or> msg = Some ''API permission denied''"
    using assms(3) by (auto simp: check_api_permission_def split: if_splits)
  have ids: "al_id (permission_audit dw rq u allowed msg) = audit_id dw"
    "al_user_id (permission_audit dw rq u allowed msg) = Some (user_id u)"
    by (simp_all add: permission_audit_def)
  show ?thesis
    using audit_commit [OF assms(1), of "permission_audit dw rq u allowed msg"] msg
    by (simp add: require_api_permission_def assms(3) write_api_permission_audit_log_def seq_def Let_def fits ids
        refers_def not_le) (auto simp: raise_def ret_def)
qed

text \<open>The outcome of the permission check for a session without interference.\<close>

lemma require_api_permission_eq:
  assumes "clean s" "others s = []" "u \<in> set (users (committed s))"
    and "audit_id dw \<notin> al_id ` set (audit_logs (committed s))"
    and "check_api_permission u (normalize_route_path (url_path rq) (api_v1_prefix st)) = (allowed, msg)"
  shows "require_api_permission st dw rq u s =
     (if 500 < length (url_path rq) then (Inl (SqlaErr ''DataError''), s)
      else let d = insert_audit (permission_audit dw rq u allowed msg) (committed s)
           in (if allowed then Inr u else Inl (authorization_error ''API permission denied''),
               s\<lparr>working := d, committed := d\<rparr>))"
  using require_api_permission_outcome [OF assms(1) user_fits_in [OF clean_good [OF assms(1)] assms(3)] assms(5), of dw]
    assms(2-4) by (auto simp: Let_def)

section \<open>Facts about authentication\<close>

lemma user_by_id_quiet:
  assumes "clean s" "others s = []" "u \<in> set (users (committed s))"
  shows "get_user_by_id (user_id u) s = (Inr (Some u), s)"
  using user_by_id.lookup_find [OF clean_store_ok [OF assms(1)], of "user_id u"] assms(2)
    find_user_unique [of "committed s" u] assms(3) clean_working [OF assms(1)] clean_good [OF assms(1)]
  by (simp add: find_user_def good_db_def db_ok_def)

lemma user_by_username_quiet:
  assumes "clean s" "others s = []" "u \<in> set (users (committed s))" "username u = py_lower n"
  shows "get_user_by_username n s = (Inr (Some u), s)"
proof -
  have "find (\<lambda>v. username v = py_lower n) (users (committed s)) = Some u"
  proof (cases "find (\<lambda>v. username v = py_lower n) (users (committed s))")
    case None
    with assms(3,4) show ?thesis by (auto simp: find_None_iff)
  next
    case (Some v)
    with assms(3,4) clean_good [OF assms(1)] find_Some_D [OF Some] show ?thesis
      by (auto simp: good_db_def db_ok_defs dest: distinct_map_key [of username])
  qed
  then show ?thesis
    using user_by_username.lookup_find [OF clean_store_ok [OF assms(1)], of n] assms(2) clean_working [OF assms(1)]
    by simp
qed

text \<open>The documented round trip of PyJWT for one set of claims: while its dates allow it, decoding
  a token gives back the claims it was made of.\<close>

definition reads_back_claims :: "crypto \<Rightarrow> settings \<Rightarrow> int \<Rightarrow> row \<Rightarrow> bool" where
  "reads_back_claims cr st t claims \<longleftrightarrow>
     jwt_decode cr t (jwt_encode cr claims (jwt_secret_key st) (jwt_algorithm st))
       (jwt_secret_key st) [jwt_algorithm st] = Some claims"

definition access_claims :: "settings \<Rightarrow> draw \<Rightarrow> user \<Rightarrow> row" where
  "access_claims st dw u = token_payload (clock dw) (jti_access dw) (uuid_str (user_id u)) Access
     (60 * access_token_expire_minutes st) (user_claims u)"

definition refresh_claims :: "settings \<Rightarrow> draw \<Rightarrow> user \<Rightarrow> row" where
  "refresh_claims st dw u = token_payload (clock dw) (jti_refresh dw) (uuid_str (user_id u)) Refresh
     (60 * refresh_token_expire_minutes st) (user_claims u)"

lemma claims_fields:
  "dget (access_claims st dw u) ''sub'' = Some (PStr (uuid_str (user_id u)))"
  "dget (access_claims st dw u) ''typ'' = Some (PStr ''access'')"
  "dget (refresh_claims st dw u) ''sub'' = Some (PStr (uuid_str (user_id u)))"
  "dget (refresh_claims st dw u) ''typ'' = Some (PStr ''refresh'')"
  by (simp_all add: access_claims_def refresh_claims_def token_payload_claim user_claims_def)

lemma decode_access:
  "reads_back_claims cr st t (access_claims st dw u) \<Longrightarrow>
   decode_token cr st t (access_token (create_token_pair cr st dw u)) ty =
     (if ty = Access then Inr (access_claims st dw u) else Inl (authentication_error ''Invalid token type''))"
  by (cases ty) (simp_all add: decode_token_def create_token_pair_def create_access_token_def create_token_def
      reads_back_claims_def access_claims_def [symmetric] claims_fields)

lemma decode_refresh:
  "reads_back_claims cr st t (refresh_claims st dw u) \<Longrightarrow>
   decode_token cr st t (refresh_token (create_token_pair cr st dw u)) ty =
     (if ty = Refresh then Inr (refresh_claims st dw u) else Inl (authentication_error ''Invalid token type''))"
  by (cases ty) (simp_all add: decode_token_def create_token_pair_def create_refresh_token_def create_token_def
      reads_back_claims_def refresh_claims_def [symmetric] claims_fields)

lemma subject_of_claims:
  "dget c ''sub'' = Some (PStr (uuid_str i)) \<Longrightarrow> token_subject c = Inr i"
  by (simp add: token_subject_def parse_uuid_str)

lemma with_session_InrE:
  assumes "with_session m s = (Inr x, t)"
  obtains s' where "m s = (Inr x, s')" "t = close_session s'"
  using assms by (auto simp: with_session_def handle_def seq_def rollback_def split: prod.splits sum.splits)

lemma require_api_permission_user: "require_api_permission st dw rq u s = (Inr v, t) \<Longrightarrow> v = u"
  by (auto simp: require_api_permission_def split: prod.splits if_splits elim!: seq_InrE)

lemma users_router_denied:
  "get_current_user cr st dw tok s = (Inr u, s) \<Longrightarrow> require_api_permission st dw rq u s = (Inl e, t) \<Longrightarrow>
   users_router cr st dw rq tok k s = (Inl e, close_session (snd (rollback t)))"
  by (simp add: users_router_def with_session_def handle_def seq_def rollback_def)

lemma users_router_admin:
  assumes "users_router cr st dw rq tok (admin_only k) s = (Inr x, t)"
  shows "\<exists>u s'. get_current_user cr st dw tok s = (Inr u, s') \<and> user_role u = RoleAdmin"
proof -
  from assms obtain u s1 v s2 w s3 where "get_current_user cr st dw tok s = (Inr u, s1)"
    "require_api_permission st dw rq u s1 = (Inr v, s2)" "require_roles [RoleAdmin] v s2 = (Inr w, s3)"
    unfolding users_router_def admin_only_def by (auto elim!: with_session_InrE seq_InrE)
  then show ?thesis by (auto simp: require_roles_def dest!: require_api_permission_user split: if_splits)
qed

section \<open>Properties\<close>

definition demo_draw :: draw where
  "demo_draw = \<lparr>clock = 1000, seed = 0, fresh_id = 70, audit_id = 90, task_audit_id = 91, jti_access = ''j1'', jti_refresh = ''j2'', elapsed_ms = 1\<rparr>"

definition alice :: user where
  "alice = users demo_db ! 1"

definition alice_crypto :: crypto where
  "alice_crypto = demo_crypto\<lparr>
     bcrypt_checkpw := (\<lambda>p h. Inr (h = ''h-alice'')),
     jwt_encode := (\<lambda>c _ _. if dget c ''typ'' = Some (PStr ''access'') then ''A'' else ''R''),
     jwt_decode := (\<lambda>t tok _ _. if tok = ''A'' then Some (access_claims default_settings demo_draw alice)
       else if tok = ''R'' then Some (refresh_claims default_settings demo_draw alice) else None)\<rparr>"

lemma alice_facts: "alice \<in> set (users (committed (demo_store [])))" "username alice = ''alice''"
  "user_role alice = RoleUser" "hashed_password alice = ''h-alice''" "user_id alice = 2"
  by (simp_all add: alice_def demo_db_def demo_store_def)

lemma alice_verify: "verify_password alice_crypto pw (hashed_password alice) = Inr True"
  by (simp add: verify_password_def alice_crypto_def alice_facts utf8_def)

lemma alice_reads_back: "reads_back_claims alice_crypto default_settings t (access_claims default_settings demo_draw alice)"
  "reads_back_claims alice_crypto default_settings t (refresh_claims default_settings demo_draw alice)"
  by (simp_all add: reads_back_claims_def alice_crypto_def claims_fields)

lemma demo_quiet: "clean (demo_store [])" "others (demo_store []) = []" "audit_logs (committed (demo_store [])) = []"
  using demo_clean [of "[]"] by (simp_all add: demo_store_def demo_db_def)

text \<open>C12: a login works end to end and token types are never confused: with the right password the
  tokens are issued, the access token authenticates exactly that user, the refresh token gives a
  new pair, and each is refused with an authentication error where the other is expected.\<close>

theorem login_tokens_work:
  assumes "clean s" "others s = []" "u \<in> set (users (committed s))" "username u = py_lower (lr_username p)"
    and "verify_password cr (lr_password p) (hashed_password u) = Inr True"
    and "reads_back_claims cr st (clock dw') (access_claims st dw u)"
    and "reads_back_claims cr st (clock dw') (refresh_claims st dw u)"
  shows "\<exists>pair. login cr st dw p s = (Inr pair, s) \<and>
     get_current_user cr st dw' (access_token pair) s = (Inr u, s) \<and>
     get_current_user cr st dw' (refresh_token pair) s = (Inl (authentication_error ''Invalid token type''), s) \<and>
     refresh_pair cr st dw' (refresh_token pair) s = (Inr (create_token_pair cr st dw' u), s) \<and>
     refresh_pair cr st dw' (access_token pair) s = (Inl (authentication_error ''Invalid token type''), s)"
proof -
  let ?pair = "create_token_pair cr st dw u"
  have subj: "token_subject (access_claims st dw u) = Inr (user_id u)" "token_subject (refresh_claims st dw u) = Inr (user_id u)"
    by (simp_all add: subject_of_claims claims_fields)
  have "login cr st dw p s = (Inr ?pair, s)"
    by (simp add: login_def seq_def user_by_username_quiet [OF assms(1-4)] assms(5))
  moreover have "get_current_user cr st dw' (access_token ?pair) s = (Inr u, s)"
    "refresh_pair cr st dw' (refresh_token ?pair) s = (Inr (create_token_pair cr st dw' u), s)"
    by (simp_all add: get_current_user_def refresh_pair_def seq_def decode_access [OF assms(6)] decode_refresh [OF assms(7)]
        subj user_by_id_quiet [OF assms(1-3)])
  moreover have "get_current_user cr st dw' (refresh_token ?pair) s = (Inl (authentication_error ''Invalid token type''), s)"
    "refresh_pair cr st dw' (access_token ?pair) s = (Inl (authentication_error ''Invalid token type''), s)"
    by (simp_all add: get_current_user_def refresh_pair_def seq_def decode_access [OF assms(6)] decode_refresh [OF assms(7)])
  ultimately show ?thesis by blast
qed

theorem login_tokens_work_witness:
  "\<exists>pair. login alice_crypto default_settings demo_draw \<lparr>lr_username = ''Alice'', lr_password = ''pw''\<rparr> (demo_store []) =
       (Inr pair, demo_store []) \<and>
     get_current_user alice_crypto default_settings demo_draw (access_token pair) (demo_store []) = (Inr alice, demo_store [])"
proof -
  have "py_lower ''Alice'' = ''alice''" by code_simp
  then have "username alice = py_lower (lr_username \<lparr>lr_username = ''Alice'', lr_password = ''pw''\<rparr>)"
    by (simp add: alice_facts)
  from login_tokens_work [OF demo_quiet(1,2) alice_facts(1) this _ alice_reads_back, of demo_draw]
  show ?thesis by (auto simp: alice_verify)
qed

text \<open>C34: a failing login does not tell why: when the password check does not raise, an unknown
  username and a wrong password give the same authentication error, nothing is written, and
  tokens are only issued to a user of that name whose password check succeeded.\<close>

theorem login_failure_uniform:
  assumes "clean s" "\<And>u. u \<in> set (users (committed (let_others s))) \<Longrightarrow> \<exists>b. verify_password cr (lr_password p) (hashed_password u) = Inr b"
    and "login cr st dw p s = (r, t)"
  shows "clean t \<and> only_others s t \<and>
     (r = Inl (authentication_error ''Invalid username or password'') \<or>
      (\<exists>u \<in> set (users (committed t)). username u = py_lower (lr_username p) \<and>
         verify_password cr (lr_password p) (hashed_password u) = Inr True \<and> r = Inr (create_token_pair cr st dw u)))"
proof -
  let ?found = "find (\<lambda>v. username v = py_lower (lr_username p)) (users (committed (let_others s)))"
  have look: "get_user_by_username (lr_username p) s = (Inr ?found, let_others s)"
    using user_by_username.lookup_find [OF clean_store_ok [OF assms(1)], of "lr_username p"]
      clean_working [OF clean_let_others [OF assms(1)]] by simp
  have rt: "(r, t) = (case ?found of None \<Rightarrow> raise (authentication_error ''Invalid username or password'')
      | Some x \<Rightarrow> seq (embed (verify_password cr (lr_password p) (hashed_password x))) (\<lambda>ok.
          if \<not> ok then raise (authentication_error ''Invalid username or password'')
          else ret (create_token_pair cr st dw x))) (let_others s)"
    unfolding assms(3) [symmetric] by (simp add: login_def seq_def [of "get_user_by_username _"] look)
  show ?thesis
  proof (cases ?found)
    case None
    with rt show ?thesis using clean_let_others [OF assms(1)] only_others_let_others [OF assms(1)] by simp
  next
    case (Some u)
    with find_Some_D [OF Some] assms(2) [of u] obtain b where
      u: "u \<in> set (users (committed (let_others s)))" "username u = py_lower (lr_username p)"
        "verify_password cr (lr_password p) (hashed_password u) = Inr b" by blast
    with rt Some show ?thesis using clean_let_others [OF assms(1)] only_others_let_others [OF assms(1)]
      by (auto simp: seq_def split: if_splits)
  qed
qed

theorem login_failure_uniform_witness:
  "\<exists>t. login demo_crypto default_settings demo_draw \<lparr>lr_username = ''nobody'', lr_password = ''pw''\<rparr> (demo_store []) =
     (Inl (authentication_error ''Invalid username or password''), t) \<and> clean t \<and> committed t = demo_db"
proof -
  obtain r t where run: "login demo_crypto default_settings demo_draw \<lparr>lr_username = ''nobody'', lr_password = ''pw''\<rparr> (demo_store []) = (r, t)"
    by force
  from login_failure_uniform [OF demo_quiet(1) _ run] have *: "only_others (demo_store []) t \<and> clean t \<and>
      (r = Inl (authentication_error ''Invalid username or password'') \<or>
       (\<exists>u \<in> set (users (committed t)). username u = ''nobody''))"
    by (auto simp: demo_verify py_lower_def lower_char_def)
  then have "committed t = demo_db" "others t = []"
    using only_others_quiet [of "demo_store []" t] by (auto simp: demo_store_def)
  with * have "r = Inl (authentication_error ''Invalid username or password'')"
    by (auto simp: demo_db_def)
  with run * \<open>committed t = demo_db\<close> show ?thesis by blast
qed

text \<open>C11: the path permission is exact and respects segment boundaries: a request is allowed when and
  only when the user is an administrator or the first segment of the path, after trailing slashes
  are dropped, is the user's name in lower case.\<close>

theorem path_permission_exact:
  assumes "is_slug (username u)"
  shows "check_api_permission u p =
     (if user_role u = RoleAdmin \<or>
         take 2 (py_split (CHR ''/'') (or_root (rstrip_char (CHR ''/'') p))) = [[], py_lower (username u)]
      then (True, None) else (False, Some ''API permission denied''))"
  using route_matches_segments [OF slug_no_slash [OF assms], of p] by (simp add: check_api_permission_def)

theorem path_permission_exact_witness:
  "check_api_permission alice ''/alice/sales/'' = (True, None) \<and>
   check_api_permission alice ''/alicex/sales'' = (False, Some ''API permission denied'')"
proof -
  have "is_slug (username alice)" by (simp add: alice_facts is_slug_def slug_char_def is_ascii_letter_def)
  from path_permission_exact [OF this, of "''/alice/sales/''"] path_permission_exact [OF this, of "''/alicex/sales''"]
  show ?thesis
    by (simp add: alice_facts or_root_def rstrip_char_def py_lower_def lower_char_def numeral_2_eq_2)
qed

text \<open>C20: every permission decision is audited before it takes effect, whatever other transactions do
  meanwhile. For a path within the column's width exactly one entry is committed on top of what the
  others committed: it has the user, the path, the parameters (for the executor of dynamic routes only
  their sorted names, otherwise the last value of each), whether the request was allowed, the reason
  if not, and the time. Then the request goes on or ends with 403 as decided. When the
  entry cannot be stored, because the path is longer than the column, the user was deleted meanwhile
  or the identifier is taken, nothing is written and even an allowed request ends with that error.\<close>

theorem permission_decision_audited:
  assumes "clean s" "u \<in> set (users (committed s))"
    and "require_api_permission st dw rq u s = (res, t)"
  shows "let now = committed (let_others s);
      decision = check_api_permission u (normalize_route_path (url_path rq) (api_v1_prefix st))
    in others t = others (let_others s) \<and>
     (if 500 < length (url_path rq) then res = Inl (SqlaErr ''DataError'') \<and> committed t = now
      else if audit_id dw \<in> al_id ` set (audit_logs now) \<or> user_id u \<notin> user_id ` set (users now)
      then res = Inl IntegrityErr \<and> committed t = now
      else res = (if fst decision then Inr u else Inl (authorization_error ''API permission denied'')) \<and>
        users (committed t) = users now \<and> routes (committed t) = routes now \<and>
        audit_logs (committed t) = audit_logs now @
          [\<lparr>al_id = audit_id dw, al_user_id = Some (user_id u), al_username = Some (username u),
            al_api_route = url_path rq,
            al_parameters = Some
              (if endswith (matched_route rq) ''/{prefix}/{path:path}''
               then [(''parameter_names'', PList (map PStr (py_sorted_set (query_keys (query_params rq)))))]
               else map (\<lambda>k. (k, PStr (last (getlist (query_params rq) k)))) (query_keys (query_params rq))),
            al_allowed = fst decision,
            al_error_message = (if fst decision then None else Some ''API permission denied''),
            al_time_process_ms = Some (elapsed_ms dw)\<rparr>])"
proof -
  obtain allowed msg where chk: "check_api_permission u (normalize_route_path (url_path rq) (api_v1_prefix st)) = (allowed, msg)"
    by force
  have msg: "msg = (if allowed then None else Some ''API permission denied'')"
    using chk by (auto simp: check_api_permission_def split: if_splits)
  have entry: "permission_audit dw rq u allowed msg =
      \<lparr>al_id = audit_id dw, al_user_id = Some (user_id u), al_username = Some (username u),
       al_api_route = url_path rq,
       al_parameters = Some
         (if endswith (matched_route rq) ''/{prefix}/{path:path}''
          then [(''parameter_names'', PList (map PStr (py_sorted_set (query_keys (query_params rq)))))]
          else map (\<lambda>k. (k, PStr (last (getlist (query_params rq) k)))) (query_keys (query_params rq))),
       al_allowed = allowed, al_error_message = (if allowed then None else Some ''API permission denied''),
       al_time_process_ms = Some (elapsed_ms dw)\<rparr>"
    by (simp add: permission_audit_def request_parameters_def str_list_def query_dict_def msg)
  note run = assms(3) [unfolded require_api_permission_outcome [OF assms(1) user_fits_in [OF clean_good [OF assms(1)] assms(2)] chk]
      Let_def entry]
  consider "500 < length (url_path rq)"
    | "\<not> 500 < length (url_path rq)"
      "audit_id dw \<in> al_id ` set (audit_logs (committed (let_others s))) \<or> user_id u \<notin> user_id ` set (users (committed (let_others s)))"
    | "\<not> 500 < length (url_path rq)"
      "\<not> (audit_id dw \<in> al_id ` set (audit_logs (committed (let_others s))) \<or> user_id u \<notin> user_id ` set (users (committed (let_others s))))"
    by blast
  then show ?thesis
  proof cases
    case 1
    with run chk show ?thesis unfolding Let_def if_P [OF 1] by auto
  next
    case 2
    with run chk show ?thesis unfolding Let_def if_not_P [OF 2(1)] if_P [OF 2(2)] by auto
  next
    case 3
    from run [unfolded if_not_P [OF 3(1)] if_not_P [OF 3(2)]] chk show ?thesis
      unfolding Let_def if_not_P [OF 3(1)] if_not_P [OF 3(2)] by (auto simp: insert_audit_def)
  qed
qed

theorem permission_decision_audited_witness:
  "\<exists>t. require_api_permission default_settings demo_draw
       \<lparr>url_path = ''/api/v1/data/users'', query_params = [(''limit'', ''5'')], matched_route = ''/api/v1/data/users''\<rparr> alice (demo_store []) =
       (Inl (authorization_error ''API permission denied''), t) \<and>
     map (\<lambda>a. (al_allowed a, al_api_route a)) (audit_logs (committed t)) = [(False, ''/api/v1/data/users'')]"
proof -
  let ?rq = "\<lparr>url_path = ''/api/v1/data/users'', query_params = [(''limit'', ''5'')], matched_route = ''/api/v1/data/users''\<rparr>"
  have chk: "check_api_permission alice (normalize_route_path (url_path ?rq) (api_v1_prefix default_settings)) =
      (False, Some ''API permission denied'')"
    by code_simp
  obtain res t where run: "require_api_permission default_settings demo_draw ?rq alice (demo_store []) = (res, t)" by force
  have "user_id alice \<in> user_id ` set (users (committed (demo_store [])))" using alice_facts(1) by blast
  with permission_decision_audited [OF demo_quiet(1) alice_facts(1) run] demo_quiet(2,3) chk run show ?thesis
    by (simp add: Let_def)
qed

text \<open>The README offers \<open>/users/me\<close> to every user, but the router's permission check comes first.\<close>

lemma users_path_permission:
  assumes "user_role u = RoleUser" "is_slug (username u)" "username u = py_lower (username u)" "username u \<noteq> ''users''"
  shows "check_api_permission u (normalize_route_path ''/api/v1/users/me'' ''/api/v1'') = (False, Some ''API permission denied'')"
proof -
  have "normalize_route_path ''/api/v1/users/me'' ''/api/v1'' = ''/users/me''" by code_simp
  moreover have "take 2 (py_split (CHR ''/'') (or_root (rstrip_char (CHR ''/'') ''/users/me''))) = [[], ''users'']" by code_simp
  ultimately show ?thesis using route_matches_segments [OF slug_no_slash [OF assms(2)]] assms
    by (auto simp: check_api_permission_def)
qed

text \<open>An ordinary user cannot reach the self-service routes: unless the username is literally
  \<open>users\<close>, updating or deleting the own account is answered with 403 by the router's permission
  check, and no user changes.\<close>

lemma self_service_denied:
  assumes "clean s" "others s = []" "u \<in> set (users (committed s))"
    and "audit_id dw \<notin> al_id ` set (audit_logs (committed s))"
    and "get_current_user cr st dw tok s = (Inr u, s)" "api_v1_prefix st = ''/api/v1''"
    and "user_role u = RoleUser" "is_slug (username u)" "username u = py_lower (username u)" "username u \<noteq> ''users''"
    and "url_path rq = ''/api/v1/users/me''"
  shows "\<exists>t t'. update_me_endpoint cr st dw rq tok p s = (Inl (authorization_error ''API permission denied''), t) \<and>
     delete_me_endpoint cr st dw rq tok s = (Inl (authorization_error ''API permission denied''), t') \<and>
     users (committed t) = users (committed s) \<and> users (committed t') = users (committed s)"
proof -
  have chk: "check_api_permission u (normalize_route_path (url_path rq) (api_v1_prefix st)) = (False, Some ''API permission denied'')"
    using users_path_permission assms(6-11) by simp
  have perm: "\<exists>t. require_api_permission st dw rq u s = (Inl (authorization_error ''API permission denied''), t) \<and>
      users (committed t) = users (committed s)"
    using require_api_permission_eq [OF assms(1-4) chk] assms(11) by (simp add: Let_def insert_audit_def)
  then obtain t where t: "require_api_permission st dw rq u s = (Inl (authorization_error ''API permission denied''), t)"
    "users (committed t) = users (committed s)" by blast
  note denied = users_router_denied [OF assms(5) t(1)]
  show ?thesis
    using t(2) by (simp add: update_me_endpoint_def delete_me_endpoint_def denied close_session_def rollback_def)
qed

lemma self_service_denied_witness:
  "\<exists>t. update_me_endpoint alice_crypto default_settings demo_draw
       \<lparr>url_path = ''/api/v1/users/me'', query_params = [], matched_route = ''/api/v1/users/me''\<rparr> ''A''
       (Inr \<lparr>uu_username = Some (Some ''bob'')\<rparr>) (demo_store []) = (Inl (authorization_error ''API permission denied''), t)"
proof -
  have "decode_token alice_crypto default_settings (clock demo_draw) ''A'' Access = Inr (access_claims default_settings demo_draw alice)"
    by (simp add: decode_token_Inr alice_crypto_def claims_fields)
  then have cur: "get_current_user alice_crypto default_settings demo_draw ''A'' (demo_store []) = (Inr alice, demo_store [])"
    by (simp add: get_current_user_def seq_def subject_of_claims claims_fields user_by_id_quiet [OF demo_quiet(1,2) alice_facts(1)])
  have names: "is_slug (username alice)" "username alice = py_lower (username alice)" "username alice \<noteq> ''users''"
    unfolding alice_facts(2) by code_simp+
  have id: "audit_id demo_draw \<notin> al_id ` set (audit_logs (committed (demo_store [])))" by (simp add: demo_quiet(3))
  have "api_v1_prefix default_settings = ''/api/v1''" by (simp add: default_settings_def)
  from self_service_denied [OF demo_quiet(1,2) alice_facts(1) id cur this alice_facts(3) names,
      of "\<lparr>url_path = ''/api/v1/users/me'', query_params = [], matched_route = ''/api/v1/users/me''\<rparr>"]
  show ?thesis by force
qed

definition admin_crypto :: crypto where
  "admin_crypto = demo_crypto\<lparr>jwt_decode := (\<lambda>_ _ _ _. Some [(''sub'', PStr (uuid_str 1)), (''typ'', PStr ''access'')])\<rparr>"

lemma admin_lists:
  "\<exists>p x. list_users_endpoint admin_crypto default_settings demo_draw
      \<lparr>url_path = ''/api/v1/users'', query_params = [], matched_route = ''/api/v1/users''\<rparr> ''A'' p (demo_store []) =
      (Inr x, snd (list_users_endpoint admin_crypto default_settings demo_draw
        \<lparr>url_path = ''/api/v1/users'', query_params = [], matched_route = ''/api/v1/users''\<rparr> ''A'' (Inr (10, 0)) (demo_store [])))"
proof -
  let ?rq = "\<lparr>url_path = ''/api/v1/users'', query_params = [], matched_route = ''/api/v1/users''\<rparr>"
  let ?u = "users demo_db ! 0"
  have u: "?u \<in> set (users (committed (demo_store [])))" "user_id ?u = 1" "user_role ?u = RoleAdmin"
    by (simp_all add: demo_db_def demo_store_def)
  have cur: "get_current_user admin_crypto default_settings demo_draw ''A'' (demo_store []) = (Inr ?u, demo_store [])"
    using user_by_id_quiet [OF demo_quiet(1,2) u(1)] u(2)
    by (simp add: get_current_user_def seq_def decode_token_def admin_crypto_def subject_of_claims)
  have chk: "check_api_permission ?u q = (True, None)" for q using u(3) by (simp add: check_api_permission_def)
  have id: "audit_id demo_draw \<notin> al_id ` set (audit_logs (committed (demo_store [])))" by (simp add: demo_quiet(3))
  obtain t where perm: "require_api_permission default_settings demo_draw ?rq ?u (demo_store []) = (Inr ?u, t)"
    using require_api_permission_eq [OF demo_quiet(1,2) u(1) id chk, where rq = ?rq and st = default_settings] by (simp add: Let_def)
  have "\<exists>x t'. list_users_endpoint admin_crypto default_settings demo_draw ?rq ''A'' (Inr (10, 0)) (demo_store []) = (Inr x, t')"
    by (simp add: list_users_endpoint_def users_router_def with_session_def handle_def seq_def cur perm admin_only_def
        require_roles_def u(3) with_payload_def list_users_def repo_list_users_def select_def Let_def)
  then show ?thesis by (metis snd_conv)
qed

text \<open>The administration of users is for administrators only: whatever a request to the five
  administration endpoints holds, it returns a result only if the current user is one.\<close>

lemma user_administration_admin_only:
  assumes "(\<exists>p x. create_user_endpoint cr st dw rq tok p s = (Inr x, t)) \<or>
     (\<exists>p x. list_users_endpoint cr st dw rq tok p s = (Inr x, t)) \<or>
     (\<exists>i x. get_user_endpoint cr st dw rq tok i s = (Inr x, t)) \<or>
     (\<exists>p x. update_user_endpoint cr st dw rq tok p s = (Inr x, t)) \<or>
     (\<exists>i x. delete_user_endpoint cr st dw rq tok i s = (Inr x, t))"
  shows "\<exists>u s'. get_current_user cr st dw tok s = (Inr u, s') \<and> user_role u = RoleAdmin"
  using assms
  unfolding create_user_endpoint_def list_users_endpoint_def get_user_endpoint_def update_user_endpoint_def
    delete_user_endpoint_def
  by (elim disjE exE) (rule users_router_admin, assumption)+

lemma user_administration_admin_only_witness:
  "\<exists>u s'. get_current_user admin_crypto default_settings demo_draw ''A'' (demo_store []) = (Inr u, s') \<and> user_role u = RoleAdmin"
  by (rule user_administration_admin_only [OF disjI2 [OF disjI1 [OF admin_lists]]])

end
