(* ===== verification/Audit_Service.thy ===== *)
theory Audit_Service
  imports Auth
begin

text \<open>
  The audit service (\<open>app/services/audit_log.py\<close>): entries for values without a PII mapping and
  for the administration of dynamic routes. The draw of a request supplies the entry's
  identifier. A value JSON cannot represent fails when the entry is flushed.
\<close>

fun json_ok :: "pyval \<Rightarrow> bool" where
  "json_ok (PDate d) = False"
| "json_ok (PDateTime t) = False"
| "json_ok (PFloat f) = py_isfinite f"
| "json_ok (PList vs) = list_all json_ok vs"
| "json_ok (PDict kvs) = list_all (\<lambda>kv. json_ok (snd kv)) kvs"
| "json_ok v = True"

definition row_json_ok :: "row \<Rightarrow> bool" where
  "row_json_ok r \<longleftrightarrow> list_all (\<lambda>kv. json_ok (snd kv)) r"

definition dump_missing :: "missing_mapping \<Rightarrow> pyval" where
  "dump_missing mm = PDict [(''column_name'', PStr (column_name mm)), (''value'', missing_value mm)]"

definition missing_mappings_entry :: "draw \<Rightarrow> user \<Rightarrow> string \<Rightarrow> row \<Rightarrow> missing_mapping list \<Rightarrow> audit_log" where
  "missing_mappings_entry dw actor route rparams missing =
     \<lparr>al_id = task_audit_id dw, al_user_id = Some (user_id actor), al_username = Some (username actor),
      al_api_route = route,
      al_parameters = Some (dput ''missing_mappings'' (PList (map dump_missing missing)) rparams),
      al_allowed = False, al_error_message = Some ''Missing PII mapping'', al_time_process_ms = None\<rparr>"

definition audit_missing_mappings ::
  "draw \<Rightarrow> user \<Rightarrow> string \<Rightarrow> row \<Rightarrow> missing_mapping list \<Rightarrow> unit dbp" where
  "audit_missing_mappings dw actor route rparams missing =
     (let entry = missing_mappings_entry dw actor route rparams missing in
      if \<not> row_json_ok (the (al_parameters entry)) then raise (SqlaErr ''StatementError'')
      else seq (create_audit_row entry) (\<lambda>_. commit))"

definition route_action_parameters :: "string \<Rightarrow> uid option \<Rightarrow> string \<Rightarrow> string \<Rightarrow> string option \<Rightarrow> row" where
  "route_action_parameters action i pre path error_code =
     [(''action'', PStr action),
      (''route_id'', case i of None \<Rightarrow> PNone | Some u \<Rightarrow> PStr (uuid_str u)),
      (''prefix'', PStr pre), (''path'', PStr path)] @
     (case error_code of None \<Rightarrow> [] | Some e \<Rightarrow> [(''error_code'', PStr e)])"

definition route_action_entry ::
  "draw \<Rightarrow> user \<Rightarrow> string \<Rightarrow> uid option \<Rightarrow> string \<Rightarrow> string \<Rightarrow> bool \<Rightarrow> string option \<Rightarrow> audit_log" where
  "route_action_entry dw actor action i pre path allowed error_code =
     \<lparr>al_id = audit_id dw, al_user_id = Some (user_id actor), al_username = Some (username actor),
      al_api_route = ''dynamic-route:'' @ pre @ ''/'' @ path,
      al_parameters = Some (route_action_parameters action i pre path error_code),
      al_allowed = allowed, al_error_message = error_code, al_time_process_ms = None\<rparr>"

definition audit_dynamic_route_action ::
  "draw \<Rightarrow> user \<Rightarrow> string \<Rightarrow> uid option \<Rightarrow> string \<Rightarrow> string \<Rightarrow> bool \<Rightarrow> string option \<Rightarrow> unit dbp" where
  "audit_dynamic_route_action dw actor action i pre path allowed error_code =
     seq (create_audit_row (route_action_entry dw actor action i pre path allowed error_code)) (\<lambda>_. commit)"

lemma route_action_entry_fits:
  "user_fits actor \<Longrightarrow>
   audit_fits (route_action_entry dw actor action i pre path allowed ec) \<longleftrightarrow> length pre + length path \<le> 485"
  by (auto simp: route_action_entry_def audit_fits_def user_fits_def within_def)

lemma route_action_parameters_json: "row_json_ok (route_action_parameters action i pre path ec)"
  by (auto simp: row_json_ok_def route_action_parameters_def split: option.splits)

text \<open>The outcome of auditing a route action, on what the other transactions have committed by then.\<close>

lemma audit_route_action_outcome:
  assumes "clean s" "user_fits actor"
  shows "audit_dynamic_route_action dw actor action i pre path allowed ec s =
     (let s' = let_others s; d = insert_audit (route_action_entry dw actor action i pre path allowed ec) (committed s') in
      if 485 < length pre + length path then (Inl (SqlaErr ''DataError''), s')
      else if audit_id dw \<in> al_id ` set (audit_logs (committed s')) \<or> user_id actor \<notin> user_id ` set (users (committed s'))
      then (Inl IntegrityErr, s')
      else (Inr (), s'\<lparr>working := d, committed := d\<rparr>))"
proof -
  have fits: "audit_fits (route_action_entry dw actor action i pre path allowed ec) \<longleftrightarrow> length pre + length path \<le> 485"
    by (rule route_action_entry_fits [OF assms(2)])
  have ids: "al_id (route_action_entry dw actor action i pre path allowed ec) = audit_id dw"
    "al_user_id (route_action_entry dw actor action i pre path allowed ec) = Some (user_id actor)"
    by (simp_all add: route_action_entry_def)
  show ?thesis
    using audit_commit [OF assms(1), of "route_action_entry dw actor action i pre path allowed ec"]
    by (simp add: audit_dynamic_route_action_def Let_def fits ids refers_def not_le)
qed

end
