(* ===== verification/Dynamic_Routes.thy ===== *)
theory Dynamic_Routes
  imports Audit_Service
begin

text \<open>
  Dynamic routes: the request schema (\<open>app/schemas/dynamic_route.py\<close>), the service that stores
  them and executes their revalidated SQL (\<open>services/query_engine/dynamic_routes.py\<close>) and the
  endpoints of the administration and execution routers. sqlglot, the bind scan of SQLAlchemy,
  the pydantic codec and the two query clients are parameters, gathered in a record.
\<close>

section \<open>The schema\<close>

record route_write =
  rw_prefix :: string
  rw_path :: string
  rw_sql :: string
  rw_params :: param_defs
  rw_description :: string
  rw_db_type :: database_type
  rw_pii_type :: "pii_column option"
  rw_response_type :: response_type
  rw_lab_test :: bool
  rw_lab_test_params :: row

definition RESERVED_PREFIXES :: "string list" where
  "RESERVED_PREFIXES = [''dynamic-routes'']"

definition PAGINATION_PARAMETERS :: "string list" where
  "PAGINATION_PARAMETERS = [''page'', ''page_size'', ''__dynamic_page_size'', ''__dynamic_offset'']"

definition normalize_prefix :: "string \<Rightarrow> string" where
  "normalize_prefix v = py_lower (py_strip v)"

definition validate_prefix :: "string \<Rightarrow> bool" where
  "validate_prefix v \<longleftrightarrow> is_slug v \<and> v \<notin> set RESERVED_PREFIXES"

definition validate_path :: "string \<Rightarrow> bool" where
  "validate_path v \<longleftrightarrow> v = py_strip v \<and> \<not> startswith v ''/'' \<and> \<not> endswith v ''/'' \<and>
     list_all (\<lambda>seg. seg \<noteq> [] \<and> seg \<notin> {''.'', ''..''}) (py_split (CHR ''/'') v)"

definition validate_parameter_names :: "param_defs \<Rightarrow> bool" where
  "validate_parameter_names ps \<longleftrightarrow> list_all is_identifier (dkeys ps)"

definition validate_paginated_names :: "route_write \<Rightarrow> bool" where
  "validate_paginated_names w \<longleftrightarrow>
     (rw_response_type w = Paginated \<longrightarrow> list_all (\<lambda>n. n \<notin> set PAGINATION_PARAMETERS) (dkeys (rw_params w)))"

text \<open>
  The request model: a raw body, its fields already of their types, is accepted with a
  normalised prefix, or rejected. An exception that is not a validation error, raised by the
  validator of a parameter definition, leaves the model.
\<close>

definition route_write_schema :: "route_write \<Rightarrow> exn + route_write" where
  "route_write_schema raw =
     (let w = raw\<lparr>rw_prefix := normalize_prefix (rw_prefix raw)\<rparr> in
      case map_res (\<lambda>(n, d). validate_default d) (rw_params w) of
        Inl (ModelValidationErr issues) \<Rightarrow> Inl (RequestValidationErr issues)
      | Inl e \<Rightarrow> Inl e
      | Inr ds \<Rightarrow>
          if 3 \<le> length (rw_prefix w) \<and> length (rw_prefix w) \<le> 50 \<and> validate_prefix (rw_prefix w) \<and>
             1 \<le> length (rw_path w) \<and> length (rw_path w) \<le> 500 \<and> validate_path (rw_path w) \<and>
             1 \<le> length (rw_sql w) \<and> validate_parameter_names (rw_params w) \<and> validate_paginated_names w
          then Inr w else Inl (RequestValidationErr []))"

section \<open>The environment of the service\<close>

text \<open>
  Trino answers its \<open>k\<close>-th query of a request; Postgres queries see the rows of the session.
\<close>

record query_clients =
  trino_execute :: "nat \<Rightarrow> bound_statement \<Rightarrow> row \<Rightarrow> exn + row list"
  postgres_execute :: "db \<Rightarrow> bound_statement \<Rightarrow> row \<Rightarrow> exn + row list"

record 'n route_env =
  env_sqlglot :: "'n sqlglot"
  env_text_binds :: "string \<Rightarrow> string list"
  env_codec :: definition_codec
  env_clients :: query_clients
  env_cache :: account_map

definition client_execute ::
  "query_clients \<Rightarrow> nat \<Rightarrow> database_type \<Rightarrow> bound_statement \<Rightarrow> row \<Rightarrow> row list dbp" where
  "client_execute cl k dbt stmt params =
     (case dbt of
        DbTrino \<Rightarrow> embed (trino_execute cl k stmt params)
      | DbPostgres \<Rightarrow> seq (select (\<lambda>d. postgres_execute cl d stmt params)) (\<lambda>r. embed r))"

section \<open>The service\<close>

definition route_exists_error :: exn where
  "route_exists_error = conflict_error ''Dynamic route already exists'' ''dynamic_route_exists''"

definition route_error :: "exn \<Rightarrow> exn" where
  "route_error e = (if e = IntegrityErr then route_exists_error else e)"

definition run_lab_test_if_requested :: "'n route_env \<Rightarrow> route_write \<Rightarrow> string \<Rightarrow> unit dbp" where
  "run_lab_test_if_requested env w canonical =
     (if \<not> rw_lab_test w then ret ()
      else seq (embed (cast_parameter_values (rw_params w) (RawMapping (rw_lab_test_params w)))) (\<lambda>parameters.
           seq (embed (build_bound_statement (env_text_binds env) canonical (rw_params w))) (\<lambda>stmt.
           seq (client_execute (env_clients env) 0 (rw_db_type w) stmt parameters) (\<lambda>_. ret ()))))"

definition new_route :: "definition_codec \<Rightarrow> uid \<Rightarrow> route_write \<Rightarrow> string \<Rightarrow> uid \<Rightarrow> dynamic_route" where
  "new_route dc i w canonical actor =
     \<lparr>dr_id = i, dr_prefix = rw_prefix w, dr_path = rw_path w, dr_description = rw_description w,
      dr_original_sql = rw_sql w, dr_canonical_sql = canonical,
      dr_parameter_definitions = serialize_definitions dc (rw_params w), dr_db_type = rw_db_type w,
      dr_pii_type = rw_pii_type w, dr_response_type = rw_response_type w,
      dr_created_by = Some actor, dr_updated_by = Some actor, dr_created_at = 0, dr_updated_at = 0\<rparr>"

definition create_route :: "'n route_env \<Rightarrow> uid \<Rightarrow> route_write \<Rightarrow> user \<Rightarrow> dynamic_route dbp" where
  "create_route env new_id w actor =
     seq (embed (validate (env_sqlglot env) (db_type_value (rw_db_type w)) (rw_sql w))) (\<lambda>v.
     seq (embed (validate_parameter_contract (parameter_names v) (rw_params w))) (\<lambda>_.
     seq (get_by_route (rw_prefix w) (rw_path w)) (\<lambda>existing.
     if existing \<noteq> None then raise route_exists_error
     else atomically commit rollback
            (seq (run_lab_test_if_requested env w (canonical_sql v)) (\<lambda>_.
             create_route_row (new_route (env_codec env) new_id w (canonical_sql v) (user_id actor))))
            route_error)))"

definition get_route :: "uid \<Rightarrow> dynamic_route dbp" where
  "get_route i =
     seq (get_route_by_id i) (\<lambda>r. case r of
       None \<Rightarrow> raise (not_found_error ''Dynamic route'') | Some x \<Rightarrow> ret x)"

definition list_routes :: "dynamic_route list dbp" where
  "list_routes = list_all_routes"

definition route_assignments :: "definition_codec \<Rightarrow> route_write \<Rightarrow> string \<Rightarrow> uid \<Rightarrow> route_assignment list" where
  "route_assignments dc w canonical actor =
     [(\<lambda>r. r\<lparr>dr_prefix := rw_prefix w\<rparr>), (\<lambda>r. r\<lparr>dr_path := rw_path w\<rparr>),
      (\<lambda>r. r\<lparr>dr_description := rw_description w\<rparr>), (\<lambda>r. r\<lparr>dr_original_sql := rw_sql w\<rparr>),
      (\<lambda>r. r\<lparr>dr_canonical_sql := canonical\<rparr>),
      (\<lambda>r. r\<lparr>dr_parameter_definitions := serialize_definitions dc (rw_params w)\<rparr>),
      (\<lambda>r. r\<lparr>dr_db_type := rw_db_type w\<rparr>), (\<lambda>r. r\<lparr>dr_pii_type := rw_pii_type w\<rparr>),
      (\<lambda>r. r\<lparr>dr_response_type := rw_response_type w\<rparr>), (\<lambda>r. r\<lparr>dr_updated_by := Some actor\<rparr>)]"

definition update_route :: "'n route_env \<Rightarrow> uid \<Rightarrow> route_write \<Rightarrow> user \<Rightarrow> dynamic_route dbp" where
  "update_route env i w actor =
     seq (get_route i) (\<lambda>route.
     seq (embed (validate (env_sqlglot env) (db_type_value (rw_db_type w)) (rw_sql w))) (\<lambda>v.
     seq (embed (validate_parameter_contract (parameter_names v) (rw_params w))) (\<lambda>_.
     seq (get_by_route (rw_prefix w) (rw_path w)) (\<lambda>collision.
     if (case collision of None \<Rightarrow> False | Some c \<Rightarrow> dr_id c \<noteq> dr_id route) then raise route_exists_error
     else atomically commit rollback
            (seq (run_lab_test_if_requested env w (canonical_sql v)) (\<lambda>_.
             update_route_row route (route_assignments (env_codec env) w (canonical_sql v) (user_id actor))))
            route_error))))"

definition delete_route :: "uid \<Rightarrow> dynamic_route dbp" where
  "delete_route i =
     seq (get_route i) (\<lambda>route.
       atomically commit rollback (seq (delete_route_row route) (\<lambda>_. ret route)) (\<lambda>e. e))"

section \<open>Pagination\<close>

definition parse_pagination_value :: "(string \<times> string) list \<Rightarrow> string \<Rightarrow> int \<Rightarrow> int option \<Rightarrow> exn + int" where
  "parse_pagination_value items name dflt maximum =
     (let given = getlist items name;
          invalid = invalid_parameter (''Parameter '' @ quoted name @ '' is not a valid pagination value'')
                      [(''parameter'', PStr name)]
      in if given = [] then Inr dflt
         else if length given \<noteq> 1 \<or> \<not> py_isdigit (hd given) then Inl invalid
         else case py_int_of_str (hd given) of
             None \<Rightarrow> Inl invalid
           | Some v \<Rightarrow>
               if v < 1 \<or> (case maximum of None \<Rightarrow> False | Some mx \<Rightarrow> mx < v) then Inl invalid else Inr v)"

definition extract_pagination ::
  "(string \<times> string) list \<Rightarrow> response_type \<Rightarrow> exn + ((string \<times> string) list \<times> int option \<times> int option)" where
  "extract_pagination items rt =
     (case rt of
        Data \<Rightarrow> Inr (items, None, None)
      | Paginated \<Rightarrow>
          rbind (parse_pagination_value items ''page'' 1 None) (\<lambda>pg.
          rbind (parse_pagination_value items ''page_size'' 100 (Some 1000)) (\<lambda>sz.
            Inr (filter (\<lambda>(n, v). n \<notin> {''page'', ''page_size''}) items, Some pg, Some sz))))"

text \<open>\<open>int(value)\<close>\<close>

fun py_int :: "pyval \<Rightarrow> exn + int" where
  "py_int (PInt i) = Inr i"
| "py_int (PBool b) = Inr (if b then 1 else 0)"
| "py_int (PStr s) = (case py_int_of_str s of None \<Rightarrow> Inl (ValueErr ''invalid literal for int()'') | Some i \<Rightarrow> Inr i)"
| "py_int (PFloat (FFin neg mant e)) =
     Inr (with_sign neg (if 0 \<le> e then mant * 2 ^ nat e else mant div 2 ^ nat (- e)))"
| "py_int (PFloat (FInf neg)) = Inl OverflowErr"
| "py_int (PFloat FNaN) = Inl (ValueErr ''cannot convert float NaN to integer'')"
| "py_int _ = Inl TypeErr"

definition extract_total :: "row list \<Rightarrow> exn + int" where
  "extract_total rows =
     (case rows of
        [r] \<Rightarrow>
          (case find (\<lambda>(n, v). py_casefold n = ''total'') r of
             Some (n, v) \<Rightarrow> py_int v
           | None \<Rightarrow> Inl (RuntimeErr ''Pagination count query did not return total''))
      | _ \<Rightarrow> Inl (RuntimeErr ''Pagination count query returned an invalid result''))"

section \<open>Execution\<close>

definition count_sql :: "string \<Rightarrow> string" where
  "count_sql canonical = ''SELECT COUNT(*) AS total FROM ('' @ canonical @ '') AS dynamic_route_count''"

definition paginated_sql :: "string \<Rightarrow> string" where
  "paginated_sql canonical =
     ''SELECT * FROM ('' @ canonical @
     '') AS dynamic_route_data LIMIT :__dynamic_page_size OFFSET :__dynamic_offset''"

datatype route_result =
    DataRows "row list" "missing_mapping list"
  | PaginatedRows "row list" int int int int "missing_mapping list"
    \<comment> \<open>rows, total, page, page size, total pages\<close>

fun result_missing :: "route_result \<Rightarrow> missing_mapping list" where
  "result_missing (DataRows _ ms) = ms"
| "result_missing (PaginatedRows _ _ _ _ _ ms) = ms"

definition map_pii :: "account_map \<Rightarrow> dynamic_route \<Rightarrow> row list \<Rightarrow> exn + row list \<times> missing_mapping list" where
  "map_pii cache route rows =
     (case dr_pii_type route of
        None \<Rightarrow> Inr (rows, [])
      | Some c \<Rightarrow> map_pii_fields cache rows
          \<lparr>route_name = dr_api_path route, statement = dr_canonical_sql route,
           column_pii_rules = [(pii_column_value c, transform_by_token_length)]\<rparr>)"

definition run_paginated ::
  "'n route_env \<Rightarrow> dynamic_route \<Rightarrow> string \<Rightarrow> param_defs \<Rightarrow> row \<Rightarrow> int \<Rightarrow> int \<Rightarrow> route_result dbp" where
  "run_paginated env route canonical defs parameters pg sz =
     seq (embed (build_bound_statement (env_text_binds env) (count_sql canonical) defs)) (\<lambda>count_statement.
     seq (client_execute (env_clients env) 0 (dr_db_type route) count_statement parameters) (\<lambda>count_rows.
     seq (embed (extract_total count_rows)) (\<lambda>total.
     seq (embed (build_bound_statement (env_text_binds env) (paginated_sql canonical) defs)) (\<lambda>paginated_statement.
     seq (client_execute (env_clients env) 1 (dr_db_type route) paginated_statement
           (dput ''__dynamic_offset'' (PInt ((pg - 1) * sz)) (dput ''__dynamic_page_size'' (PInt sz) parameters))) (\<lambda>rows.
     seq (embed (map_pii (env_cache env) route rows)) (\<lambda>(rows', missing).
       ret (PaginatedRows rows' total pg sz ((total + sz - 1) div sz) missing)))))))"

definition execute_route ::
  "'n route_env \<Rightarrow> string \<Rightarrow> string \<Rightarrow> (string \<times> string) list \<Rightarrow> route_result dbp" where
  "execute_route env pre path raw_params =
     seq (get_by_route pre path) (\<lambda>found. case found of
       None \<Rightarrow> raise (not_found_error ''Dynamic route'')
     | Some route \<Rightarrow>
         seq (embed (validate (env_sqlglot env) (db_type_value (dr_db_type route)) (dr_canonical_sql route))) (\<lambda>v.
         seq (embed (deserialize_definitions (env_codec env) (dr_parameter_definitions route))) (\<lambda>defs.
         seq (embed (validate_parameter_contract (parameter_names v) defs)) (\<lambda>_.
         seq (embed (extract_pagination raw_params (dr_response_type route))) (\<lambda>(query, pg, sz).
         seq (embed (cast_parameter_values defs (QueryParams query))) (\<lambda>parameters.
         seq (embed (build_bound_statement (env_text_binds env) (canonical_sql v) defs)) (\<lambda>stmt.
         if dr_response_type route = Paginated
         then (case (pg, sz) of
                 (Some p, Some z) \<Rightarrow> run_paginated env route (canonical_sql v) defs parameters p z
               | _ \<Rightarrow> raise AssertionErr)
         else seq (client_execute (env_clients env) 0 (dr_db_type route) stmt parameters) (\<lambda>rows.
              seq (embed (map_pii (env_cache env) route rows)) (\<lambda>(rows', missing).
                ret (DataRows rows' missing))))))))))"

section \<open>Endpoints\<close>

record registered_route =
  reg_path :: "string option"
  reg_methods :: "string list option"

text \<open>\<open>_reject_static_get_collision\<close>\<close>

definition reject_static_get_collision :: "settings \<Rightarrow> registered_route list \<Rightarrow> string \<Rightarrow> string \<Rightarrow> exn + unit" where
  "reject_static_get_collision st registered pre path =
     (let effective_path = rstrip_char (CHR ''/'') (api_v1_prefix st) @ ''/'' @ pre @ ''/'' @ path in
      if list_ex (\<lambda>r. reg_path r = Some effective_path \<and>
            (case reg_methods r of None \<Rightarrow> False | Some ms \<Rightarrow> ''GET'' \<in> set ms) \<and>
            \<not> contains_str ''{path:path}'' effective_path) registered
      then Inl (conflict_error ''Dynamic route conflicts with a static GET endpoint'' ''dynamic_route_path_conflict'')
      else Inr ())"

record route_response =
  rr_route :: dynamic_route
  rr_params :: param_defs
  rr_api_path :: string

definition route_to_response :: "definition_codec \<Rightarrow> dynamic_route \<Rightarrow> exn + route_response" where
  "route_to_response dc r =
     rbind (validate_definitions dc (dr_parameter_definitions r)) (\<lambda>ps.
       Inr \<lparr>rr_route = r, rr_params = ps, rr_api_path = dr_api_path r\<rparr>)"

text \<open>Administrators only; the dependency opens the session the handler uses.\<close>

definition admin_session :: "crypto \<Rightarrow> settings \<Rightarrow> draw \<Rightarrow> string \<Rightarrow> (user \<Rightarrow> 'a dbp) \<Rightarrow> 'a dbp" where
  "admin_session cr st dw tok k =
     with_session (seq (get_current_user cr st dw tok) (\<lambda>u. seq (require_roles [RoleAdmin] u) k))"

text \<open>The common part of creating and updating: a rejected statement is audited before the error
  goes on, a success after it.\<close>

definition audited_write ::
  "definition_codec \<Rightarrow> draw \<Rightarrow> user \<Rightarrow> string \<Rightarrow> uid option \<Rightarrow> route_write \<Rightarrow> dynamic_route dbp \<Rightarrow> route_response dbp" where
  "audited_write dc dw admin action i w m =
     seq (handle m (\<lambda>e.
            if is_app_error DynamicSql e
            then seq (audit_dynamic_route_action dw admin action i (rw_prefix w) (rw_path w) False (Some (exn_code e)))
                     (\<lambda>_. raise e)
            else raise e)) (\<lambda>route.
     seq (audit_dynamic_route_action dw admin action (Some (dr_id route)) (dr_prefix route) (dr_path route) True None) (\<lambda>_.
       embed (route_to_response dc route)))"

definition create_dynamic_route_body ::
  "'n route_env \<Rightarrow> settings \<Rightarrow> draw \<Rightarrow> registered_route list \<Rightarrow> route_write \<Rightarrow> user \<Rightarrow> route_response dbp" where
  "create_dynamic_route_body env st dw registered w admin =
     seq (embed (reject_static_get_collision st registered (rw_prefix w) (rw_path w))) (\<lambda>_.
       audited_write (env_codec env) dw admin ''create'' None w (create_route env (fresh_id dw) w admin))"

definition update_dynamic_route_body ::
  "'n route_env \<Rightarrow> settings \<Rightarrow> draw \<Rightarrow> registered_route list \<Rightarrow> uid \<Rightarrow> route_write \<Rightarrow> user \<Rightarrow> route_response dbp" where
  "update_dynamic_route_body env st dw registered i w admin =
     seq (embed (reject_static_get_collision st registered (rw_prefix w) (rw_path w))) (\<lambda>_.
       audited_write (env_codec env) dw admin ''update'' (Some i) w (update_route env i w admin))"

definition create_dynamic_route_endpoint ::
  "'n route_env \<Rightarrow> crypto \<Rightarrow> settings \<Rightarrow> draw \<Rightarrow> registered_route list \<Rightarrow> string \<Rightarrow> exn + route_write \<Rightarrow> route_response dbp" where
  "create_dynamic_route_endpoint env cr st dw registered tok p =
     admin_session cr st dw tok (\<lambda>admin. seq (embed p) (\<lambda>w. create_dynamic_route_body env st dw registered w admin))"

definition update_dynamic_route_endpoint ::
  "'n route_env \<Rightarrow> crypto \<Rightarrow> settings \<Rightarrow> draw \<Rightarrow> registered_route list \<Rightarrow> string \<Rightarrow> uid \<Rightarrow> exn + route_write \<Rightarrow> route_response dbp" where
  "update_dynamic_route_endpoint env cr st dw registered tok i p =
     admin_session cr st dw tok (\<lambda>admin. seq (embed p) (\<lambda>w. update_dynamic_route_body env st dw registered i w admin))"

definition list_dynamic_routes_endpoint ::
  "definition_codec \<Rightarrow> crypto \<Rightarrow> settings \<Rightarrow> draw \<Rightarrow> string \<Rightarrow> (route_response list \<times> nat) dbp" where
  "list_dynamic_routes_endpoint dc cr st dw tok =
     admin_session cr st dw tok (\<lambda>_. seq list_routes (\<lambda>rs.
       seq (embed (map_res (route_to_response dc) rs)) (\<lambda>out. ret (out, length rs))))"

definition get_dynamic_route_endpoint ::
  "definition_codec \<Rightarrow> crypto \<Rightarrow> settings \<Rightarrow> draw \<Rightarrow> string \<Rightarrow> uid \<Rightarrow> route_response dbp" where
  "get_dynamic_route_endpoint dc cr st dw tok i =
     admin_session cr st dw tok (\<lambda>_. seq (get_route i) (\<lambda>r. embed (route_to_response dc r)))"

definition delete_dynamic_route_endpoint :: "crypto \<Rightarrow> settings \<Rightarrow> draw \<Rightarrow> string \<Rightarrow> uid \<Rightarrow> unit dbp" where
  "delete_dynamic_route_endpoint cr st dw tok i =
     admin_session cr st dw tok (\<lambda>admin. seq (delete_route i) (\<lambda>route.
       audit_dynamic_route_action dw admin ''delete'' (Some (dr_id route)) (dr_prefix route) (dr_path route) True None))"

text \<open>
  The execution endpoint returns the result with its background task: the audit of missing
  mappings, which runs after the response.
\<close>

definition missing_task :: "draw \<Rightarrow> user \<Rightarrow> string \<Rightarrow> string \<Rightarrow> (string \<times> string) list \<Rightarrow> route_result \<Rightarrow> unit dbp option" where
  "missing_task dw u pre path query res =
     (if result_missing res \<noteq> []
      then Some (audit_missing_mappings dw u (''dynamic-route:'' @ pre @ ''/'' @ path)
                   [(''parameter_names'', str_list (py_sorted_set (query_keys query)))] (result_missing res))
      else None)"

definition execute_dynamic_route_endpoint ::
  "'n route_env \<Rightarrow> crypto \<Rightarrow> settings \<Rightarrow> draw \<Rightarrow> http_request \<Rightarrow> string \<Rightarrow> string \<Rightarrow> string \<Rightarrow>
   (route_result \<times> unit dbp option) dbp" where
  "execute_dynamic_route_endpoint env cr st dw rq tok pre path =
     with_session (seq (get_current_user cr st dw tok) (\<lambda>u.
     seq (require_api_permission st dw rq u) (\<lambda>authorized.
     seq (execute_route env pre path (query_params rq)) (\<lambda>res.
       ret (res, missing_task dw authorized pre path (query_params rq) res)))))"

section \<open>Facts about the schema\<close>

lemma empty_segment_contains: "contains_str ''//'' p \<Longrightarrow> [] \<in> set (tl (py_split (CHR ''/'') p))"
proof (induction p)
  case (Cons c cs)
  show ?case
  proof (cases "startswith (c # cs) ''//''")
    case True
    then obtain r where "c # cs = CHR ''/'' # CHR ''/'' # r" by (auto simp: startswith_iff)
    then show ?thesis by auto
  next
    case False
    with Cons have IH: "[] \<in> set (tl (py_split (CHR ''/'') cs))" by simp
    obtain w ws where split: "py_split (CHR ''/'') cs = w # ws" by (cases "py_split (CHR ''/'') cs") auto
    with IH show ?thesis by auto
  qed
qed simp

lemma validate_path_constraints:
  "validate_path p \<Longrightarrow> \<not> startswith p ''/'' \<and> \<not> endswith p ''/'' \<and> \<not> contains_str ''//'' p \<and> p \<noteq> []"
proof -
  assume v: "validate_path p"
  have "[] \<notin> set (py_split (CHR ''/'') p)" using v by (auto simp: validate_path_def list_all_iff)
  then have "\<not> contains_str ''//'' p" using empty_segment_contains [of p] by (cases "py_split (CHR ''/'') p") auto
  moreover have "p \<noteq> []" using v by (auto simp: validate_path_def)
  ultimately show ?thesis using v by (simp add: validate_path_def)
qed

lemma map_res_pairs: "map_res (\<lambda>(n, d). f d) ps = map_res f (map snd ps)"
  by (induction ps) auto

lemma route_write_schema_InrE:
  assumes "route_write_schema raw = Inr w"
  obtains "w = raw\<lparr>rw_prefix := normalize_prefix (rw_prefix raw)\<rparr>" "validate_prefix (rw_prefix w)"
    "validate_path (rw_path w)" "length (rw_prefix w) \<le> 50" "length (rw_path w) \<le> 500"
    "validate_parameter_names (rw_params w)" "validate_paginated_names w"
    "\<forall>(n, d) \<in> set (rw_params w). validate_default d = Inr d"
proof -
  let ?w = "raw\<lparr>rw_prefix := normalize_prefix (rw_prefix raw)\<rparr>"
  obtain ds where ds: "map_res (\<lambda>(n, d). validate_default d) (rw_params ?w) = Inr ds"
    using assms by (auto simp: route_write_schema_def Let_def split: sum.splits exn.splits)
  have all: "\<forall>(n, d) \<in> set (rw_params ?w). validate_default d = Inr d"
  proof clarify
    fix n d assume "(n, d) \<in> set (rw_params ?w)"
    then obtain d' where "validate_default d = Inr d'"
      using ds by (auto simp: map_res_Inr_iff list_all2_conv_all_nth in_set_conv_nth split: prod.splits)
    then show "validate_default d = Inr d" using validate_default_Inr(1) by blast
  qed
  show thesis
    by (rule that) (use assms ds all in \<open>auto simp: route_write_schema_def Let_def split: if_splits\<close>)
qed

text \<open>A payload the schema accepted satisfies the check constraints of the table.\<close>

definition payload_valid :: "route_write \<Rightarrow> bool" where
  "payload_valid w \<longleftrightarrow> py_lower (rw_prefix w) = rw_prefix w \<and> is_slug (rw_prefix w) \<and> validate_path (rw_path w) \<and>
     length (rw_prefix w) \<le> 50 \<and> length (rw_path w) \<le> 500 \<and> defs_valid (rw_params w) \<and>
     list_all is_identifier (dkeys (rw_params w)) \<and> validate_paginated_names w"

lemma schema_payload_valid:
  assumes "route_write_schema raw = Inr w" "distinct (dkeys (rw_params raw))"
  shows "payload_valid w"
proof (rule route_write_schema_InrE [OF assms(1)])
  assume w: "w = raw\<lparr>rw_prefix := normalize_prefix (rw_prefix raw)\<rparr>" "validate_prefix (rw_prefix w)"
    "validate_path (rw_path w)" "length (rw_prefix w) \<le> 50" "length (rw_path w) \<le> 500"
    "validate_parameter_names (rw_params w)" "validate_paginated_names w"
    "\<forall>(n, d) \<in> set (rw_params w). validate_default d = Inr d"
  then show ?thesis
    using assms(2) by (simp add: payload_valid_def validate_prefix_def normalize_prefix_def defs_valid_def
        validate_parameter_names_def)
qed

lemma new_route_row_ok: "payload_valid w \<Longrightarrow> route_row_ok (new_route dc i w c a) \<and> route_fits (new_route dc i w c a)"
  using validate_path_constraints [of "rw_path w"]
  by (simp add: payload_valid_def new_route_def route_row_ok_def route_fits_def)

section \<open>Facts about storing routes\<close>

lemma reads_only_client [reads_intros]: "reads_only (client_execute cl k dbt stmt params)"
  unfolding client_execute_def by (cases dbt) (simp_all add: reads_intros)

lemma reads_only_lab_test [reads_intros]: "reads_only (run_lab_test_if_requested env w c)"
  unfolding run_lab_test_if_requested_def by (intro reads_intros)

lemma reads_only_get_route [reads_intros]: "reads_only (get_route i)"
  unfolding get_route_def by (intro reads_intros)

definition fresh_route :: "dynamic_route \<Rightarrow> db \<Rightarrow> bool" where
  "fresh_route r d \<longleftrightarrow> dr_id r \<notin> dr_id ` set (routes d) \<and> route_key r \<notin> route_key ` set (routes d) \<and>
     refers (user_id ` set (users d)) (dr_created_by r) \<and> refers (user_id ` set (users d)) (dr_updated_by r)"

lemma db_ok_insert_route: "db_ok d \<Longrightarrow> route_row_ok r \<Longrightarrow> db_ok (insert_route r d) \<longleftrightarrow> fresh_route r d"
  by (auto simp: db_ok_def routes_ok_def insert_route_def fresh_route_def)

lemma all_fit_insert_route: "all_fit d \<Longrightarrow> all_fit (insert_route r d) \<longleftrightarrow> route_fits r"
  by (simp add: all_fit_def insert_route_def)

definition stamped_route :: "int \<Rightarrow> dynamic_route \<Rightarrow> dynamic_route" where
  "stamped_route t r = r\<lparr>dr_created_at := t, dr_updated_at := t\<rparr>"

lemma stamped_route_ok:
  "route_row_ok (stamped_route t r) = route_row_ok r" "route_fits (stamped_route t r) = route_fits r"
  "route_key (stamped_route t r) = route_key r"
  by (simp_all add: stamped_route_def route_row_ok_def route_fits_def route_key_def)

lemma atomic_raise:
  "m s = (Inl e, s1) \<Longrightarrow> clean s1 \<Longrightarrow> atomically commit rollback m err s = (Inl (err e), s1)"
  using clean_rollback_id [of s1] by (simp add: atomically_def handle_def seq_def)

lemma create_route_row_atomic:
  assumes "clean s" "route_row_ok r" "route_fits r"
  shows "atomically commit rollback (create_route_row r) err s =
     (let s' = let_others s; r' = stamped_route (now s) r; d = insert_route r' (committed s') in
      if fresh_route r' (committed s') then (Inr r', s'\<lparr>working := d, committed := d\<rparr>)
      else (Inl (err IntegrityErr), s'))"
proof -
  have c: "clean (let_others s)" by (rule clean_let_others [OF assms(1)])
  have g: "good_db (committed (let_others s))" by (rule clean_good [OF c])
  have row: "create_route_row r s = add_row insert_route find_route dr_id (stamped_route (now s) r) s"
    by (simp add: create_route_row_def seq_def stamped_route_def Let_def)
  show ?thesis
    using g assms clean_working [OF c] c clean_rollback_id [OF c]
    by (simp add: atomically_def handle_def seq_def row route_insert.add_row_eq Let_def good_db_def
        all_fit_insert_route db_ok_insert_route stamped_route_ok commit_def clean_def)
qed

lemma atomically_seq_read:
  "m s = (Inr x, s1) \<Longrightarrow> atomically commit rollback (seq m k) err s = atomically commit rollback (k x) err s1"
  by (simp add: atomically_def handle_def seq_def)

text \<open>The stages of creating a route, for a session at rest.\<close>

definition route_created :: "'n route_env \<Rightarrow> uid \<Rightarrow> route_write \<Rightarrow> user \<Rightarrow> store \<Rightarrow> dynamic_route \<Rightarrow> store \<Rightarrow> bool" where
  "route_created env i w actor s r t \<longleftrightarrow>
     (\<exists>v s'. validate (env_sqlglot env) (db_type_value (rw_db_type w)) (rw_sql w) = Inr v \<and>
        set (parameter_names v) = set (dkeys (rw_params w)) \<and> only_others s s' \<and>
        r = stamped_route (now s') (new_route (env_codec env) i w (canonical_sql v) (user_id actor)) \<and>
        committed t = insert_route r (committed s') \<and> others t = others s')"

lemma create_route_outcome:
  assumes "clean s" "payload_valid w" "create_route env i w actor s = (res, t)"
  shows "clean t \<and> ((\<exists>r. res = Inr r \<and> route_created env i w actor s r t) \<or>
     (\<exists>e. res = Inl e \<and> only_others s t))"
proof (cases "validate (env_sqlglot env) (db_type_value (rw_db_type w)) (rw_sql w)")
  case (Inl e)
  with assms show ?thesis by (auto simp: create_route_def seq_def)
next
  case (Inr v)
  show ?thesis
  proof (cases "validate_parameter_contract (parameter_names v) (rw_params w)")
    case (Inl e)
    with Inr assms show ?thesis by (auto simp: create_route_def seq_def)
  next
    case contract: (Inr u)
    then have names: "set (parameter_names v) = set (dkeys (rw_params w))"
      by (simp add: validate_parameter_contract_iff)
    let ?new = "new_route (env_codec env) i w (canonical_sql v) (user_id actor)"
    obtain found s1 where look: "get_by_route (rw_prefix w) (rw_path w) s = (Inr found, s1)"
      using route_by_key.lookup_find [OF clean_store_ok [OF assms(1)], of "(rw_prefix w, rw_path w)"] by simp
    have s1: "clean s1" "only_others s s1"
      using reads_onlyD [OF reads_only_lookups(7) assms(1) look] by auto
    obtain lab s2 where lab: "run_lab_test_if_requested env w (canonical_sql v) s1 = (lab, s2)" by force
    have s2: "clean s2" "only_others s s2"
      using reads_onlyD [OF reads_only_lab_test s1(1) lab] only_others_trans [OF s1(2)] by auto
    have run: "(res, t) = (if found \<noteq> None then (Inl route_exists_error, s1)
        else atomically commit rollback (seq (run_lab_test_if_requested env w (canonical_sql v)) (\<lambda>_. create_route_row ?new)) route_error s1)"
      using assms(3) Inr contract look by (cases "found = None") (auto simp: create_route_def seq_def)
    show ?thesis
    proof (cases "found = None")
      case False
      with run s1 show ?thesis by auto
    next
      case True
      show ?thesis
      proof (cases lab)
        case (Inl e)
        then have "seq (run_lab_test_if_requested env w (canonical_sql v)) (\<lambda>_. create_route_row ?new) s1 = (Inl e, s2)"
          using lab by (simp add: seq_def)
        with atomic_raise [of "seq (run_lab_test_if_requested env w (canonical_sql v)) (\<lambda>_. create_route_row ?new)" s1 e s2 route_error]
          s2 run True show ?thesis by auto
      next
        case (Inr x)
        let ?s3 = "let_others s2" and ?r = "stamped_route (now s2) ?new"
        have s3: "clean ?s3" "only_others s ?s3"
          using clean_let_others [OF s2(1)] only_others_let_others [OF s2(1)] only_others_trans [OF s2(2)] by auto
        have "(res, t) = (let d = insert_route ?r (committed ?s3) in
            if fresh_route ?r (committed ?s3) then (Inr ?r, ?s3\<lparr>working := d, committed := d\<rparr>)
            else (Inl (route_error IntegrityErr), ?s3))"
          using run True atomically_seq_read [of "run_lab_test_if_requested env w (canonical_sql v)" s1 x s2
              "\<lambda>_. create_route_row ?new" route_error] lab Inr
            create_route_row_atomic [OF s2(1), of ?new route_error] new_route_row_ok [OF assms(2)]
          by (simp add: Let_def)
        moreover have "good_db (insert_route ?r (committed ?s3))" if "fresh_route ?r (committed ?s3)"
          using that clean_good [OF s3(1)] new_route_row_ok [OF assms(2)]
          by (simp add: good_db_def db_ok_insert_route all_fit_insert_route stamped_route_ok)
        ultimately show ?thesis
          using s3 names \<open>validate _ _ _ = Inr v\<close> clean_commit_good [OF s3(1)]
          by (cases "fresh_route ?r (committed ?s3)") (auto simp: route_created_def Let_def intro!: exI [of _ ?s3])
      qed
    qed
  qed
qed

section \<open>Facts about pagination\<close>

lemma parse_pagination_value_Inr:
  assumes "parse_pagination_value items name dflt mx = Inr v"
  shows "(getlist items name = [] \<and> v = dflt) \<or>
     (1 \<le> v \<and> (\<forall>m. mx = Some m \<longrightarrow> v \<le> m) \<and> (\<exists>s. getlist items name = [s] \<and> py_int_of_str s = Some v))"
  using assms
  by (auto simp: parse_pagination_value_def Let_def length_Suc_conv split: if_splits option.splits)

lemma parse_pagination_value_error:
  "parse_pagination_value items name dflt mx = Inl e \<Longrightarrow> \<exists>m d. e = invalid_parameter m d"
  by (auto simp: parse_pagination_value_def Let_def split: if_splits option.splits)

lemma extract_pagination_Inr:
  assumes "extract_pagination items Paginated = Inr (q, pg, sz)"
  shows "\<exists>p z. pg = Some p \<and> sz = Some z \<and> 1 \<le> p \<and> 1 \<le> z \<and> z \<le> 1000 \<and>
     q = filter (\<lambda>(n, v). n \<notin> {''page'', ''page_size''}) items"
proof -
  from assms obtain p z where p: "parse_pagination_value items ''page'' 1 None = Inr p"
    and z: "parse_pagination_value items ''page_size'' 100 (Some 1000) = Inr z"
    and q: "pg = Some p" "sz = Some z" "q = filter (\<lambda>(n, v). n \<notin> {''page'', ''page_size''}) items"
    by (auto simp: extract_pagination_def rbind_Inr_iff)
  from parse_pagination_value_Inr [OF p] parse_pagination_value_Inr [OF z] q show ?thesis by auto
qed

lemma extract_pagination_error:
  "extract_pagination items rt = Inl e \<Longrightarrow> \<exists>m d. e = invalid_parameter m d"
  by (cases rt) (auto simp: extract_pagination_def rbind_Inl_iff dest: parse_pagination_value_error)

text \<open>The number of pages is the least that holds all rows.\<close>

lemma total_pages_exact:
  fixes n z :: int
  assumes "0 < z"
  shows "(n + z - 1) div z * z \<ge> n \<and> ((n + z - 1) div z - 1) * z < n"
proof -
  let ?q = "(n + z - 1) div z * z"
  have "?q + (n + z - 1) mod z = n + z - 1" by (rule div_mult_mod_eq)
  moreover have "0 \<le> (n + z - 1) mod z" "(n + z - 1) mod z < z" using assms by simp_all
  moreover have "((n + z - 1) div z - 1) * z = ?q - z" by (simp add: left_diff_distrib)
  ultimately show ?thesis by linarith
qed

section \<open>Facts about execution\<close>

text \<open>
  Clients that agree on the statements the policy allows: the validated text itself, and the
  count and page queries around it.
\<close>

definition allowed_text :: "'n sqlglot \<Rightarrow> string \<Rightarrow> bool" where
  "allowed_text sg body \<longleftrightarrow>
     (\<exists>d c. accepts_text sg d c \<and> (body = c \<or> body = count_sql c \<or> body = paginated_sql c))"

definition clients_agree :: "'n sqlglot \<Rightarrow> query_clients \<Rightarrow> query_clients \<Rightarrow> bool" where
  "clients_agree sg cl cl' \<longleftrightarrow>
     (\<forall>stmt. allowed_text sg (stmt_text stmt) \<longrightarrow>
        (\<forall>k ps. trino_execute cl k stmt ps = trino_execute cl' k stmt ps) \<and>
        (\<forall>d ps. postgres_execute cl d stmt ps = postgres_execute cl' d stmt ps))"

lemma client_execute_agree:
  "clients_agree sg cl cl' \<Longrightarrow> allowed_text sg (stmt_text stmt) \<Longrightarrow>
   client_execute cl k dbt stmt ps = client_execute cl' k dbt stmt ps"
  by (cases dbt) (simp_all add: client_execute_def clients_agree_def)

lemma build_bound_statement_text:
  "build_bound_statement tb c defs = Inr stmt \<Longrightarrow> stmt_text stmt = c"
  by (auto simp: build_bound_statement_def rbind_Inr_iff split: if_splits)

lemma seq_cong_result: "m s = m' s \<Longrightarrow> (\<And>x t. m s = (Inr x, t) \<Longrightarrow> k x t = k' x t) \<Longrightarrow> seq m k s = seq m' k' s"
  by (cases "m' s") (auto simp: seq_def split: sum.splits)

lemma run_paginated_agree:
  assumes "clients_agree (env_sqlglot env) (env_clients env) cl'" "accepts_text (env_sqlglot env) d c"
  shows "run_paginated env route c defs ps pg sz s = run_paginated (env\<lparr>env_clients := cl'\<rparr>) route c defs ps pg sz s"
proof -
  have ok: "allowed_text (env_sqlglot env) (count_sql c)" "allowed_text (env_sqlglot env) (paginated_sql c)"
    using assms(2) by (auto simp: allowed_text_def)
  have agree: "client_execute (env_clients env) k dbt stmt ps = client_execute cl' k dbt stmt ps"
    if "build_bound_statement tb body defs = Inr stmt" "allowed_text (env_sqlglot env) body" for k dbt stmt ps tb body
    using client_execute_agree [OF assms(1)] build_bound_statement_text [OF that(1)] that(2) by simp
  show ?thesis
    unfolding run_paginated_def
    by (auto intro!: seq_cong_result simp: agree [OF _ ok(1)] agree [OF _ ok(2)])
qed

lemma execute_route_agree:
  assumes "clients_agree (env_sqlglot env) (env_clients env) cl'"
  shows "execute_route env pre path raw s = execute_route (env\<lparr>env_clients := cl'\<rparr>) pre path raw s"
proof -
  have accepts: "accepts_text (env_sqlglot env) d (canonical_sql v)"
    if "validate (env_sqlglot env) d body = Inr v" for d body v
    by (rule policy.kept_accepted [OF that])
  have agree: "client_execute (env_clients env) k dbt stmt ps = client_execute cl' k dbt stmt ps"
    if "build_bound_statement tb (canonical_sql v) defs = Inr stmt" "validate (env_sqlglot env) d body = Inr v"
    for k dbt stmt ps tb v defs d body
  proof -
    have "allowed_text (env_sqlglot env) (stmt_text stmt)"
      using build_bound_statement_text [OF that(1)] accepts [OF that(2)] unfolding allowed_text_def by blast
    then show ?thesis by (rule client_execute_agree [OF assms])
  qed
  show ?thesis
    unfolding execute_route_def
    by (auto intro!: seq_cong_result simp: agree run_paginated_agree [OF assms accepts] split: option.splits prod.splits)
qed

end
