(* ===== verification/Route_Execution.thy ===== *)
theory Route_Execution
  imports Dynamic_Routes
begin

text \<open>
  What the route service guarantees: creation is atomic and stores validated SQL, execution
  sends validated SQL only, a stored route runs as it was written, pagination is exact, and
  writes are audited.
\<close>

lemma seq_embed_Inr: "seq (embed (Inr x)) k = k x"
  by (simp add: seq_def embed_def fun_eq_iff)

lemma not_isl_pair: "\<not> isl (fst p) \<longleftrightarrow> (\<exists>x t. p = (Inr x, t))"
  by (cases p; cases "fst p") auto

lemma seq_embed_rbind: "seq (embed (rbind m f)) k = seq (embed m) (\<lambda>x. seq (embed (f x)) k)"
  by (cases m) (simp_all add: seq_def embed_def fun_eq_iff)

section \<open>A stored route\<close>

lemma route_created_facts:
  assumes "route_created env i w actor s r t"
  shows "route_key r = (rw_prefix w, rw_path w)" "dr_db_type r = rw_db_type w" "dr_pii_type r = rw_pii_type w"
    "dr_response_type r = rw_response_type w" "dr_original_sql r = rw_sql w"
    "dr_parameter_definitions r = serialize_definitions (env_codec env) (rw_params w)"
    "dr_created_by r = Some (user_id actor)" "dr_id r = i" "r \<in> set (routes (committed t))"
  using assms by (auto simp: route_created_def stamped_route_def new_route_def route_key_def insert_route_def)

lemma route_created_quiet:
  assumes "route_created env i w actor s r t" "others s = []"
  shows "others t = [] \<and> committed t = insert_route r (committed s)"
proof -
  from assms(1) obtain s' where "only_others s s'" "committed t = insert_route r (committed s')" "others t = others s'"
    unfolding route_created_def by blast
  with only_others_quiet [OF assms(2) this(1)] show ?thesis by simp
qed

lemma route_by_key_found:
  assumes "clean s" "r \<in> set (routes (committed (let_others s)))"
  shows "get_by_route (dr_prefix r) (dr_path r) s = (Inr (Some r), let_others s)"
proof -
  have c: "clean (let_others s)" by (rule clean_let_others [OF assms(1)])
  then have ok: "db_ok (committed (let_others s))" using clean_good by (simp add: good_db_def)
  have "find (\<lambda>q. dr_prefix q = dr_prefix r \<and> dr_path q = dr_path r) (routes (committed (let_others s))) = Some r"
  proof (cases "find (\<lambda>q. dr_prefix q = dr_prefix r \<and> dr_path q = dr_path r) (routes (committed (let_others s)))")
    case None
    with assms(2) show ?thesis by (auto simp: find_None_iff)
  next
    case (Some q)
    then have "q \<in> set (routes (committed (let_others s)))" "route_key q = route_key r"
      by (auto simp: find_Some_iff route_key_def)
    with ok assms(2) have "q = r" by (auto simp: db_ok_defs intro: distinct_map_key [of route_key])
    with Some show ?thesis by simp
  qed
  then show ?thesis
    using route_by_key.lookup_find [OF clean_store_ok [OF assms(1)], of "(dr_prefix r, dr_path r)"]
      clean_working [OF c] by simp
qed

lemma reads_only_client_execute [reads_intros]: "reads_only (client_execute qc k dbt stmt ps)"
  unfolding client_execute_def by (cases dbt) (auto intro: reads_intros)

lemma reads_only_execute_route [reads_intros]: "reads_only (execute_route env pre path raw)"
proof -
  have "reads_only (run_paginated env route canonical defs ps pg sz)" for route canonical defs ps pg sz
    unfolding run_paginated_def by (intro reads_intros) (auto intro!: reads_intros split: prod.splits)
  then show ?thesis
    unfolding execute_route_def by (intro reads_intros) (auto intro!: reads_intros split: prod.splits option.splits)
qed

section \<open>A concrete service\<close>

definition demo_env :: "string route_env" where
  "demo_env = \<lparr>env_sqlglot = demo_sqlglot, env_text_binds = colon_names, env_codec = demo_codec,
     env_clients = \<lparr>trino_execute = (\<lambda>k stmt ps. Inr [(''total'', PInt 205) # ps]),
       postgres_execute = (\<lambda>d stmt ps. Inr [])\<rparr>,
     env_cache = new_account_map\<rparr>"

definition demo_write :: "response_type \<Rightarrow> route_write" where
  "demo_write rt = \<lparr>rw_prefix = ''sales'', rw_path = ''daily'', rw_sql = ''SELECT :id'',
     rw_params = [(''id'', \<lparr>ptype = TInteger, required = True, default = PNone, pdescription = []\<rparr>)],
     rw_description = [], rw_db_type = DbTrino, rw_pii_type = None, rw_response_type = rt,
     rw_lab_test = False, rw_lab_test_params = []\<rparr>"

lemma demo_write_schema: "route_write_schema (demo_write rt) = Inr (demo_write rt)"
  by (cases rt) code_simp+

lemma demo_create_ok: "\<not> isl (fst (create_route demo_env 5 (demo_write Data) alice (demo_store [])))"
  by code_simp


lemma demo_created:
  obtains r t where "create_route demo_env 5 (demo_write Data) alice (demo_store []) = (Inr r, t)"
  using demo_create_ok by (auto simp: not_isl_pair)

section \<open>Properties\<close>

text \<open>C9: creating a dynamic route is atomic under any interference: either exactly one row is added
  to what other transactions committed, holding the accepted payload, the canonical text of the
  validated statement and the author, with a parameter contract that matches the statement; or
  the call fails and nothing but the others' work is committed.\<close>

theorem create_route_atomic:
  assumes "clean s" and "route_write_schema raw = Inr w" "distinct (dkeys (rw_params raw))"
    and "create_route env i w actor s = (res, t)"
  shows "clean t \<and>
     ((\<exists>v s' r. only_others s s' \<and> res = Inr r \<and> committed t = insert_route r (committed s') \<and>
         validate (env_sqlglot env) (db_type_value (rw_db_type w)) (rw_sql w) = Inr v \<and>
         set (parameter_names v) = set (dkeys (rw_params w)) \<and>
         r = stamped_route (now s) (new_route (env_codec env) i w (canonical_sql v) (user_id actor))) \<or>
      (\<exists>e. res = Inl e \<and> only_others s t))"
proof -
  from create_route_outcome [OF assms(1) schema_payload_valid [OF assms(2,3)] assms(4)]
  consider (made) r where "clean t" "res = Inr r" "route_created env i w actor s r t"
    | (failed) e where "clean t" "res = Inl e" "only_others s t" by blast
  then show ?thesis
  proof cases
    case made
    from made(3) obtain v s' where "validate (env_sqlglot env) (db_type_value (rw_db_type w)) (rw_sql w) = Inr v"
      "set (parameter_names v) = set (dkeys (rw_params w))" "only_others s s'"
      "r = stamped_route (now s') (new_route (env_codec env) i w (canonical_sql v) (user_id actor))"
      "committed t = insert_route r (committed s')" unfolding route_created_def by blast
    moreover from this(3) have "now s' = now s" by (simp add: only_others_def)
    ultimately show ?thesis using made by auto
  next
    case failed
    then show ?thesis by blast
  qed
qed

lemma demo_keys: "distinct (dkeys (rw_params (demo_write rt)))"
  by (simp add: demo_write_def)

theorem create_route_atomic_witness:
  "\<exists>r t. create_route demo_env 5 (demo_write Data) alice (demo_store []) = (Inr r, t) \<and> clean t \<and>
     dr_canonical_sql r = ''SELECT :id''"
proof (rule demo_created)
  fix r t assume run: "create_route demo_env 5 (demo_write Data) alice (demo_store []) = (Inr r, t)"
  from create_route_atomic [OF demo_quiet(1) demo_write_schema demo_keys this]
  obtain v where "clean t" "r = stamped_route (now (demo_store [])) (new_route (env_codec demo_env) 5 (demo_write Data) (canonical_sql v) (user_id alice))"
    "validate demo_sqlglot ''trino'' ''SELECT :id'' = Inr v" by (auto simp: demo_env_def demo_write_def)
  with run show ?thesis using demo_validate by (auto simp: stamped_route_def new_route_def)
qed

text \<open>C1: executing a route sends validated SQL only: two query clients that agree on the texts the
  policy accepts, and on the count and page queries around such a text, give the same outcome
  for every request in every state, whatever is stored in the table. A client's answer to any
  other text is never seen.\<close>

theorem execute_only_validated:
  assumes "clients_agree (env_sqlglot env) (env_clients env) cl"
  shows "execute_route env pre path raw s = execute_route (env\<lparr>env_clients := cl\<rparr>) pre path raw s"
  by (rule execute_route_agree [OF assms])

definition trapped_clients :: query_clients where
  "trapped_clients = \<lparr>trino_execute = (\<lambda>k stmt ps. if startswith (stmt_text stmt) ''SELECT''
       then trino_execute (env_clients demo_env) k stmt ps else Inl (RuntimeErr ''not a query'')),
     postgres_execute = postgres_execute (env_clients demo_env)\<rparr>"

theorem execute_only_validated_witness:
  "trapped_clients \<noteq> env_clients demo_env \<and>
   execute_route demo_env ''sales'' ''daily'' [] (demo_store []) =
     execute_route (demo_env\<lparr>env_clients := trapped_clients\<rparr>) ''sales'' ''daily'' [] (demo_store [])"
proof
  have "startswith body ''SELECT''" if "allowed_text demo_sqlglot body" for body
    using that by (auto simp: allowed_text_def accepts_text_def read_only_def demo_sqlglot_def count_sql_def
        paginated_sql_def startswith_def)
  then have "clients_agree (env_sqlglot demo_env) (env_clients demo_env) trapped_clients"
    by (simp add: clients_agree_def trapped_clients_def demo_env_def)
  then show "execute_route demo_env ''sales'' ''daily'' [] (demo_store []) =
     execute_route (demo_env\<lparr>env_clients := trapped_clients\<rparr>) ''sales'' ''daily'' [] (demo_store [])"
    by (rule execute_only_validated)
  have "trino_execute trapped_clients 0 \<lparr>stmt_text = ''DROP'', stmt_binds = []\<rparr> [] \<noteq>
      trino_execute (env_clients demo_env) 0 \<lparr>stmt_text = ''DROP'', stmt_binds = []\<rparr> []"
    by (simp add: trapped_clients_def demo_env_def startswith_def)
  then show "trapped_clients \<noteq> env_clients demo_env" by metis
qed


text \<open>C19: a created route works, also later and whatever else was committed meanwhile: as long as its
  row is there, a request for its prefix and path finds it and uses the payload it was created
  from, given that pydantic reads back the definitions it wrote. The policy is asked again about the stored canonical text; a text it refuses, or whose placeholders
  no longer match, ends with that error. Otherwise the text the policy gives is run on the database of the payload
  with the query cast by the payload's definitions, and the rows pass the payload's mapping. A paginated route counts all rows,
  then reads the page of the size and at the offset the request asks for, with \<open>page\<close> and \<open>page_size\<close>
  taken out of its parameters.\<close>

theorem created_route_executes:
  assumes "clean s" and "route_write_schema raw = Inr w" "distinct (dkeys (rw_params raw))"
    and "create_route env i w actor s = (Inr r, t)" and "codec_inverts (env_codec env) (rw_params w)"
    and "clean t'" "r \<in> set (routes (committed (let_others t')))"
  shows "(\<exists>v. validate (env_sqlglot env) (db_type_value (rw_db_type w)) (rw_sql w) = Inr v \<and> dr_canonical_sql r = canonical_sql v) \<and>
   execute_route env (rw_prefix w) (rw_path w) query t' =
     (let mapped = (\<lambda>rows. embed (case rw_pii_type w of None \<Rightarrow> Inr (rows, [])
        | Some c \<Rightarrow> map_pii_fields (env_cache env) rows
            \<lparr>route_name = ''/'' @ rw_prefix w @ ''/'' @ rw_path w, statement = dr_canonical_sql r,
             column_pii_rules = [(pii_column_value c, transform_by_token_length)]\<rparr>));
        build = (\<lambda>text. embed (build_bound_statement (env_text_binds env) text (rw_params w)));
        cast_query = (\<lambda>items. embed (cast_parameter_values (rw_params w) (QueryParams items)))
      in seq (embed (validate (env_sqlglot env) (db_type_value (rw_db_type w)) (dr_canonical_sql r))) (\<lambda>v.
         seq (embed (validate_parameter_contract (parameter_names v) (rw_params w))) (\<lambda>_.
         case rw_response_type w of
           Data \<Rightarrow>
             seq (cast_query query) (\<lambda>ps.
             seq (build (canonical_sql v)) (\<lambda>stmt.
             seq (client_execute (env_clients env) 0 (rw_db_type w) stmt ps) (\<lambda>rows.
             seq (mapped rows) (\<lambda>(rows', missing). ret (DataRows rows' missing)))))
         | Paginated \<Rightarrow>
             seq (embed (parse_pagination_value query ''page'' 1 None)) (\<lambda>pg.
             seq (embed (parse_pagination_value query ''page_size'' 100 (Some 1000))) (\<lambda>sz.
             seq (cast_query (filter (\<lambda>(n, v). n \<noteq> ''page'' \<and> n \<noteq> ''page_size'') query)) (\<lambda>ps.
             seq (build (canonical_sql v)) (\<lambda>_.
             seq (build (''SELECT COUNT(*) AS total FROM ('' @ canonical_sql v @ '') AS dynamic_route_count'')) (\<lambda>count.
             seq (client_execute (env_clients env) 0 (rw_db_type w) count ps) (\<lambda>count_rows.
             seq (embed (extract_total count_rows)) (\<lambda>total.
             seq (build (''SELECT * FROM ('' @ canonical_sql v @
                    '') AS dynamic_route_data LIMIT :__dynamic_page_size OFFSET :__dynamic_offset'')) (\<lambda>stmt.
             seq (client_execute (env_clients env) 1 (rw_db_type w) stmt
                    (dput ''__dynamic_offset'' (PInt ((pg - 1) * sz)) (dput ''__dynamic_page_size'' (PInt sz) ps))) (\<lambda>rows.
             seq (mapped rows) (\<lambda>(rows', missing).
               ret (PaginatedRows rows' total pg sz ((total + sz - 1) div sz) missing))))))))))))) (let_others t'))"
proof -
  have valid: "payload_valid w" by (rule schema_payload_valid [OF assms(2,3)])
  from create_route_outcome [OF assms(1) valid assms(4)] have made: "route_created env i w actor s r t" by auto
  note facts = route_created_facts [OF made]
  have stored: "deserialize_definitions (env_codec env) (dr_parameter_definitions r) = Inr (rw_params w)"
    using deserialize_serialize [OF assms(5)] valid facts(6) by (simp add: payload_valid_def)
  have key: "dr_prefix r = rw_prefix w" "dr_path r = rw_path w" using facts(1) by (simp_all add: route_key_def)
  have look: "get_by_route (rw_prefix w) (rw_path w) t' = (Inr (Some r), let_others t')"
    using route_by_key_found [OF assms(6,7)] by (simp add: key)
  have mapped: "map_pii (env_cache env) r rows = (case rw_pii_type w of None \<Rightarrow> Inr (rows, [])
      | Some c \<Rightarrow> map_pii_fields (env_cache env) rows
          \<lparr>route_name = ''/'' @ rw_prefix w @ ''/'' @ rw_path w, statement = dr_canonical_sql r,
           column_pii_rules = [(pii_column_value c, transform_by_token_length)]\<rparr>)" for rows
    by (simp add: map_pii_def facts(3) dr_api_path_def key split: option.splits)
  show ?thesis
  proof (intro conjI)
    from made show "\<exists>v. validate (env_sqlglot env) (db_type_value (rw_db_type w)) (rw_sql w) = Inr v \<and>
        dr_canonical_sql r = canonical_sql v"
      by (auto simp: route_created_def stamped_route_def new_route_def)
  qed (unfold execute_route_def seq_eval(2) [where m = "get_by_route (rw_prefix w) (rw_path w)", OF look] Let_def,
       cases "rw_response_type w",
       simp_all add: stored facts(2,3,4) key extract_pagination_def seq_embed_Inr seq_embed_rbind run_paginated_def
         count_sql_def paginated_sql_def mapped)
qed

lemma demo_paginated_run:
  "case fst (execute_route demo_env ''sales'' ''daily'' [(''id'', ''7''), (''page'', ''3'')]
     (snd (create_route demo_env 5 (demo_write Paginated) alice (demo_store [])))) of
     Inr (PaginatedRows rows n pg sz pages missing) \<Rightarrow> n = 205 \<and> pg = 3 \<and> sz = 100 \<and> pages = 3 \<and>
       rows = [[(''total'', PInt 205), (''id'', PInt 7), (''__dynamic_page_size'', PInt 100), (''__dynamic_offset'', PInt 200)]]
   | _ \<Rightarrow> False"
  by code_simp

theorem created_route_executes_witness:
  "\<exists>r t. create_route demo_env 5 (demo_write Data) alice (demo_store []) = (Inr r, t) \<and>
     execute_route demo_env ''sales'' ''daily'' [(''id'', ''7'')] t =
       (Inr (DataRows [[(''total'', PInt 205), (''id'', PInt 7)]] []), t)"
proof (rule demo_created)
  fix r t assume run: "create_route demo_env 5 (demo_write Data) alice (demo_store []) = (Inr r, t)"
  note outcome = create_route_outcome [OF demo_quiet(1) schema_payload_valid [OF demo_write_schema demo_keys] run]
  then have made: "route_created demo_env 5 (demo_write Data) alice (demo_store []) r t" and t: "clean t" by auto
  have quiet: "others t = []" using route_created_quiet [OF made demo_quiet(2)] by simp
  have "dr_canonical_sql r = ''SELECT :id''"
    using made demo_validate by (auto simp: route_created_def stamped_route_def new_route_def demo_env_def demo_write_def)
  moreover have codec: "codec_inverts (env_codec demo_env) (rw_params (demo_write Data))"
    using demo_codec_inverts by (simp add: demo_env_def)
  moreover have "cast_parameter_values (rw_params (demo_write Data)) (QueryParams [(''id'', ''7'')]) = Inr [(''id'', PInt 7)]"
    by code_simp
  moreover have "validate_parameter_contract [''id''] (rw_params (demo_write Data)) = Inr ()" by code_simp
  moreover obtain stmt where "build_bound_statement colon_names ''SELECT :id'' (rw_params (demo_write Data)) = Inr stmt"
    by (auto simp: build_bound_statement_def demo_write_def bind_of_def ident_char_def ident_start_def is_ascii_letter_def)
  ultimately show ?thesis
    using created_route_executes [OF demo_quiet(1) demo_write_schema demo_keys run codec t, THEN conjunct2, of "[(''id'', ''7'')]"]
      route_created_facts(9) [OF made] quiet demo_validate run
    by (simp add: Let_def demo_env_def client_execute_def seq_embed_Inr ret_def)
       (simp add: demo_write_def demo_env_def client_execute_def seq_embed_Inr ret_def)
qed

text \<open>C28: a paginated result is exact. Its page is the requested one or 1, its page size the requested one
  or 100 and never more than 1000. Its total is the \<open>total\<close> the database counted for the validated
  text, and its rows are those the database gave, mapped, for that text with the page size as the limit
  and the page size times the pages before as the offset, under the cast parameters of the request. The
  number of pages is the least that holds all counted rows, and the call wrote nothing.\<close>

theorem paginated_result_exact:
  assumes "clean s" and "execute_route env pre path query s = (Inr (PaginatedRows rows n pg sz pages missing), t)"
  shows "1 \<le> pg \<and> 1 \<le> sz \<and> sz \<le> 1000 \<and>
     (getlist query ''page'' = [] \<and> pg = 1 \<or> (\<exists>x. getlist query ''page'' = [x] \<and> py_int_of_str x = Some pg)) \<and>
     (getlist query ''page_size'' = [] \<and> sz = 100 \<or> (\<exists>x. getlist query ''page_size'' = [x] \<and> py_int_of_str x = Some sz)) \<and>
     (pages - 1) * sz < n \<and> n \<le> pages * sz \<and>
     (\<exists>r v defs ps count count_rows stmt page_ps raw s1 s2.
        get_by_route pre path s = (Inr (Some r), s1) \<and>
        validate (env_sqlglot env) (db_type_value (dr_db_type r)) (dr_canonical_sql r) = Inr v \<and>
        deserialize_definitions (env_codec env) (dr_parameter_definitions r) = Inr defs \<and>
        cast_parameter_values defs
          (QueryParams (filter (\<lambda>(k, x). k \<noteq> ''page'' \<and> k \<noteq> ''page_size'') query)) = Inr ps \<and>
        build_bound_statement (env_text_binds env)
          (''SELECT COUNT(*) AS total FROM ('' @ canonical_sql v @ '') AS dynamic_route_count'') defs = Inr count \<and>
        client_execute (env_clients env) 0 (dr_db_type r) count ps s1 = (Inr count_rows, s2) \<and>
        extract_total count_rows = Inr n \<and>
        build_bound_statement (env_text_binds env)
          (''SELECT * FROM ('' @ canonical_sql v @
           '') AS dynamic_route_data LIMIT :__dynamic_page_size OFFSET :__dynamic_offset'') defs = Inr stmt \<and>
        dget page_ps = (dget ps)(''__dynamic_page_size'' \<mapsto> PInt sz, ''__dynamic_offset'' \<mapsto> PInt ((pg - 1) * sz)) \<and>
        client_execute (env_clients env) 1 (dr_db_type r) stmt page_ps s2 = (Inr raw, t) \<and>
        map_pii (env_cache env) r raw = Inr (rows, missing)) \<and>
     clean t \<and> only_others s t"
proof -
  have embedE: thesis if "embed x u = (Inr y, u')" "x = Inr y \<Longrightarrow> u' = u \<Longrightarrow> thesis"
    for x :: "exn + 'z" and y u u' thesis
    using that by (auto simp: embed_def)
  from assms(2) obtain r v defs q ps count count_rows stmt raw s1 s2 where
    run: "get_by_route pre path s = (Inr (Some r), s1)"
      "validate (env_sqlglot env) (db_type_value (dr_db_type r)) (dr_canonical_sql r) = Inr v"
      "deserialize_definitions (env_codec env) (dr_parameter_definitions r) = Inr defs"
      "extract_pagination query (dr_response_type r) = Inr (q, Some pg, Some sz)" "dr_response_type r = Paginated"
      "cast_parameter_values defs (QueryParams q) = Inr ps"
      "build_bound_statement (env_text_binds env) (count_sql (canonical_sql v)) defs = Inr count"
      "client_execute (env_clients env) 0 (dr_db_type r) count ps s1 = (Inr count_rows, s2)"
      "extract_total count_rows = Inr n"
      "build_bound_statement (env_text_binds env) (paginated_sql (canonical_sql v)) defs = Inr stmt"
      "client_execute (env_clients env) 1 (dr_db_type r) stmt
        (dput ''__dynamic_offset'' (PInt ((pg - 1) * sz)) (dput ''__dynamic_page_size'' (PInt sz) ps)) s2 = (Inr raw, t)"
      "map_pii (env_cache env) r raw = Inr (rows, missing)" "pages = (n + sz - 1) div sz"
    unfolding execute_route_def run_paginated_def
    by (auto elim!: seq_InrE embedE simp: ret_def raise_def split: option.splits if_splits prod.splits)
  then have v: "parse_pagination_value query ''page'' 1 None = Inr pg"
    "parse_pagination_value query ''page_size'' 100 (Some 1000) = Inr sz"
    and q: "q = filter (\<lambda>(k, x). k \<noteq> ''page'' \<and> k \<noteq> ''page_size'') query"
    by (auto simp: extract_pagination_def rbind_Inr_iff)
  note bounds = parse_pagination_value_Inr [OF v(1)] parse_pagination_value_Inr [OF v(2)]
  have "(pages - 1) * sz < n \<and> n \<le> pages * sz"
    using total_pages_exact [of sz n] bounds run(13) by auto
  moreover have "clean t \<and> only_others s t"
    by (rule reads_onlyD [OF reads_only_execute_route assms])
  moreover obtain page_ps where
    "dget page_ps = (dget ps)(''__dynamic_page_size'' \<mapsto> PInt sz, ''__dynamic_offset'' \<mapsto> PInt ((pg - 1) * sz))"
    "client_execute (env_clients env) 1 (dr_db_type r) stmt page_ps s2 = (Inr raw, t)"
    using run(11) by (metis dget_dput)
  moreover have "1 \<le> pg \<and> 1 \<le> sz \<and> sz \<le> 1000 \<and>
     (getlist query ''page'' = [] \<and> pg = 1 \<or> (\<exists>x. getlist query ''page'' = [x] \<and> py_int_of_str x = Some pg)) \<and>
     (getlist query ''page_size'' = [] \<and> sz = 100 \<or> (\<exists>x. getlist query ''page_size'' = [x] \<and> py_int_of_str x = Some sz))"
    using bounds by auto
  ultimately show ?thesis
    using run(1-3,8,9,12) run(6) [unfolded q] run(7) [unfolded count_sql_def] run(10) [unfolded paginated_sql_def]
    by blast
qed

theorem paginated_result_exact_witness:
  "\<exists>rows pages missing t. execute_route demo_env ''sales'' ''daily'' [(''id'', ''7''), (''page'', ''3'')]
     (snd (create_route demo_env 5 (demo_write Paginated) alice (demo_store []))) =
       (Inr (PaginatedRows rows 205 3 100 pages missing), t) \<and> 205 \<le> pages * 100 \<and> clean t"
proof -
  let ?s = "snd (create_route demo_env 5 (demo_write Paginated) alice (demo_store []))"
  let ?run = "execute_route demo_env ''sales'' ''daily'' [(''id'', ''7''), (''page'', ''3'')] ?s"
  obtain res where "create_route demo_env 5 (demo_write Paginated) alice (demo_store []) = (res, ?s)"
    by (metis prod.collapse)
  then have "clean ?s"
    using create_route_outcome [OF demo_quiet(1) schema_payload_valid [OF demo_write_schema demo_keys]] by blast
  moreover obtain rows pages missing t where run: "?run = (Inr (PaginatedRows rows 205 3 100 pages missing), t)"
    using demo_paginated_run by (cases ?run) (auto split: sum.splits route_result.splits)
  ultimately show ?thesis using paginated_result_exact [OF _ run] run by blast
qed

text \<open>C35: administrative writes are audited, except for long paths: when creating a route succeeds, or is
  refused for its SQL, one entry is committed on top of what other transactions committed meanwhile,
  before the caller gets the outcome: it has the administrator, the route, the action, whether it was
  done, and the code of the error if not. Other failures leave no entry. When the entry cannot be stored, because prefix
  and path together exceed 485 characters, the administrator was deleted meanwhile or the identifier is
  taken, the caller gets that error, and a created route stays committed without any entry; for a long path this is
  an internal server error.\<close>

theorem route_creation_audited:
  assumes "clean s" and "route_write_schema raw = Inr w" "distinct (dkeys (rw_params raw))"
    and "admin \<in> set (users (committed s))"
    and "reject_static_get_collision st registered (rw_prefix w) (rw_path w) = Inr ()"
    and "create_route env (fresh_id dw) w admin s = (res, t)"
    and "create_dynamic_route_body env st dw registered w admin s = (out, t')"
  shows "(case (case res of
             Inr r \<Rightarrow> Some (True, Some (dr_id r), None, route_to_response (env_codec env) r)
           | Inl e \<Rightarrow> if is_app_error DynamicSql e then Some (False, None, Some (exn_code e), Inl e) else None) of
       None \<Rightarrow> (\<exists>e. res = Inl e \<and> out = Inl e \<and> t' = t)
     | Some (done, i, error_code, answer) \<Rightarrow>
         let now = committed (let_others t) in
         others t' = others (let_others t) \<and>
         (if 485 < length (rw_prefix w) + length (rw_path w) then out = Inl (SqlaErr ''DataError'') \<and> committed t' = now
          else if audit_id dw \<in> al_id ` set (audit_logs now) \<or> user_id admin \<notin> user_id ` set (users now)
          then out = Inl IntegrityErr \<and> committed t' = now
          else out = answer \<and> users (committed t') = users now \<and> routes (committed t') = routes now \<and>
            audit_logs (committed t') = audit_logs now @
              [\<lparr>al_id = audit_id dw, al_user_id = Some (user_id admin), al_username = Some (username admin),
                al_api_route = ''dynamic-route:'' @ rw_prefix w @ ''/'' @ rw_path w,
                al_parameters = Some
                  ([(''action'', PStr ''create''),
                    (''route_id'', case i of None \<Rightarrow> PNone | Some x \<Rightarrow> PStr (uuid_str x)),
                    (''prefix'', PStr (rw_prefix w)), (''path'', PStr (rw_path w))] @
                   (case error_code of None \<Rightarrow> [] | Some c \<Rightarrow> [(''error_code'', PStr c)])),
                al_allowed = done, al_error_message = error_code, al_time_process_ms = None\<rparr>])) \<and>
    rsp_status (handle_exception rid (SqlaErr ''DataError'')) = 500"
proof -
  have t: "clean t"
    using create_route_outcome [OF assms(1) schema_payload_valid [OF assms(2,3)] assms(6)] by auto
  have key: "dr_prefix r = rw_prefix w \<and> dr_path r = rw_path w" if "res = Inr r" for r
    using create_route_outcome [OF assms(1) schema_payload_valid [OF assms(2,3)] assms(6)] that
    by (auto dest!: route_created_facts(1) simp: route_key_def)
  note audit = audit_route_action_outcome [OF t user_fits_in [OF clean_good [OF assms(1)] assms(4)],
      of dw "''create''"]
  have status: "rsp_status (handle_exception rid (SqlaErr ''DataError'')) = 500"
    by (simp add: handle_library_exception_opaque internal_error_response_def error_response_def)
  note body = assms(7) [unfolded create_dynamic_route_body_def audited_write_def assms(5) seq_embed_Inr]
  show ?thesis
  proof (cases res)
    case (Inl e)
    show ?thesis
    proof (cases "is_app_error DynamicSql e")
      case True
      from body Inl True assms(6) have "(out, t') = seq (audit_dynamic_route_action dw admin ''create'' None (rw_prefix w)
          (rw_path w) False (Some (exn_code e))) (\<lambda>_. raise e) t"
        by (simp add: seq_def handle_def split: prod.splits sum.splits)
      then show ?thesis using Inl True status
        by (auto simp: seq_def audit Let_def raise_def route_action_entry_def route_action_parameters_def insert_audit_def
            split: if_splits)
    qed (use body Inl assms(6) status in \<open>simp add: seq_def handle_def raise_def\<close>)
  next
    case (Inr r)
    from body Inr assms(6) key [OF Inr] have "(out, t') = seq (audit_dynamic_route_action dw admin ''create'' (Some (dr_id r))
        (rw_prefix w) (rw_path w) True None) (\<lambda>_. embed (route_to_response (env_codec env) r)) t"
      by (simp add: seq_def handle_def)
    then show ?thesis using Inr status
      by (auto simp: seq_def audit Let_def embed_def route_action_entry_def route_action_parameters_def insert_audit_def
          split: if_splits)
  qed
qed

definition long_write :: route_write where
  "long_write = (demo_write Data)\<lparr>rw_path := replicate 490 (CHR ''a'')\<rparr>"

lemma long_write_schema: "route_write_schema long_write = Inr long_write"
  by code_simp

lemma long_create_ok: "\<not> isl (fst (create_route demo_env (fresh_id demo_draw) long_write alice (demo_store [])))"
  by code_simp

theorem route_creation_audited_witness:
  "\<exists>r t. create_route demo_env 70 long_write alice (demo_store []) = (Inr r, t) \<and> r \<in> set (routes (committed t)) \<and>
     fst (create_dynamic_route_body demo_env default_settings demo_draw [] long_write alice (demo_store [])) =
       Inl (SqlaErr ''DataError'')"
proof -
  obtain r t where run: "create_route demo_env (fresh_id demo_draw) long_write alice (demo_store []) = (Inr r, t)"
    using long_create_ok by (auto simp: not_isl_pair)
  obtain out t' where body:
    "create_dynamic_route_body demo_env default_settings demo_draw [] long_write alice (demo_store []) = (out, t')" by force
  have keys: "distinct (dkeys (rw_params long_write))" by (simp add: long_write_def demo_write_def)
  have len: "485 < length (rw_prefix long_write) + length (rw_path long_write)" by (simp add: long_write_def)
  have free: "reject_static_get_collision default_settings [] (rw_prefix long_write) (rw_path long_write) = Inr ()"
    by (simp add: reject_static_get_collision_def Let_def)
  have "r \<in> set (routes (committed t))"
    using create_route_outcome [OF demo_quiet(1) schema_payload_valid [OF long_write_schema keys] run]
    by (auto dest: route_created_facts(9))
  moreover have "fresh_id demo_draw = 70" by (simp add: demo_draw_def)
  ultimately show ?thesis
    using route_creation_audited [OF demo_quiet(1) long_write_schema keys alice_facts(1) free run body, of None] run len body
    by (simp add: Let_def)
qed

end
