(* ===== verification/Trino_Client.thy ===== *)
theory Trino_Client
  imports Route_Execution
begin

text \<open>
  The Trino client (\<open>infrastructure/trino/client.py\<close>) and the quoting of identifier paths
  (\<open>utils/sql.py\<close>). The life cycle of the shared engine is a step relation: request
  coroutines, the threads that run their queries and the closing of the client interleave; what
  happens under the lock is one step. SQLAlchemy's engines are numbered in the order of their
  creation.
\<close>

section \<open>Identifier paths\<close>

definition quote_identifier_path :: "string \<Rightarrow> exn + string" where
  "quote_identifier_path p =
     (if list_all is_identifier (py_split (CHR ''.'') p)
      then Inr (py_join ''.'' (map (\<lambda>part. [CHR 0x22] @ part @ [CHR 0x22]) (py_split (CHR ''.'') p)))
      else Inl (ValueErr (''Invalid SQL identifier path: '' @ p)))"

section \<open>Catalog queries\<close>

record trino_column =
  tc_name :: string
  tc_type :: string
  tc_extra :: "string option"
  tc_comment :: "string option"

definition first_column_values :: "row list \<Rightarrow> string list" where
  "first_column_values rows = map (\<lambda>r. py_str (snd (hd r))) (filter (\<lambda>r. r \<noteq> []) rows)"

definition row_value :: "row \<Rightarrow> string \<Rightarrow> exn + pyval" where
  "row_value r column =
     (case find (\<lambda>(k, v). py_lower k = py_lower column) r of
        Some (k, v) \<Rightarrow> Inr v
      | None \<Rightarrow> Inl (KeyErr column))"

definition optional_row_value :: "row \<Rightarrow> string \<Rightarrow> exn + string option" where
  "optional_row_value r column =
     rbind (row_value r column) (\<lambda>v. Inr (if v = PNone then None else Some (py_str v)))"

text \<open>\<open>execute\<close> of the client is the argument \<open>exec\<close>.\<close>

definition get_catalogs :: "(string \<Rightarrow> exn + row list) \<Rightarrow> exn + string list" where
  "get_catalogs exec = rbind (exec ''SHOW CATALOGS'') (\<lambda>rows. Inr (first_column_values rows))"

definition get_schemas :: "(string \<Rightarrow> exn + row list) \<Rightarrow> string \<Rightarrow> exn + string list" where
  "get_schemas exec catalog =
     rbind (quote_identifier_path catalog) (\<lambda>q.
     rbind (exec (''SHOW SCHEMAS FROM '' @ q)) (\<lambda>rows. Inr (first_column_values rows)))"

definition get_tables :: "(string \<Rightarrow> exn + row list) \<Rightarrow> string \<Rightarrow> string \<Rightarrow> exn + string list" where
  "get_tables exec catalog schema =
     rbind (quote_identifier_path (catalog @ ''.'' @ schema)) (\<lambda>q.
     rbind (exec (''SHOW TABLES FROM '' @ q)) (\<lambda>rows. Inr (first_column_values rows)))"

definition column_of_row :: "row \<Rightarrow> exn + trino_column" where
  "column_of_row r =
     rbind (row_value r ''Column'') (\<lambda>n.
     rbind (row_value r ''Type'') (\<lambda>ty.
     rbind (optional_row_value r ''Extra'') (\<lambda>ex.
     rbind (optional_row_value r ''Comment'') (\<lambda>co.
       Inr \<lparr>tc_name = py_str n, tc_type = py_str ty, tc_extra = ex, tc_comment = co\<rparr>))))"

definition get_columns ::
  "(string \<Rightarrow> exn + row list) \<Rightarrow> string \<Rightarrow> string \<Rightarrow> string \<Rightarrow> exn + trino_column list" where
  "get_columns exec catalog schema table =
     rbind (quote_identifier_path (catalog @ ''.'' @ schema @ ''.'' @ table)) (\<lambda>q.
     rbind (exec (''SHOW COLUMNS FROM '' @ q)) (\<lambda>rows. map_res column_of_row rows))"

section \<open>Configuration of the engine\<close>

record trino_url =
  url_username :: string
  url_password :: "string option"
  url_host :: string
  url_port :: int

record engine_config =
  ec_url :: trino_url
  ec_pool_size :: nat
  ec_max_overflow :: nat
  ec_pool_timeout_ms :: nat
  ec_pool_recycle :: nat
  ec_http_scheme :: string
  ec_request_timeout_ms :: int
  ec_max_attempts :: nat

definition trino_url :: "settings \<Rightarrow> trino_url" where
  "trino_url st =
     \<lparr>url_username = trino_user st,
      url_password = (case trino_password st of None \<Rightarrow> None | Some p \<Rightarrow> if p = [] then None else Some p),
      url_host = trino_host st, url_port = trino_port st\<rparr>"

definition trino_engine_config :: "settings \<Rightarrow> engine_config" where
  "trino_engine_config st =
     \<lparr>ec_url = trino_url st, ec_pool_size = 5, ec_max_overflow = 10, ec_pool_timeout_ms = 30000,
      ec_pool_recycle = 1800, ec_http_scheme = trino_http_scheme st,
      ec_request_timeout_ms = trino_request_timeout_ms st, ec_max_attempts = 3\<rparr>"

section \<open>The engine and its lock\<close>

text \<open>
  \<open>slot\<close> is \<open>_engine\<close>; \<open>created\<close> counts the engines the factory made and \<open>disposed\<close> holds
  those whose \<open>dispose\<close> was called.
\<close>

record client =
  slot :: "nat option"
  created :: nat
  disposed :: "nat set"

definition new_client :: client where
  "new_client = \<lparr>slot = None, created = 0, disposed = {}\<rparr>"

definition get_engine :: "client \<Rightarrow> nat \<times> client" where
  "get_engine c =
     (case slot c of
        Some e \<Rightarrow> (e, c)
      | None \<Rightarrow> (created c, c\<lparr>slot := Some (created c), created := Suc (created c)\<rparr>))"

text \<open>The locked part of \<open>_dispose_engine\<close>, and the one \<open>_dispose_current_engine\<close> and
  \<open>_close_sync\<close> share.\<close>

definition unlink_engine :: "nat \<Rightarrow> client \<Rightarrow> client" where
  "unlink_engine e c = (if slot c = Some e then c\<lparr>slot := None\<rparr> else c)"

definition take_engine :: "client \<Rightarrow> nat option \<times> client" where
  "take_engine c = (slot c, c\<lparr>slot := None\<rparr>)"

definition dispose :: "nat option \<Rightarrow> client \<Rightarrow> client" where
  "dispose eo c = (case eo of None \<Rightarrow> c | Some e \<Rightarrow> c\<lparr>disposed := insert e (disposed c)\<rparr>)"

section \<open>Requests\<close>

text \<open>
  The thread of a query, and the coroutine that waits for it. A query that was not started when
  its coroutine gave up never starts; one that was started runs on.
\<close>

datatype worker =
    Idle
  | Queued
  | Started
  | Connected nat
  | Unlinked nat exn
  | Finished "exn + row list"
  | Dropped

datatype caller =
    Absent
  | Awaiting
  | Expired
  | Holding "nat option"
  | Answered "exn + row list"
  | Cancelled

datatype closer = NotClosing | Closing "nat option" | Closed

record system =
  cl :: client
  workers :: "nat \<Rightarrow> worker"
  callers :: "nat \<Rightarrow> caller"
  closers :: "nat \<Rightarrow> closer"

definition new_system :: system where
  "new_system = \<lparr>cl = new_client, workers = (\<lambda>_. Idle), callers = (\<lambda>_. Absent), closers = (\<lambda>_. NotClosing)\<rparr>"

definition give_up :: "worker \<Rightarrow> worker" where
  "give_up w = (if w = Queued then Dropped else w)"

definition query_timeout :: "exn + row list" where
  "query_timeout = Inl (external_service_timeout_error ''Trino query'')"

text \<open>
  One step of request \<open>i\<close>, or of the \<open>i\<close>-th closing of the client. A \<open>TimeoutError\<close> the query
  itself raises is treated by \<open>execute\<close> like its own.
\<close>

inductive trino_step :: "system \<Rightarrow> system \<Rightarrow> bool" where
  submit: "workers s i = Idle \<Longrightarrow> callers s i = Absent \<Longrightarrow>
    trino_step s (s\<lparr>workers := (workers s)(i := Queued), callers := (callers s)(i := Awaiting)\<rparr>)"
| start: "workers s i = Queued \<Longrightarrow> trino_step s (s\<lparr>workers := (workers s)(i := Started)\<rparr>)"
| connect: "workers s i = Started \<Longrightarrow> get_engine (cl s) = (e, c) \<Longrightarrow>
    trino_step s (s\<lparr>cl := c, workers := (workers s)(i := Connected e)\<rparr>)"
| no_engine: "workers s i = Started \<Longrightarrow> slot (cl s) = None \<Longrightarrow>
    trino_step s (s\<lparr>workers := (workers s)(i := Finished (Inl ex))\<rparr>)"
| rows: "workers s i = Connected e \<Longrightarrow> trino_step s (s\<lparr>workers := (workers s)(i := Finished (Inr rs))\<rparr>)"
| fail: "workers s i = Connected e \<Longrightarrow>
    trino_step s (s\<lparr>cl := unlink_engine e (cl s), workers := (workers s)(i := Unlinked e ex)\<rparr>)"
| discard: "workers s i = Unlinked e ex \<Longrightarrow>
    trino_step s (s\<lparr>cl := dispose (Some e) (cl s), workers := (workers s)(i := Finished (Inl ex))\<rparr>)"
| deliver: "workers s i = Finished r \<Longrightarrow> callers s i = Awaiting \<Longrightarrow> r \<noteq> Inl TimeoutErr \<Longrightarrow>
    trino_step s (s\<lparr>callers := (callers s)(i := Answered r)\<rparr>)"
| expire: "callers s i = Awaiting \<Longrightarrow>
    trino_step s (s\<lparr>workers := (workers s)(i := give_up (workers s i)), callers := (callers s)(i := Expired)\<rparr>)"
| cancel: "callers s i = Awaiting \<Longrightarrow>
    trino_step s (s\<lparr>workers := (workers s)(i := give_up (workers s i)), callers := (callers s)(i := Cancelled)\<rparr>)"
| reclaim: "callers s i = Expired \<Longrightarrow> take_engine (cl s) = (eo, c) \<Longrightarrow>
    trino_step s (s\<lparr>cl := c, callers := (callers s)(i := Holding eo)\<rparr>)"
| answer: "callers s i = Holding eo \<Longrightarrow>
    trino_step s (s\<lparr>cl := dispose eo (cl s), callers := (callers s)(i := Answered query_timeout)\<rparr>)"
| close_take: "closers s i = NotClosing \<Longrightarrow> take_engine (cl s) = (eo, c) \<Longrightarrow>
    trino_step s (s\<lparr>cl := c, closers := (closers s)(i := Closing eo)\<rparr>)"
| close_dispose: "closers s i = Closing eo \<Longrightarrow>
    trino_step s (s\<lparr>cl := dispose eo (cl s), closers := (closers s)(i := Closed)\<rparr>)"

abbreviation trino_reachable :: "system \<Rightarrow> bool" where
  "trino_reachable s \<equiv> trino_step\<^sup>*\<^sup>* new_system s"

section \<open>The invariant of the engines\<close>

definition worker_holds :: "worker \<Rightarrow> nat \<Rightarrow> bool" where
  "worker_holds w e \<longleftrightarrow> (\<exists>ex. w = Unlinked e ex)"

definition caller_holds :: "caller \<Rightarrow> nat \<Rightarrow> bool" where
  "caller_holds k e \<longleftrightarrow> k = Holding (Some e)"

definition closer_holds :: "closer \<Rightarrow> nat \<Rightarrow> bool" where
  "closer_holds k e \<longleftrightarrow> k = Closing (Some e)"

text \<open>Somebody took the engine out of the slot, or failed on it, and will dispose it.\<close>

definition holds :: "(nat \<Rightarrow> worker) \<Rightarrow> (nat \<Rightarrow> caller) \<Rightarrow> (nat \<Rightarrow> closer) \<Rightarrow> nat \<Rightarrow> bool" where
  "holds ws ks cs e \<longleftrightarrow> (\<exists>i. worker_holds (ws i) e) \<or> (\<exists>i. caller_holds (ks i) e) \<or> (\<exists>i. closer_holds (cs i) e)"

abbreviation held :: "system \<Rightarrow> nat \<Rightarrow> bool" where
  "held s \<equiv> holds (workers s) (callers s) (closers s)"

definition accounted :: "system \<Rightarrow> bool" where
  "accounted s \<longleftrightarrow>
     (\<forall>e. (slot (cl s) = Some e \<or> e \<in> disposed (cl s) \<or> held s e) \<longleftrightarrow> e < created (cl s)) \<and>
     (\<forall>e. slot (cl s) = Some e \<longrightarrow> e \<notin> disposed (cl s) \<and> \<not> held s e) \<and>
     (\<forall>i e. workers s i = Connected e \<longrightarrow> e < created (cl s))"

lemma holder_simps [simp]:
  "worker_holds (Unlinked d ex) e \<longleftrightarrow> e = d" "\<not> worker_holds Idle e" "\<not> worker_holds Queued e"
  "\<not> worker_holds Started e" "\<not> worker_holds (Connected d) e" "\<not> worker_holds (Finished r) e"
  "\<not> worker_holds Dropped e" "worker_holds (give_up w) e = worker_holds w e"
  "caller_holds (Holding eo) e \<longleftrightarrow> eo = Some e" "\<not> caller_holds Absent e" "\<not> caller_holds Awaiting e"
  "\<not> caller_holds Expired e" "\<not> caller_holds (Answered r) e" "\<not> caller_holds Cancelled e"
  "closer_holds (Closing eo) e \<longleftrightarrow> eo = Some e" "\<not> closer_holds NotClosing e" "\<not> closer_holds Closed e"
  by (auto simp: worker_holds_def caller_holds_def closer_holds_def give_up_def)

text \<open>What the others hold, and what changes with one component.\<close>

lemma holds_upd:
  "holds (ws(i := w)) ks cs e \<longleftrightarrow> worker_holds w e \<or> holds (ws(i := Idle)) ks cs e"
  "holds ws (ks(i := k)) cs e \<longleftrightarrow> caller_holds k e \<or> holds ws (ks(i := Absent)) cs e"
  "holds ws ks (cs(i := c)) e \<longleftrightarrow> closer_holds c e \<or> holds ws ks (cs(i := NotClosing)) e"
  by (auto simp: holds_def)

lemma holds_at:
  "holds ws ks cs e \<longleftrightarrow> worker_holds (ws i) e \<or> holds (ws(i := Idle)) ks cs e"
  "holds ws ks cs e \<longleftrightarrow> caller_holds (ks i) e \<or> holds ws (ks(i := Absent)) cs e"
  "holds ws ks cs e \<longleftrightarrow> closer_holds (cs i) e \<or> holds ws ks (cs(i := NotClosing)) e"
  by (auto simp: holds_def)

lemma holds_worker_same: "worker_holds w = worker_holds (ws i) \<Longrightarrow> holds (ws(i := w)) ks cs = holds ws ks cs"
  by (rule ext) (subst holds_upd(1), subst holds_at(1) [of ws ks cs _ i], simp)

lemma holds_caller_same: "caller_holds k = caller_holds (ks i) \<Longrightarrow> holds ws (ks(i := k)) cs = holds ws ks cs"
  by (rule ext) (subst holds_upd(2), subst holds_at(2) [of ws ks cs _ i], simp)

lemma holds_worker_gain: "worker_holds (ws i) = (\<lambda>_. False) \<Longrightarrow>
    holds (ws(i := Unlinked d ex)) ks cs e \<longleftrightarrow> e = d \<or> holds ws ks cs e"
  by (subst holds_upd(1), subst holds_at(1) [of ws ks cs e i], simp)

lemma holds_worker_lose: "ws i = Unlinked d ex \<Longrightarrow> holds ws ks cs e \<longleftrightarrow> e = d \<or> holds (ws(i := Finished r)) ks cs e"
  by (subst holds_upd(1), subst holds_at(1) [of ws ks cs e i], simp)

lemma holds_caller_gain: "caller_holds (ks i) = (\<lambda>_. False) \<Longrightarrow>
    holds ws (ks(i := Holding eo)) cs e \<longleftrightarrow> eo = Some e \<or> holds ws ks cs e"
  by (subst holds_upd(2), subst holds_at(2) [of ws ks cs e i], simp)

lemma holds_caller_lose: "ks i = Holding eo \<Longrightarrow> holds ws ks cs e \<longleftrightarrow> eo = Some e \<or> holds ws (ks(i := Answered r)) cs e"
  by (subst holds_upd(2), subst holds_at(2) [of ws ks cs e i], simp)

lemma holds_closer_gain: "cs i = NotClosing \<Longrightarrow>
    holds ws ks (cs(i := Closing eo)) e \<longleftrightarrow> eo = Some e \<or> holds ws ks cs e"
  by (subst holds_upd(3), subst holds_at(3) [of ws ks cs e i], simp)

lemma holds_closer_lose: "cs i = Closing eo \<Longrightarrow> holds ws ks cs e \<longleftrightarrow> eo = Some e \<or> holds ws ks (cs(i := Closed)) e"
  by (subst holds_upd(3), subst holds_at(3) [of ws ks cs e i], simp)

lemmas holds_gain = holds_worker_same holds_caller_same holds_worker_gain holds_caller_gain holds_closer_gain

lemma accounted_new: "accounted new_system"
  by (simp add: accounted_def new_system_def new_client_def holds_def)

lemmas client_defs = get_engine_def take_engine_def unlink_engine_def dispose_def

lemma no_holder [simp]:
  "worker_holds Idle = (\<lambda>_. False)" "worker_holds Queued = (\<lambda>_. False)" "worker_holds Started = (\<lambda>_. False)"
  "worker_holds (Connected d) = (\<lambda>_. False)" "worker_holds (Finished r) = (\<lambda>_. False)"
  "worker_holds (give_up w) = worker_holds w"
  "caller_holds Absent = (\<lambda>_. False)" "caller_holds Awaiting = (\<lambda>_. False)" "caller_holds Expired = (\<lambda>_. False)"
  "caller_holds (Answered r) = (\<lambda>_. False)" "caller_holds Cancelled = (\<lambda>_. False)"
  by (auto simp: fun_eq_iff)

lemma give_up_connected [simp]: "give_up w = Connected e \<longleftrightarrow> w = Connected e"
  by (simp add: give_up_def)

lemma accounted_step: "trino_step s s' \<Longrightarrow> accounted s \<Longrightarrow> accounted s'"
proof (induction rule: trino_step.induct)
  case (submit s i)
  then show ?case by (simp add: accounted_def holds_worker_same holds_caller_same)
next
  case (start s i)
  then show ?case by (simp add: accounted_def holds_worker_same)
next
  case (connect s i e c)
  then show ?case by (auto simp: accounted_def holds_worker_same client_defs less_Suc_eq split: option.splits)
next
  case (no_engine s i ex)
  then show ?case by (simp add: accounted_def holds_worker_same)
next
  case (rows s i e rs)
  then show ?case by (simp add: accounted_def holds_worker_same)
next
  case (fail s i e ex)
  then have "e < created (cl s)" by (simp add: accounted_def)
  with fail show ?case by (auto simp: accounted_def client_defs holds_gain)
next
  case (discard s i e ex)
  then show ?case
    by (auto simp: accounted_def client_defs holds_worker_lose [where ws = "workers s" and i = i and r = "Inl ex", OF discard(1)])
next
  case (deliver s i r)
  then show ?case by (simp add: accounted_def holds_caller_same)
next
  case (expire s i)
  then show ?case by (auto simp: accounted_def holds_worker_same holds_caller_same)
next
  case (cancel s i)
  then show ?case by (auto simp: accounted_def holds_worker_same holds_caller_same)
next
  case (reclaim s i eo c)
  then show ?case by (auto simp: accounted_def client_defs holds_gain)
next
  case (answer s i eo)
  then show ?case
    by (auto simp: accounted_def client_defs holds_caller_lose [where ks = "callers s" and i = i and r = query_timeout, OF answer(1)] split: option.splits)
next
  case (close_take s i eo c)
  then show ?case by (auto simp: accounted_def client_defs holds_gain)
next
  case (close_dispose s i eo)
  then show ?case
    by (auto simp: accounted_def client_defs holds_closer_lose [where cs = "closers s" and i = i, OF close_dispose(1)] split: option.splits)
qed

lemma accounted_reachable: "trino_reachable s \<Longrightarrow> accounted s"
  by (induction rule: rtranclp_induct) (simp_all add: accounted_new accounted_step)


section \<open>The engine pool as an abstract machine\<close>

text \<open>
  What the client promises about engines: an engine is born only while no other is current, then
  is retired, then dead; it never comes back.
\<close>

datatype engine_status = Unborn | Current | Retired | Dead

inductive pool_step :: "(nat \<Rightarrow> engine_status) \<Rightarrow> (nat \<Rightarrow> engine_status) \<Rightarrow> bool" where
  born: "p e = Unborn \<Longrightarrow> (\<And>d. p d \<noteq> Current) \<Longrightarrow> pool_step p (p(e := Current))"
| retire: "p e = Current \<Longrightarrow> pool_step p (p(e := Retired))"
| die: "p e = Retired \<Longrightarrow> pool_step p (p(e := Dead))"

definition status :: "client \<Rightarrow> nat \<Rightarrow> engine_status" where
  "status c e =
     (if created c \<le> e then Unborn else if slot c = Some e then Current
      else if e \<in> disposed c then Dead else Retired)"

lemma pool_step_upd: "p e = Current \<Longrightarrow> q = p(e := Retired) \<Longrightarrow> pool_step p q"
  "p e = Retired \<Longrightarrow> q = p(e := Dead) \<Longrightarrow> pool_step p q"
  "p e = Unborn \<Longrightarrow> (\<And>d. p d \<noteq> Current) \<Longrightarrow> q = p(e := Current) \<Longrightarrow> pool_step p q"
  by (simp_all add: pool_step.intros)

text \<open>How the operations of the client move the status, given the invariant.\<close>

definition client_ok :: "client \<Rightarrow> bool" where
  "client_ok c \<longleftrightarrow> (\<forall>e. slot c = Some e \<longrightarrow> e < created c \<and> e \<notin> disposed c) \<and> (\<forall>e \<in> disposed c. e < created c)"

lemma accounted_client_ok: "accounted s \<Longrightarrow> client_ok (cl s)"
  unfolding accounted_def client_ok_def by blast

lemma status_get: "client_ok c \<Longrightarrow> get_engine c = (e, c') \<Longrightarrow> pool_step\<^sup>=\<^sup>= (status c) (status c')"
  by (auto simp: client_ok_def get_engine_def status_def fun_eq_iff less_Suc_eq
      intro!: pool_step_upd(3) [of _ "created c"] split: option.splits if_splits)

lemma status_take: "client_ok c \<Longrightarrow> take_engine c = (eo, c') \<Longrightarrow> pool_step\<^sup>=\<^sup>= (status c) (status c')"
  by (cases "slot c") (auto simp: client_ok_def take_engine_def status_def fun_eq_iff
      intro!: pool_step_upd(1) [of _ "the (slot c)"])

lemma status_unlink: "client_ok c \<Longrightarrow> pool_step\<^sup>=\<^sup>= (status c) (status (unlink_engine e c))"
  by (auto simp: client_ok_def unlink_engine_def status_def fun_eq_iff intro!: pool_step_upd(1) [of _ e])

lemma status_dispose:
  "client_ok c \<Longrightarrow> (\<And>e. eo = Some e \<Longrightarrow> e < created c \<and> slot c \<noteq> Some e) \<Longrightarrow>
   pool_step\<^sup>=\<^sup>= (status c) (status (dispose eo c))"
proof (cases eo)
  case (Some e)
  assume "client_ok c" "\<And>e. eo = Some e \<Longrightarrow> e < created c \<and> slot c \<noteq> Some e"
  with Some have e: "e < created c" "slot c \<noteq> Some e" by simp_all
  show ?thesis
  proof (cases "e \<in> disposed c")
    case True
    with Some show ?thesis by (simp add: dispose_def insert_absorb)
  next
    case False
    with e have "status c e = Retired" "status (dispose eo c) = (status c)(e := Dead)"
      using Some by (auto simp: status_def dispose_def fun_eq_iff)
    then show ?thesis by (simp add: pool_step.die)
  qed
qed (simp add: dispose_def)

lemma held_facts: "accounted s \<Longrightarrow> held s e \<Longrightarrow> e < created (cl s) \<and> slot (cl s) \<noteq> Some e"
  unfolding accounted_def by blast

lemma holder_held:
  "workers s i = Unlinked e ex \<Longrightarrow> held s e" "callers s i = Holding (Some e) \<Longrightarrow> held s e"
  "closers s i = Closing (Some e) \<Longrightarrow> held s e"
  unfolding holds_def worker_holds_def caller_holds_def closer_holds_def by blast+

lemma pool_refined: "trino_step s s' \<Longrightarrow> accounted s \<Longrightarrow> pool_step\<^sup>=\<^sup>= (status (cl s)) (status (cl s'))"
proof (induction rule: trino_step.induct)
  case (discard s i e ex)
  then show ?case
    using status_dispose [OF accounted_client_ok [OF discard(2)], of "Some e"] held_facts [OF discard(2) holder_held(1)]
    by simp
next
  case (answer s i eo)
  have "e < created (cl s) \<and> slot (cl s) \<noteq> Some e" if "eo = Some e" for e
    using held_facts [OF answer(2) holder_held(2) [of s i]] answer(1) that by simp
  then show ?case using status_dispose [OF accounted_client_ok [OF answer(2)], of eo] by simp
next
  case (close_dispose s i eo)
  have "e < created (cl s) \<and> slot (cl s) \<noteq> Some e" if "eo = Some e" for e
    using held_facts [OF close_dispose(2) holder_held(3) [of s i]] close_dispose(1) that by simp
  then show ?case using status_dispose [OF accounted_client_ok [OF close_dispose(2)], of eo] by simp
next
  case (connect s i e c)
  then show ?case using status_get [OF accounted_client_ok [OF connect(3)] connect(2)] by simp
next
  case (fail s i e ex)
  then show ?case using status_unlink [OF accounted_client_ok [OF fail(2)], of e] by simp
next
  case (reclaim s i eo c)
  then show ?case using status_take [OF accounted_client_ok [OF reclaim(3)] reclaim(2)] by simp
next
  case (close_take s i eo c)
  then show ?case using status_take [OF accounted_client_ok [OF close_take(3)] close_take(2)] by simp
qed simp_all

section \<open>Runs end\<close>

fun worker_rank :: "worker \<Rightarrow> nat" where
  "worker_rank Idle = 5" | "worker_rank Queued = 4" | "worker_rank Started = 3"
| "worker_rank (Connected e) = 2" | "worker_rank (Unlinked e ex) = 1"
| "worker_rank (Finished r) = 0" | "worker_rank Dropped = 0"

fun caller_rank :: "caller \<Rightarrow> nat" where
  "caller_rank Absent = 4" | "caller_rank Awaiting = 3" | "caller_rank Expired = 2"
| "caller_rank (Holding eo) = 1" | "caller_rank (Answered r) = 0" | "caller_rank Cancelled = 0"

fun closer_rank :: "closer \<Rightarrow> nat" where
  "closer_rank NotClosing = 2" | "closer_rank (Closing eo) = 1" | "closer_rank Closed = 0"

definition rank_at :: "system \<Rightarrow> nat \<Rightarrow> nat" where
  "rank_at s i = worker_rank (workers s i) + caller_rank (callers s i) + closer_rank (closers s i)"

definition untouched :: "system \<Rightarrow> nat \<Rightarrow> bool" where
  "untouched s i \<longleftrightarrow> workers s i = Idle \<and> callers s i = Absent \<and> closers s i = NotClosing"

lemma worker_rank_le: "worker_rank w \<le> 5 \<and> (worker_rank w = 5 \<longleftrightarrow> w = Idle)"
  by (cases w) simp_all

lemma caller_rank_le: "caller_rank k \<le> 4 \<and> (caller_rank k = 4 \<longleftrightarrow> k = Absent)"
  by (cases k) simp_all

lemma closer_rank_le: "closer_rank c \<le> 2 \<and> (closer_rank c = 2 \<longleftrightarrow> c = NotClosing)"
  by (cases c) simp_all

lemma rank_le: "rank_at s i \<le> 11"
  using worker_rank_le [of "workers s i"] caller_rank_le [of "callers s i"] closer_rank_le [of "closers s i"]
  unfolding rank_at_def by linarith

lemma untouched_rank: "untouched s i \<longleftrightarrow> rank_at s i = 11"
  using worker_rank_le [of "workers s i"] caller_rank_le [of "callers s i"] closer_rank_le [of "closers s i"]
  unfolding rank_at_def untouched_def by linarith

text \<open>A step lowers the rank of one actor and leaves the others alone.\<close>

lemma step_rank: "trino_step s s' \<Longrightarrow> \<exists>i. rank_at s' i < rank_at s i \<and> (\<forall>j. j \<noteq> i \<longrightarrow> rank_at s' j = rank_at s j)"
  by (induction rule: trino_step.induct) (auto simp: rank_at_def give_up_def)

text \<open>A run in which only the first \<open>n\<close> requests and closings took part has at most \<open>11 * n\<close> steps.\<close>

lemma step_total_rank:
  assumes "trino_step s s'" "\<forall>i \<ge> n. untouched s' i"
  shows "(\<forall>i \<ge> n. untouched s i) \<and> sum (rank_at s') {..<n} < sum (rank_at s) {..<n}"
proof -
  obtain i where i: "rank_at s' i < rank_at s i" "\<forall>j. j \<noteq> i \<longrightarrow> rank_at s' j = rank_at s j"
    using step_rank [OF assms(1)] by blast
  then have "\<not> untouched s' i" using rank_le [of s i] by (simp add: untouched_rank)
  with assms(2) have "i < n" using not_le by blast
  with i have "sum (rank_at s') {..<n} < sum (rank_at s) {..<n}"
    by (intro sum_strict_mono_ex1) (auto intro!: bexI [of _ i] order_eq_refl le_less [THEN iffD2])
  with i \<open>i < n\<close> assms(2) show ?thesis by (metis leD untouched_rank)
qed

lemma run_bound:
  "(trino_step ^^ k) s s' \<Longrightarrow> \<forall>i \<ge> n. untouched s' i \<Longrightarrow> k + sum (rank_at s') {..<n} \<le> sum (rank_at s) {..<n}"
proof (induction k arbitrary: s')
  case (Suc k)
  then obtain r where r: "(trino_step ^^ k) s r" "trino_step r s'" by auto
  from step_total_rank [OF r(2) Suc.prems(2)] Suc.IH [OF r(1)]
  have "k + sum (rank_at r) {..<n} \<le> sum (rank_at s) {..<n}" "sum (rank_at s') {..<n} < sum (rank_at r) {..<n}"
    by simp_all
  then show ?case by linarith
qed simp

lemma new_total_rank: "sum (rank_at new_system) {..<n} = 11 * n"
  by (induction n) (simp_all add: rank_at_def new_system_def)

text \<open>Nothing is left to do.\<close>

definition settled :: "system \<Rightarrow> bool" where
  "settled s \<longleftrightarrow>
     (\<forall>i. (case workers s i of Idle \<Rightarrow> True | Finished r \<Rightarrow> True | Dropped \<Rightarrow> True | _ \<Rightarrow> False) \<and>
          (case callers s i of Absent \<Rightarrow> True | Answered r \<Rightarrow> True | Cancelled \<Rightarrow> True | _ \<Rightarrow> False) \<and>
          (case closers s i of Closing eo \<Rightarrow> False | _ \<Rightarrow> True))"

lemma settled_at:
  assumes "settled s"
  shows "workers s i \<noteq> Unlinked e ex" "callers s i \<noteq> Holding eo" "closers s i \<noteq> Closing eo"
  using spec [OF assms [unfolded settled_def], of i] by auto

lemma settled_none_held: "settled s \<Longrightarrow> \<not> held s e"
  by (simp add: holds_def worker_holds_def caller_holds_def closer_holds_def settled_at)

text \<open>Until then some actor can go on, without a new request.\<close>

lemma unsettled_steps:
  assumes "\<not> settled s"
  shows "\<exists>s'. trino_step s s' \<and> (\<forall>i. untouched s i \<longrightarrow> untouched s' i)"
proof -
  obtain i where i: "\<not> ((case workers s i of Idle \<Rightarrow> True | Finished r \<Rightarrow> True | Dropped \<Rightarrow> True | _ \<Rightarrow> False) \<and>
          (case callers s i of Absent \<Rightarrow> True | Answered r \<Rightarrow> True | Cancelled \<Rightarrow> True | _ \<Rightarrow> False) \<and>
          (case closers s i of Closing eo \<Rightarrow> False | _ \<Rightarrow> True))"
    using assms by (auto simp: settled_def)
  consider (q) "workers s i = Queued" | (s) "workers s i = Started" | (c) e where "workers s i = Connected e"
    | (u) e ex where "workers s i = Unlinked e ex" | (a) "callers s i = Awaiting" | (e) "callers s i = Expired"
    | (h) eo where "callers s i = Holding eo" | (k) eo where "closers s i = Closing eo"
    using i by (cases "workers s i"; cases "callers s i"; cases "closers s i") auto
  then show ?thesis
  proof cases
    case q
    from trino_step.start [OF this] q show ?thesis by (force simp: untouched_def)
  next
    case s
    obtain e c where "get_engine (cl s) = (e, c)" by force
    from trino_step.connect [OF s this] s show ?thesis by (force simp: untouched_def)
  next
    case c
    from trino_step.rows [OF this, of "[]"] c show ?thesis by (force simp: untouched_def)
  next
    case u
    from trino_step.discard [OF this] u show ?thesis by (force simp: untouched_def)
  next
    case a
    from trino_step.expire [OF this] a show ?thesis by (force simp: untouched_def)
  next
    case e
    obtain eo c where "take_engine (cl s) = (eo, c)" by force
    from trino_step.reclaim [OF e this] e show ?thesis by (force simp: untouched_def)
  next
    case h
    from trino_step.answer [OF this] h show ?thesis by (force simp: untouched_def)
  next
    case k
    from trino_step.close_dispose [OF this] k show ?thesis by (force simp: untouched_def)
  qed
qed

text \<open>Answers are the query's own or the time-out.\<close>

definition genuine :: "system \<Rightarrow> bool" where
  "genuine s \<longleftrightarrow> (\<forall>i r. callers s i = Answered r \<longrightarrow> r = query_timeout \<or> workers s i = Finished r)"

lemma genuine_step: "trino_step s s' \<Longrightarrow> genuine s \<Longrightarrow> genuine s'"
  by (induction rule: trino_step.induct) (fastforce simp: genuine_def)+

lemma genuine_reachable: "trino_reachable s \<Longrightarrow> genuine s"
proof (induction rule: rtranclp_induct)
  case base
  show ?case by (simp add: genuine_def new_system_def)
qed (rule genuine_step)


section \<open>Properties\<close>

text \<open>One request alone, to follow a run.\<close>

definition one_request :: "client \<Rightarrow> worker \<Rightarrow> caller \<Rightarrow> system" where
  "one_request c w k = \<lparr>cl = c, workers = (\<lambda>_. Idle)(0 := w), callers = (\<lambda>_. Absent)(0 := k), closers = (\<lambda>_. NotClosing)\<rparr>"

definition client_with :: "nat option \<Rightarrow> nat set \<Rightarrow> client" where
  "client_with eo dead = \<lparr>slot = eo, created = 1, disposed = dead\<rparr>"

lemma one_request_steps:
  "trino_step new_system (one_request new_client Queued Awaiting)"
  "trino_step (one_request new_client Queued Awaiting) (one_request new_client Started Awaiting)"
  "trino_step (one_request new_client Started Awaiting) (one_request (client_with (Some 0) {}) (Connected 0) Awaiting)"
  "trino_step (one_request (client_with (Some 0) {}) (Connected 0) Awaiting)
     (one_request (client_with (Some 0) {}) (Connected 0) Expired)"
  "trino_step (one_request (client_with (Some 0) {}) (Connected 0) Expired)
     (one_request (client_with None {}) (Connected 0) (Holding (Some 0)))"
  "trino_step (one_request (client_with None {}) (Connected 0) (Holding (Some 0)))
     (one_request (client_with None {0}) (Connected 0) (Answered query_timeout))"
  "trino_step (one_request (client_with None {0}) (Connected 0) (Answered query_timeout))
     (one_request (client_with None {0}) (Finished (Inr [])) (Answered query_timeout))"
  using trino_step.submit [of new_system 0] trino_step.start [of "one_request new_client Queued Awaiting" 0]
    trino_step.connect [of "one_request new_client Started Awaiting" 0 0 "client_with (Some 0) {}"]
    trino_step.expire [of "one_request (client_with (Some 0) {}) (Connected 0) Awaiting" 0]
    trino_step.reclaim [of "one_request (client_with (Some 0) {}) (Connected 0) Expired" 0 "Some 0" "client_with None {}"]
    trino_step.answer [of "one_request (client_with None {}) (Connected 0) (Holding (Some 0))" 0 "Some 0"]
    trino_step.rows [of "one_request (client_with None {0}) (Connected 0) (Answered query_timeout)" 0 0 "[]"]
  by (simp_all add: one_request_def new_system_def new_client_def client_with_def client_defs give_up_def)

text \<open>C13: the shared engine refines an abstract pool: whatever queries, time-outs, failures, cancellations
  and closings interleave, each step of the client creates an engine only while none is current,
  retires the current one, kills a retired one, or changes no engine; an engine never comes back
  from the dead, so no query connects to a disposed one that is current again, and every retired
  engine that is not dead yet is in the hands of somebody who is about to dispose it.\<close>

theorem engine_pool_refined:
  assumes "trino_reachable s" "trino_step s s'"
  shows "status (cl new_system) = (\<lambda>_. Unborn) \<and> pool_step\<^sup>=\<^sup>= (status (cl s)) (status (cl s')) \<and>
     (\<forall>e. status (cl s) e = Retired \<longrightarrow> held s e) \<and>
     (\<forall>e. status (cl s) e = Current \<longrightarrow> \<not> held s e \<and> e \<notin> disposed (cl s))"
proof -
  have acc: "accounted s" by (rule accounted_reachable [OF assms(1)])
  have "pool_step\<^sup>=\<^sup>= (status (cl s)) (status (cl s'))" by (rule pool_refined [OF assms(2) acc])
  moreover have "status (cl new_system) = (\<lambda>_. Unborn)"
    by (simp add: status_def new_system_def new_client_def fun_eq_iff)
  moreover have "\<forall>e. status (cl s) e = Retired \<longrightarrow> held s e"
    "\<forall>e. status (cl s) e = Current \<longrightarrow> \<not> held s e \<and> e \<notin> disposed (cl s)"
    using acc by (auto simp: accounted_def status_def not_le split: if_splits)
  ultimately show ?thesis by blast
qed

theorem engine_pool_refined_witness:
  "held (one_request (client_with None {}) (Connected 0) (Holding (Some 0))) 0"
proof -
  have "trino_reachable (one_request (client_with None {}) (Connected 0) (Holding (Some 0)))"
    using one_request_steps(1-5) by (meson converse_rtranclp_into_rtranclp r_into_rtranclp)
  from engine_pool_refined [OF this one_request_steps(6)]
  show ?thesis by (simp add: status_def one_request_def client_with_def)
qed

text \<open>C14: every run of the client comes to rest: with \<open>n\<close> requests and closings no run has more than
  \<open>11 * n\<close> steps; until everything is settled some request, query or closing can take a step, so
  no caller waits for ever; when it is settled every engine ever created is disposed or is the
  current one; and a caller is only answered with the outcome of its own query or the 504
  time-out.\<close>

theorem trino_runs_quiesce:
  assumes "(trino_step ^^ k) new_system s" and "\<forall>i \<ge> n. untouched s i"
  shows "k \<le> 11 * n \<and>
     (settled s \<or> (\<exists>s'. trino_step s s' \<and> (\<forall>i \<ge> n. untouched s' i))) \<and>
     (settled s \<longrightarrow> disposed (cl s) \<union> set_option (slot (cl s)) = {..<created (cl s)}) \<and>
     (\<forall>i r. callers s i = Answered r \<longrightarrow> r = query_timeout \<or> workers s i = Finished r)"
proof -
  have reach: "trino_reachable s" using assms(1) by (rule relpowp_imp_rtranclp)
  have "k \<le> 11 * n" using run_bound [OF assms] by (simp add: new_total_rank)
  moreover have "settled s \<or> (\<exists>s'. trino_step s s' \<and> (\<forall>i \<ge> n. untouched s' i))"
    using unsettled_steps [of s] assms(2) by blast
  moreover have "settled s \<longrightarrow> disposed (cl s) \<union> set_option (slot (cl s)) = {..<created (cl s)}"
  proof
    assume "settled s"
    then have "\<not> held s e" for e by (rule settled_none_held)
    then have "\<forall>e. (slot (cl s) = Some e \<or> e \<in> disposed (cl s)) \<longleftrightarrow> e < created (cl s)"
      using accounted_reachable [OF reach] unfolding accounted_def by blast
    then show "disposed (cl s) \<union> set_option (slot (cl s)) = {..<created (cl s)}"
      by (auto simp: set_eq_iff)
  qed
  moreover have "\<forall>i r. callers s i = Answered r \<longrightarrow> r = query_timeout \<or> workers s i = Finished r"
    using genuine_reachable [OF reach] by (simp add: genuine_def)
  ultimately show ?thesis by blast
qed

theorem trino_runs_quiesce_witness:
  "\<exists>s. (trino_step ^^ 7) new_system s \<and> disposed (cl s) = {..<1} \<and> callers s 0 = Answered query_timeout"
proof -
  let ?s = "one_request (client_with None {0}) (Finished (Inr [])) (Answered query_timeout)"
  have run: "(trino_step ^^ 7) new_system ?s"
    unfolding numeral_eq_Suc pred_numeral_simps arith_simps BitM.simps
    by (rule relpowp_Suc_I2, rule one_request_steps(1),
       rule relpowp_Suc_I2, rule one_request_steps(2),
       rule relpowp_Suc_I2, rule one_request_steps(3),
       rule relpowp_Suc_I2, rule one_request_steps(4),
       rule relpowp_Suc_I2, rule one_request_steps(5),
       rule relpowp_Suc_I2, rule one_request_steps(6),
       rule relpowp_Suc_I2, rule one_request_steps(7), simp)
  have "settled ?s" "\<forall>i \<ge> 1. untouched ?s i"
    by (simp_all add: settled_def untouched_def one_request_def)
  with trino_runs_quiesce [OF run this(2)] run show ?thesis
    by (auto simp: one_request_def client_with_def)
qed

end
