(* ===== verification/Data_Routes.thy ===== *)
theory Data_Routes
  imports Trino_Client
begin

text \<open>
  The fixed data routes: the users query (\<open>query_engine/users_query.py\<close>, \<open>users_service.py\<close>,
  \<open>endpoints/data.py\<close>) and the two Power BI queries (\<open>schemas/power_bi.py\<close>,
  \<open>query_engine/power_bi_query.py\<close>, \<open>power_bi_service.py\<close>, \<open>endpoints/power_bi.py\<close>). A
  statement that SQLAlchemy composes is the expression tree the code composes; Trino is the
  argument that answers it.
\<close>

section \<open>The order of dates\<close>

instantiation pydate :: linorder
begin

definition less_pydate :: "pydate \<Rightarrow> pydate \<Rightarrow> bool" where
  "less_pydate a b = date_less a b"

definition less_eq_pydate :: "pydate \<Rightarrow> pydate \<Rightarrow> bool" where
  "less_eq_pydate a b = (\<not> date_less b a)"

instance
proof
  fix a b c :: pydate
  show "a < b \<longleftrightarrow> a \<le> b \<and> \<not> b \<le> a" by (auto simp: less_pydate_def less_eq_pydate_def date_less_def)
  show "a \<le> a" by (simp add: less_eq_pydate_def date_less_def)
  show "a \<le> b \<Longrightarrow> b \<le> c \<Longrightarrow> a \<le> c" by (auto simp: less_eq_pydate_def date_less_def)
  show "a \<le> b \<Longrightarrow> b \<le> a \<Longrightarrow> a = b" by (cases a; cases b) (auto simp: less_eq_pydate_def date_less_def)
  show "a \<le> b \<or> b \<le> a" by (auto simp: less_eq_pydate_def date_less_def)
qed

end

section \<open>The users query\<close>

definition newline :: string where
  "newline = [char_of (10 :: nat)]"

definition spaces :: "nat \<Rightarrow> string" where
  "spaces n = replicate n (CHR '' '')"

definition USERS_SOURCE_TABLE :: "exn + string" where
  "USERS_SOURCE_TABLE = quote_identifier_path ''hive.default.users''"

definition build_users_query :: "string \<Rightarrow> int \<Rightarrow> int \<Rightarrow> string" where
  "build_users_query source limit offset =
     py_join newline
       [[], spaces 8 @ ''SELECT'', spaces 12 @ ''user_id,'', spaces 12 @ ''customer_id,'',
        spaces 12 @ ''full_name,'', spaces 12 @ ''created_at'', spaces 8 @ ''FROM '' @ source,
        spaces 8 @ ''ORDER BY created_at DESC'', spaces 8 @ ''OFFSET '' @ str_of_int offset,
        spaces 8 @ ''LIMIT '' @ str_of_int limit, spaces 4]"

type_synonym rows_result = "row list \<times> missing_mapping list"

definition users_data :: "(string \<Rightarrow> exn + row list) \<Rightarrow> account_map \<Rightarrow> int \<Rightarrow> int \<Rightarrow> exn + rows_result" where
  "users_data trino cache limit offset =
     rbind USERS_SOURCE_TABLE (\<lambda>source.
     let spec = \<lparr>route_name = ''data.users'', statement = build_users_query source limit offset,
                 column_pii_rules = USERS_PII_RULES\<rparr>
     in rbind (trino (statement spec)) (\<lambda>rows. map_pii_fields cache rows spec))"

section \<open>The Power BI statement\<close>

text \<open>The part of SQLAlchemy's expression language the query uses.\<close>

datatype sql_expr =
    Column string string \<comment> \<open>table and column\<close>
  | Lit pyval
  | Fn string "sql_expr list"
  | DivBy sql_expr int
  | Like sql_expr string
  | AnyOf "sql_expr list"
  | CaseWhen "(sql_expr \<times> sql_expr) list" sql_expr
  | Equals sql_expr sql_expr
  | Between sql_expr pyval pyval
  | InList sql_expr "pyval list"
  | RowNumberOver sql_expr

record select_stmt =
  sel_columns :: "(string \<times> sql_expr) list"
  sel_from :: string
  sel_outer_join :: "string \<times> sql_expr"
  sel_where :: "sql_expr list"
  sel_order_by :: sql_expr
  sel_limit :: "int option"

definition EVENT :: string where
  "EVENT = ''hive.wh_cpm.cpm_event_raw''"

definition CUSTOMER :: string where
  "CUSTOMER = ''hive.wh_bo_hudi.t_cust_customer''"

definition element_at :: "sql_expr \<Rightarrow> string \<Rightarrow> sql_expr" where
  "element_at m k = Fn ''element_at'' [m, Lit (PStr k)]"

definition device_expr :: sql_expr where
  "device_expr =
     (let ua = Fn ''lower'' [Column EVENT ''user_agent''] in
      CaseWhen
        [(AnyOf [Like ua ''%android%'', Like ua ''%dalvik%''], Lit (PStr ''Android'')),
         (AnyOf [Like ua ''%cfnetwork%'', Like ua ''%darwin%''], Lit (PStr ''iOS''))]
        (Lit (PStr ''Other'')))"

definition event_time_expr :: sql_expr where
  "event_time_expr = Fn ''from_unixtime'' [DivBy (Column EVENT ''timestamp'') 1000]"

record deeplink_query =
  dq_event_key :: string
  dq_start :: pydate
  dq_end :: pydate
  dq_segmentation :: "string list"
  dq_user_agent :: "string list"
  dq_accounts :: "string list"
  dq_limit :: "int option"
  dq_status :: "string option"

definition deeplink_conditions :: "deeplink_query \<Rightarrow> sql_expr list" where
  "deeplink_conditions q =
     (let segmentation = Column EVENT ''segmentation''; bank_name = element_at segmentation ''bank_name'' in
      [Equals (Column EVENT ''key'') (Lit (PStr (dq_event_key q))),
       Equals (element_at segmentation ''bank_method'') (Lit (PStr ''deeplink'')),
       Between (Fn ''date'' [event_time_expr]) (PDate (dq_start q)) (PDate (dq_end q))] @
      (case dq_status q of None \<Rightarrow> [] | Some st \<Rightarrow> [Equals (element_at segmentation ''status'') (Lit (PStr st))]) @
      (if dq_segmentation q = [] then []
       else [InList (Fn ''lower'' [bank_name]) (map (\<lambda>v. PStr (py_casefold v)) (dq_segmentation q))]) @
      (if dq_user_agent q = [] then []
       else [InList (Fn ''lower'' [device_expr]) (map (\<lambda>v. PStr (py_casefold v)) (dq_user_agent q))]) @
      (if dq_accounts q = [] then [] else [InList (Column EVENT ''accountid'') (map PStr (dq_accounts q))]))"

definition build_power_bi_deeplink_query :: "deeplink_query \<Rightarrow> select_stmt" where
  "build_power_bi_deeplink_query q =
     \<lparr>sel_columns =
        [(''stt'', RowNumberOver (Column EVENT ''timestamp'')),
         (''event_time'', Fn ''date_format'' [event_time_expr, Lit (PStr ''%Y-%m-%d %H:%i:%s'')]),
         (''bank_name'', element_at (Column EVENT ''segmentation'') ''bank_name''),
         (''accountid'', Column EVENT ''accountid''),
         (''c_cust_full_name'', Column CUSTOMER ''c_cust_full_name''),
         (''device'', device_expr)],
      sel_from = EVENT,
      sel_outer_join = (CUSTOMER, Equals (Column EVENT ''accountid'') (Column CUSTOMER ''c_customer_code'')),
      sel_where = deeplink_conditions q,
      sel_order_by = Column EVENT ''timestamp'',
      sel_limit = dq_limit q\<rparr>"

section \<open>The Power BI request\<close>

record power_bi_request =
  pb_start :: pydate
  pb_end :: pydate
  pb_limit :: "int option"
  pb_segmentation :: "string list"
  pb_user_agent :: "string list"
  pb_customer_id :: "string list"

definition split_filter_value :: "string \<Rightarrow> string list" where
  "split_filter_value v = filter (\<lambda>item. item \<noteq> []) (map py_strip (py_split (CHR '','') v))"

fun split_filter_values :: "string \<Rightarrow> pyval list \<Rightarrow> exn + string list" where
  "split_filter_values field_name [] = Inr []"
| "split_filter_values field_name (PStr v # vs) =
     rbind (split_filter_values field_name vs) (\<lambda>rest. Inr (split_filter_value v @ rest))"
| "split_filter_values field_name (_ # vs) = Inl (ValueErr (field_name @ '' must contain only strings''))"

fun normalize_filter_values :: "string \<Rightarrow> pyval \<Rightarrow> exn + string list" where
  "normalize_filter_values field_name PNone = Inr []"
| "normalize_filter_values field_name (PStr v) = split_filter_values field_name [PStr v]"
| "normalize_filter_values field_name (PList vs) = split_filter_values field_name vs"
| "normalize_filter_values field_name _ = Inl (ValueErr (field_name @ '' must be a string or list of strings''))"

text \<open>A \<open>ValueError\<close> of a validator becomes a validation error of the model.\<close>

definition as_validation :: "exn + 'a \<Rightarrow> exn + 'a" where
  "as_validation r = (case r of Inl (ValueErr m) \<Rightarrow> Inl (ModelValidationErr []) | _ \<Rightarrow> r)"

definition validate_date_range :: "power_bi_request \<Rightarrow> exn + power_bi_request" where
  "validate_date_range p =
     (if pb_end p < pb_start p then Inl (ValueErr ''start_date must be before or equal to end_date'') else Inr p)"

text \<open>\<open>date.today() - timedelta(days=1)\<close>\<close>

definition default_start_date :: "pydate \<Rightarrow> pydate" where
  "default_start_date today = ord_to_ymd (ymd_to_ord (dyear today) (dmonth today) (dday today) - 1)"

text \<open>The raw values of the query string, converted by FastAPI; a date that is absent or null is
  None.\<close>

record power_bi_query =
  pq_start :: "pydate option"
  pq_end :: "pydate option"
  pq_limit :: "int option"
  pq_segmentation :: pyval
  pq_user_agent :: pyval
  pq_customer_id :: pyval

definition power_bi_request_schema :: "pydate \<Rightarrow> power_bi_query \<Rightarrow> exn + power_bi_request" where
  "power_bi_request_schema today q =
     as_validation
       (rbind (normalize_filter_values ''segmentation'' (pq_segmentation q)) (\<lambda>seg.
        rbind (normalize_filter_values ''user_agent'' (pq_user_agent q)) (\<lambda>ua.
        rbind (normalize_filter_values ''customer_id'' (pq_customer_id q)) (\<lambda>cu.
          validate_date_range
            \<lparr>pb_start = (case pq_start q of None \<Rightarrow> default_start_date today | Some d \<Rightarrow> d),
             pb_end = (case pq_end q of None \<Rightarrow> today | Some d \<Rightarrow> d),
             pb_limit = pq_limit q, pb_segmentation = seg, pb_user_agent = ua, pb_customer_id = cu\<rparr>))))"

definition request_dump :: "power_bi_request \<Rightarrow> row" where
  "request_dump p =
     [(''start_date'', PStr (date_isoformat (pb_start p))), (''end_date'', PStr (date_isoformat (pb_end p))),
      (''limit'', case pb_limit p of None \<Rightarrow> PNone | Some n \<Rightarrow> PInt n),
      (''segmentation'', PList (map PStr (pb_segmentation p))),
      (''user_agent'', PList (map PStr (pb_user_agent p))),
      (''customer_id'', PList (map PStr (pb_customer_id p)))]"

section \<open>The Power BI service\<close>

definition deeplink_query_of :: "account_map \<Rightarrow> string \<Rightarrow> string option \<Rightarrow> power_bi_request \<Rightarrow> deeplink_query" where
  "deeplink_query_of cache event_key status_filter p =
     \<lparr>dq_event_key = event_key, dq_start = pb_start p, dq_end = pb_end p,
      dq_segmentation = pb_segmentation p, dq_user_agent = pb_user_agent p,
      dq_accounts = get_tokens_by_original_values cache (pb_customer_id p),
      dq_limit = pb_limit p, dq_status = status_filter\<rparr>"

definition deeplink ::
  "string \<Rightarrow> string \<Rightarrow> string option \<Rightarrow> (select_stmt \<Rightarrow> exn + row list) \<Rightarrow> account_map \<Rightarrow> power_bi_request \<Rightarrow>
   exn + rows_result" where
  "deeplink route event_key status_filter trino cache p =
     (let spec = \<lparr>route_name = route,
                  statement = build_power_bi_deeplink_query
                    (deeplink_query_of cache event_key status_filter p),
                  column_pii_rules = POWER_BI_ACCOUNT_PII_RULES\<rparr>
      in rbind (trino (statement spec)) (\<lambda>rows. map_pii_fields cache rows spec))"

definition deeplink_1 :: "(select_stmt \<Rightarrow> exn + row list) \<Rightarrow> account_map \<Rightarrow> power_bi_request \<Rightarrow> exn + rows_result" where
  "deeplink_1 = deeplink ''power_bi.deeplink_1'' ''topup_result'' (Some ''processing'')"

definition deeplink_2 :: "(select_stmt \<Rightarrow> exn + row list) \<Rightarrow> account_map \<Rightarrow> power_bi_request \<Rightarrow> exn + rows_result" where
  "deeplink_2 = deeplink ''power_bi.deeplink_2'' ''topup_bank_app'' None"

section \<open>Endpoints\<close>

text \<open>
  The routers of these endpoints require the API permission, as the users router does. A result
  comes with the background task that audits values without a mapping.
\<close>

definition data_task :: "draw \<Rightarrow> user \<Rightarrow> string \<Rightarrow> row \<Rightarrow> missing_mapping list \<Rightarrow> unit dbp option" where
  "data_task dw u route rparams missing =
     (if missing \<noteq> [] then Some (audit_missing_mappings dw u route rparams missing) else None)"

definition list_users_data_endpoint ::
  "(string \<Rightarrow> exn + row list) \<Rightarrow> account_map \<Rightarrow> crypto \<Rightarrow> settings \<Rightarrow> draw \<Rightarrow> http_request \<Rightarrow> string \<Rightarrow>
   int \<Rightarrow> int \<Rightarrow> (rows_result \<times> unit dbp option) dbp" where
  "list_users_data_endpoint trino cache cr st dw rq tok limit offset =
     users_router cr st dw rq tok (\<lambda>u.
       if limit < 1 \<or> 1000 < limit \<or> offset < 0 then raise (RequestValidationErr [])
       else seq (embed (users_data trino cache limit offset)) (\<lambda>(rows, missing).
         ret ((rows, missing),
              data_task dw u ''data.users'' [(''limit'', PInt limit), (''offset'', PInt offset)] missing)))"

definition deeplink_endpoint ::
  "string \<Rightarrow> ((select_stmt \<Rightarrow> exn + row list) \<Rightarrow> account_map \<Rightarrow> power_bi_request \<Rightarrow> exn + rows_result) \<Rightarrow>
   (select_stmt \<Rightarrow> exn + row list) \<Rightarrow> account_map \<Rightarrow> crypto \<Rightarrow> settings \<Rightarrow> draw \<Rightarrow> http_request \<Rightarrow> string \<Rightarrow>
   pydate \<Rightarrow> power_bi_query \<Rightarrow> (rows_result \<times> unit dbp option) dbp" where
  "deeplink_endpoint route service trino cache cr st dw rq tok today q =
     users_router cr st dw rq tok (\<lambda>u.
       if (case pq_limit q of None \<Rightarrow> False | Some n \<Rightarrow> n < 1) then raise (RequestValidationErr [])
       else seq (embed (power_bi_request_schema today q)) (\<lambda>p.
            seq (embed (service trino cache p)) (\<lambda>(rows, missing).
              ret ((rows, missing), data_task dw u route (request_dump p) missing))))"

definition get_deeplink_1 where
  "get_deeplink_1 = deeplink_endpoint ''power_bi.deeplink_1'' deeplink_1"

definition get_deeplink_2 where
  "get_deeplink_2 = deeplink_endpoint ''power_bi.deeplink_2'' deeplink_2"


section \<open>What the conditions mean\<close>

text \<open>
  SQL's LIKE and the truth values of the conditions on one joined row. Trino's functions are the
  argument \<open>fn\<close>; null is \<open>PNone\<close>, and a condition selects the row when it is true.
\<close>

fun sql_like :: "string \<Rightarrow> string \<Rightarrow> bool" where
  "sql_like [] s = (s = [])"
| "sql_like (c # p) [] = (c = CHR ''%'' \<and> sql_like p [])"
| "sql_like (c # p) (d # s) =
     (if c = CHR ''%'' then sql_like p (d # s) \<or> sql_like (c # p) s
      else (c = CHR ''_'' \<or> c = d) \<and> sql_like p s)"

fun sql_eval :: "(string \<Rightarrow> pyval list \<Rightarrow> pyval) \<Rightarrow> (string \<Rightarrow> string \<Rightarrow> pyval) \<Rightarrow> sql_expr \<Rightarrow> pyval" where
  "sql_eval fn env (Column t c) = env t c"
| "sql_eval fn env (Lit v) = v"
| "sql_eval fn env (Fn f es) = fn f (map (sql_eval fn env) es)"
| "sql_eval fn env (DivBy e n) = fn ''divide'' [sql_eval fn env e, PInt n]"
| "sql_eval fn env (Like e p) = (case sql_eval fn env e of PStr s \<Rightarrow> PBool (sql_like p s) | _ \<Rightarrow> PNone)"
| "sql_eval fn env (AnyOf es) =
     (let vs = map (sql_eval fn env) es in
      if PBool True \<in> set vs then PBool True else if PNone \<in> set vs then PNone else PBool False)"
| "sql_eval fn env (CaseWhen ws d) =
     (case find (\<lambda>(c, v). c = PBool True) (map (\<lambda>(c, e). (sql_eval fn env c, sql_eval fn env e)) ws) of
        Some (c, v) \<Rightarrow> v
      | None \<Rightarrow> sql_eval fn env d)"
| "sql_eval fn env (Equals a b) =
     (let x = sql_eval fn env a; y = sql_eval fn env b in if x = PNone \<or> y = PNone then PNone else PBool (x = y))"
| "sql_eval fn env (Between e lo hi) =
     (case (sql_eval fn env e, lo, hi) of
        (PDate d, PDate a, PDate b) \<Rightarrow> PBool (a \<le> d \<and> d \<le> b)
      | _ \<Rightarrow> PNone)"
| "sql_eval fn env (InList e vs) =
     (let x = sql_eval fn env e in if x = PNone then PNone else PBool (x \<in> set vs))"
| "sql_eval fn env (RowNumberOver e) = fn ''row_number'' [sql_eval fn env e]"

definition selects :: "(string \<Rightarrow> pyval list \<Rightarrow> pyval) \<Rightarrow> (string \<Rightarrow> string \<Rightarrow> pyval) \<Rightarrow> select_stmt \<Rightarrow> bool" where
  "selects fn env st \<longleftrightarrow> list_all (\<lambda>c. sql_eval fn env c = PBool True) (sel_where st)"

text \<open>What the code relies on: \<open>lower\<close> maps strings by a function that lowers the letters A to Z,
  and null to null; the values of the segmentation map are strings or null.\<close>

definition trino_strings :: "(string \<Rightarrow> pyval list \<Rightarrow> pyval) \<Rightarrow> (string \<Rightarrow> string) \<Rightarrow> bool" where
  "trino_strings fn lw \<longleftrightarrow>
     (\<forall>s. fn ''lower'' [PStr s] = PStr (lw s)) \<and> fn ''lower'' [PNone] = PNone \<and>
     (\<forall>m k. fn ''element_at'' [m, k] = PNone \<or> (\<exists>s. fn ''element_at'' [m, k] = PStr s)) \<and>
     (\<forall>s. list_all is_ascii_letter s \<longrightarrow> lw s = py_lower s)"

text \<open>The device of a user agent, lowered.\<close>

definition device_of :: "(string \<Rightarrow> string) \<Rightarrow> string option \<Rightarrow> string" where
  "device_of lw agent =
     (case agent of
        None \<Rightarrow> ''other''
      | Some s \<Rightarrow>
          if contains_str ''android'' (lw s) \<or> contains_str ''dalvik'' (lw s) then ''android''
          else if contains_str ''cfnetwork'' (lw s) \<or> contains_str ''darwin'' (lw s) then ''ios'' else ''other'')"

definition opt_value :: "string option \<Rightarrow> pyval" where
  "opt_value s = (case s of None \<Rightarrow> PNone | Some t \<Rightarrow> PStr t)"

definition known_account :: "account_map \<Rightarrow> string list \<Rightarrow> string \<Rightarrow> bool" where
  "known_account cache customers tok \<longleftrightarrow>
     (\<exists>mapped c. (mapped, tok) \<in> set (hashmap_value_to_token cache) \<and> c \<in> set customers \<and>
        py_casefold mapped = py_casefold c)"

lemma sql_like_prefix: "sql_like (w @ ''%'') s \<longleftrightarrow> startswith s w"
  if "CHR ''%'' \<notin> set w" "CHR ''_'' \<notin> set w"
  using that
proof (induction w arbitrary: s)
  case Nil
  have "sql_like ''%'' s" by (induction s) auto
  then show ?case by (simp add: startswith_def)
next
  case (Cons c w)
  then show ?case by (cases s) (auto simp: startswith_def)
qed

lemma sql_like_contains: "sql_like (CHR ''%'' # w @ ''%'') s \<longleftrightarrow> contains_str w s"
  if "CHR ''%'' \<notin> set w" "CHR ''_'' \<notin> set w"
proof (induction s)
  case Nil
  show ?case using sql_like_prefix [OF that, of "[]"] by (auto simp: startswith_def)
next
  case (Cons d s)
  then show ?case using sql_like_prefix [OF that, of "d # s"] by simp
qed


lemma lower_device:
  assumes "trino_strings fn lw"
  shows "lw ''Android'' = ''android''" "lw ''iOS'' = ''ios''" "lw ''Other'' = ''other''"
proof -
  have "py_lower ''Android'' = ''android''" "py_lower ''iOS'' = ''ios''" "py_lower ''Other'' = ''other''"
    "list_all is_ascii_letter ''Android''" "list_all is_ascii_letter ''iOS''" "list_all is_ascii_letter ''Other''"
    by code_simp+
  with assms show "lw ''Android'' = ''android''" "lw ''iOS'' = ''ios''" "lw ''Other'' = ''other''"
    by (simp_all add: trino_strings_def)
qed

lemma device_eval:
  assumes "trino_strings fn lw" "env EVENT ''user_agent'' = opt_value agent"
  shows "fn ''lower'' [sql_eval fn env device_expr] = PStr (device_of lw agent)"
proof -
  have low: "fn ''lower'' [PStr s] = PStr (lw s)" "fn ''lower'' [PNone] = PNone" for s
    using assms(1) by (simp_all add: trino_strings_def)
  note like = sql_like_contains [of "''android''"] sql_like_contains [of "''dalvik''"]
    sql_like_contains [of "''cfnetwork''"] sql_like_contains [of "''darwin''"]
  show ?thesis
    using assms(2) lower_device [OF assms(1)] like
    by (cases agent) (simp_all add: device_expr_def Let_def opt_value_def low device_of_def del: sql_like.simps contains_str.simps)
qed

lemma lower_element:
  assumes "trino_strings fn lw" "vs \<noteq> []"
  shows "sql_eval fn env (InList (Fn ''lower'' [element_at m k]) (map PStr vs)) = PBool True \<longleftrightarrow>
    (\<exists>b. sql_eval fn env (element_at m k) = PStr b \<and> lw b \<in> set vs)"
proof -
  have "sql_eval fn env (element_at m k) = PNone \<or> (\<exists>s. sql_eval fn env (element_at m k) = PStr s)"
    using assms(1) by (simp add: element_at_def trino_strings_def)
  then show ?thesis using assms(1) by (auto simp: trino_strings_def)
qed

lemma tokens_iff:
  "customers \<noteq> [] \<Longrightarrow> tok \<in> set (get_tokens_by_original_values cache customers) \<longleftrightarrow>
     known_account cache customers tok \<or> (tok = no_match_token \<and> (\<forall>t. \<not> known_account cache customers t))"
proof -
  assume "customers \<noteq> []"
  let ?ts = "map snd (filter (\<lambda>(mapped, tok). py_casefold mapped \<in> py_casefold ` set customers) (hashmap_value_to_token cache))"
  have known: "t \<in> set ?ts \<longleftrightarrow> known_account cache customers t" for t
    unfolding known_account_def set_map by (rule in_tokens_iff)
  have "get_tokens_by_original_values cache customers = (if ?ts = [] then [no_match_token] else ?ts)"
    using \<open>customers \<noteq> []\<close> by (simp add: get_tokens_by_original_values_def Let_def)
  moreover have "?ts = [] \<longleftrightarrow> (\<forall>t. \<not> known_account cache customers t)"
    using known by (metis ex_in_conv set_empty)
  ultimately have "tok \<in> set (get_tokens_by_original_values cache customers) \<longleftrightarrow>
      (if \<forall>t. \<not> known_account cache customers t then tok = no_match_token else known_account cache customers tok)"
    using known [of tok] by (cases "\<forall>t. \<not> known_account cache customers t") (auto simp del: set_map set_filter)
  then show ?thesis by auto
qed

lemma tokens_nonempty: "get_tokens_by_original_values cache customers = [] \<longleftrightarrow> customers = []"
  by (simp add: get_tokens_by_original_values_def Let_def)

section \<open>Properties\<close>

text \<open>C27: a Power BI query selects exactly these events: those of the event and method of the
  link, the days of the range, the status of the link, and for each filter that is given a bank
  name or device that agrees with one of its values up to case, or an account that is, as Trino stores it before
  any mapping, the token the cache keeps for one of the named customers up to case. When no named customer is
  known the filter is not dropped: it then selects the account that is literally \<open>__NO_MATCH__\<close> and no other.
  So an account that is a token with a suffix, which the response shows as the customer's value with the suffix,
  is not found by the value it is shown as, unless the cache happens to have that value too.\<close>

theorem deeplink_rows_exact:
  assumes "trino_strings fn lw" "env EVENT ''user_agent'' = opt_value agent"
  shows "(selects fn env (build_power_bi_deeplink_query (deeplink_query_of cache event_key status_filter p)) \<longleftrightarrow>
     env EVENT ''key'' = PStr event_key \<and>
     sql_eval fn env (element_at (Column EVENT ''segmentation'') ''bank_method'') = PStr ''deeplink'' \<and>
     (\<exists>d. sql_eval fn env (Fn ''date'' [event_time_expr]) = PDate d \<and> pb_start p \<le> d \<and> d \<le> pb_end p) \<and>
     (status_filter = None \<or>
        sql_eval fn env (element_at (Column EVENT ''segmentation'') ''status'') = PStr (the status_filter)) \<and>
     (pb_segmentation p = [] \<or>
        (\<exists>b. sql_eval fn env (element_at (Column EVENT ''segmentation'') ''bank_name'') = PStr b \<and>
           lw b \<in> py_casefold ` set (pb_segmentation p))) \<and>
     (pb_user_agent p = [] \<or> device_of lw agent \<in> py_casefold ` set (pb_user_agent p)) \<and>
     (pb_customer_id p = [] \<or>
        (\<exists>tok. env EVENT ''accountid'' = PStr tok \<and>
           (known_account cache (pb_customer_id p) tok \<or>
            tok = no_match_token \<and> (\<forall>t. \<not> known_account cache (pb_customer_id p) t))))) \<and>
   (length tok = 32 \<and> dget (hashmap_token_to_value cache) tok = Some shown \<and> pb_customer_id p = [shown @ [x]] \<and>
      env EVENT ''accountid'' = PStr (tok @ [x]) \<and>
      (\<forall>v \<in> set (dkeys (hashmap_value_to_token cache)). py_casefold v \<noteq> py_casefold (shown @ [x])) \<longrightarrow>
      transform_by_token_length (env EVENT ''accountid'') (hashmap_token_to_value cache) = Inr (PStr (shown @ [x])) \<and>
      \<not> selects fn env (build_power_bi_deeplink_query (deeplink_query_of cache event_key status_filter p)))"
proof -
  let ?seg = "Column EVENT ''segmentation''"
  have equals: "sql_eval fn env (Equals e (Lit (PStr v))) = PBool True \<longleftrightarrow> sql_eval fn env e = PStr v" for e v
    by (auto simp: Let_def)
  have between: "sql_eval fn env (Between e (PDate a) (PDate b)) = PBool True \<longleftrightarrow>
      (\<exists>d. sql_eval fn env e = PDate d \<and> a \<le> d \<and> d \<le> b)" for e a b
    by (auto split: pyval.splits)
  have bank: "sql_eval fn env (InList (Fn ''lower'' [element_at ?seg ''bank_name'']) (map (\<lambda>v. PStr (py_casefold v)) vs)) = PBool True \<longleftrightarrow>
      (\<exists>b. sql_eval fn env (element_at ?seg ''bank_name'') = PStr b \<and> lw b \<in> py_casefold ` set vs)" if "vs \<noteq> []" for vs
    using lower_element [OF assms(1), of "map py_casefold vs" env ?seg "''bank_name''"] that by (simp add: comp_def)
  have device: "sql_eval fn env (InList (Fn ''lower'' [device_expr]) (map (\<lambda>v. PStr (py_casefold v)) vs)) = PBool True \<longleftrightarrow>
      device_of lw agent \<in> py_casefold ` set vs" for vs
    using device_eval [where env = env, OF assms] by (auto simp: Let_def)
  have account: "sql_eval fn env (InList (Column EVENT ''accountid'') (map PStr (get_tokens_by_original_values cache cs))) = PBool True \<longleftrightarrow>
      (\<exists>tok. env EVENT ''accountid'' = PStr tok \<and> (known_account cache cs tok \<or>
         tok = no_match_token \<and> (\<forall>t. \<not> known_account cache cs t)))" if "cs \<noteq> []" for cs
    using tokens_iff [OF that, of _ cache] by (auto simp: Let_def)
  note rules = equals between bank device account
  have exact: "selects fn env (build_power_bi_deeplink_query (deeplink_query_of cache event_key status_filter p)) \<longleftrightarrow>
     env EVENT ''key'' = PStr event_key \<and>
     sql_eval fn env (element_at ?seg ''bank_method'') = PStr ''deeplink'' \<and>
     (\<exists>d. sql_eval fn env (Fn ''date'' [event_time_expr]) = PDate d \<and> pb_start p \<le> d \<and> d \<le> pb_end p) \<and>
     (status_filter = None \<or> sql_eval fn env (element_at ?seg ''status'') = PStr (the status_filter)) \<and>
     (pb_segmentation p = [] \<or>
        (\<exists>b. sql_eval fn env (element_at ?seg ''bank_name'') = PStr b \<and> lw b \<in> py_casefold ` set (pb_segmentation p))) \<and>
     (pb_user_agent p = [] \<or> device_of lw agent \<in> py_casefold ` set (pb_user_agent p)) \<and>
     (pb_customer_id p = [] \<or>
        (\<exists>tok. env EVENT ''accountid'' = PStr tok \<and>
           (known_account cache (pb_customer_id p) tok \<or>
            tok = no_match_token \<and> (\<forall>t. \<not> known_account cache (pb_customer_id p) t))))"
    by (simp add: selects_def build_power_bi_deeplink_query_def deeplink_conditions_def deeplink_query_of_def Let_def rules tokens_nonempty
        del: sql_eval.simps(8,9,10) split: option.split)
  have suffix: "transform_by_token_length (env EVENT ''accountid'') (hashmap_token_to_value cache) = Inr (PStr (shown @ [x])) \<and>
      \<not> selects fn env (build_power_bi_deeplink_query (deeplink_query_of cache event_key status_filter p))"
    if "length tok = 32" "dget (hashmap_token_to_value cache) tok = Some shown" "pb_customer_id p = [shown @ [x]]"
      "env EVENT ''accountid'' = PStr (tok @ [x])"
      "\<forall>v \<in> set (dkeys (hashmap_value_to_token cache)). py_casefold v \<noteq> py_casefold (shown @ [x])"
  proof
    show "transform_by_token_length (env EVENT ''accountid'') (hashmap_token_to_value cache) = Inr (PStr (shown @ [x]))"
      using that(1,2,4) by (simp add: transform_by_token_length_def Let_def nth_append)
    have unknown: "\<not> known_account cache (pb_customer_id p) t" for t
      using that(3,5) by (force simp: known_account_def)
    have "tok @ [x] \<noteq> no_match_token" using that(1) by (auto simp: no_match_token_def dest: arg_cong [where f = length])
    with unknown that(3,4) exact show "\<not> selects fn env (build_power_bi_deeplink_query (deeplink_query_of cache event_key status_filter p))"
      by simp
  qed
  show ?thesis using exact suffix by blast
qed


definition demo_trino_functions :: "string \<Rightarrow> pyval list \<Rightarrow> pyval" where
  "demo_trino_functions f args =
     (if f = ''lower'' then (case args of [PStr s] \<Rightarrow> PStr (py_lower s) | _ \<Rightarrow> PNone)
      else if f = ''element_at'' then
        (case args of [PDict m, PStr k] \<Rightarrow> (case dget m k of Some (PStr s) \<Rightarrow> PStr s | _ \<Rightarrow> PNone) | _ \<Rightarrow> PNone)
      else if f = ''divide'' then (case args of [PInt t, PInt n] \<Rightarrow> PInt (t div n) | _ \<Rightarrow> PNone)
      else if f = ''date'' then PDate (Date 2024 7 1)
      else hd args)"

definition demo_event :: "string \<Rightarrow> string \<Rightarrow> pyval" where
  "demo_event t c =
     (case map_of [(''key'', PStr ''topup_bank_app''), (''user_agent'', PStr ''Dalvik/2.1.0''),
          (''accountid'', PStr ''tok-2''), (''timestamp'', PInt 5000),
          (''segmentation'', PDict [(''bank_method'', PStr ''deeplink''), (''bank_name'', PStr ''ACB'')])] c of
        None \<Rightarrow> PNone | Some v \<Rightarrow> v)"

definition demo_request :: power_bi_request where
  "demo_request = \<lparr>pb_start = Date 2024 1 1, pb_end = Date 2024 12 31, pb_limit = None,
     pb_segmentation = [''acb''], pb_user_agent = [''Android''], pb_customer_id = []\<rparr>"

lemma demo_functions_strings: "trino_strings demo_trino_functions py_lower"
proof -
  have "demo_trino_functions ''element_at'' [m, k] = PNone \<or> (\<exists>s. demo_trino_functions ''element_at'' [m, k] = PStr s)" for m k
    by (simp add: demo_trino_functions_def split: pyval.split option.split)
  moreover have "demo_trino_functions ''lower'' [PStr s] = PStr (py_lower s)"
    "demo_trino_functions ''lower'' [PNone] = PNone" for s by (simp_all add: demo_trino_functions_def)
  ultimately show ?thesis unfolding trino_strings_def by blast
qed

lemma demo_event_values:
  "demo_event EVENT ''user_agent'' = PStr ''Dalvik/2.1.0''"
  "demo_event EVENT ''key'' = PStr ''topup_bank_app''"
  "sql_eval demo_trino_functions demo_event (element_at (Column EVENT ''segmentation'') ''bank_method'') = PStr ''deeplink''"
  "sql_eval demo_trino_functions demo_event (element_at (Column EVENT ''segmentation'') ''bank_name'') = PStr ''ACB''"
  "py_lower ''ACB'' \<in> py_casefold ` set (pb_segmentation demo_request)"
  "device_of py_lower (Some ''Dalvik/2.1.0'') \<in> py_casefold ` set (pb_user_agent demo_request)"
  "pb_customer_id demo_request = []"
  by code_simp+

lemma demo_event_day:
  "sql_eval demo_trino_functions demo_event (Fn ''date'' [event_time_expr]) = PDate (Date 2024 7 1)"
  "pb_start demo_request \<le> Date 2024 7 1" "Date 2024 7 1 \<le> pb_end demo_request"
  by (simp_all add: demo_request_def less_eq_pydate_def date_less_def demo_trino_functions_def)

definition suffix_event :: "string \<Rightarrow> string \<Rightarrow> pyval" where
  "suffix_event t c = (if c = ''accountid'' then PStr (replicate 32 (CHR ''v'') @ ''X'') else demo_event t c)"

definition suffix_cache :: account_map where
  "suffix_cache = add_record \<lparr>token = replicate 32 (CHR ''v''), mapped_value = ''uuid-1'', created_at = Some 7\<rparr> new_account_map"

theorem deeplink_rows_exact_witness:
  "selects demo_trino_functions demo_event
     (build_power_bi_deeplink_query (deeplink_query_of new_account_map ''topup_bank_app'' None demo_request)) \<and>
   transform_by_token_length (suffix_event EVENT ''accountid'') (hashmap_token_to_value suffix_cache) = Inr (PStr ''uuid-1X'') \<and>
   \<not> selects demo_trino_functions suffix_event
     (build_power_bi_deeplink_query (deeplink_query_of suffix_cache ''topup_bank_app'' None
       (demo_request\<lparr>pb_customer_id := [''uuid-1X'']\<rparr>)))"
proof -
  have agent: "demo_event EVENT ''user_agent'' = opt_value (Some ''Dalvik/2.1.0'')"
    by (simp only: demo_event_values(1) opt_value_def option.case)
  note exact = deeplink_rows_exact [where env = demo_event, OF demo_functions_strings agent,
        of new_account_map "''topup_bank_app''" None demo_request, THEN conjunct1]
  have agent': "suffix_event EVENT ''user_agent'' = opt_value (Some ''Dalvik/2.1.0'')"
    by (simp add: suffix_event_def agent)
  have cache: "length (replicate 32 (CHR ''v'')) = 32"
    "dget (hashmap_token_to_value suffix_cache) (replicate 32 (CHR ''v'')) = Some ''uuid-1''"
    "pb_customer_id (demo_request\<lparr>pb_customer_id := [''uuid-1X'']\<rparr>) = [''uuid-1'' @ ''X'']"
    "suffix_event EVENT ''accountid'' = PStr (replicate 32 (CHR ''v'') @ ''X'')"
    "\<forall>v \<in> set (dkeys (hashmap_value_to_token suffix_cache)). py_casefold v \<noteq> py_casefold (''uuid-1'' @ ''X'')"
    by code_simp+
  have "selects demo_trino_functions demo_event
     (build_power_bi_deeplink_query (deeplink_query_of new_account_map ''topup_bank_app'' None demo_request))"
    unfolding exact using demo_event_values demo_event_day by blast
  moreover from deeplink_rows_exact [where env = suffix_event, OF demo_functions_strings agent', THEN conjunct2] cache
  have "transform_by_token_length (suffix_event EVENT ''accountid'') (hashmap_token_to_value suffix_cache) =
      Inr (PStr (''uuid-1'' @ ''X'')) \<and> \<not> selects demo_trino_functions suffix_event
     (build_power_bi_deeplink_query (deeplink_query_of suffix_cache ''topup_bank_app'' None
       (demo_request\<lparr>pb_customer_id := [''uuid-1X'']\<rparr>)))" by blast
  ultimately show ?thesis by simp
qed

end
