(* ===== verification/Migrations.thy ===== *)
theory Migrations
  imports Data_Routes
begin

text \<open>
  The Alembic migrations (\<open>alembic/versions\<close>) as programs over a database schema with its rows,
  and the schema the models declare (\<open>app/models\<close>). An operation fails where PostgreSQL
  refuses it; a migration runs in one transaction, so a failure leaves the schema alone.
\<close>

section \<open>Schemas\<close>

datatype sql_type =
    VarChar nat
  | TextT
  | BoolT
  | IntT
  | UuidT
  | TimestampTz
  | Jsonb
  | EnumT string "string list"

datatype server_default = NoDefault | LitText string | SqlText string

record table_column =
  c_name :: string
  c_type :: sql_type
  c_nullable :: bool
  c_default :: server_default

definition col :: "string \<Rightarrow> sql_type \<Rightarrow> bool \<Rightarrow> server_default \<Rightarrow> table_column" where
  "col n ty is_null d = \<lparr>c_name = n, c_type = ty, c_nullable = is_null, c_default = d\<rparr>"

text \<open>A foreign key names its column, the table and column it refers to and the action on deletion.\<close>

type_synonym foreign_key = "string \<times> string \<times> string \<times> string"

text \<open>The check constraints of the dynamic routes, by their meaning.\<close>

datatype check =
    DiffersFrom string string
  | NotLike string "string list"
  | PositionZero string string \<comment> \<open>text and column\<close>
  | EqualsLower string

record table_def =
  t_columns :: "table_column list"
  t_pk :: "string list"
  t_fks :: "foreign_key list"
  t_checks :: "(string \<times> check) list"
  t_uniques :: "(string \<times> string list) list"
  t_rows :: "row list"

record index_def =
  i_table :: string
  i_columns :: "string list"
  i_unique :: bool

record schema =
  sc_tables :: "(string, table_def) dict"
  sc_indexes :: "(string, index_def) dict"
  sc_types :: "(string, string list) dict"

definition empty_schema :: schema where
  "empty_schema = \<lparr>sc_tables = [], sc_indexes = [], sc_types = []\<rparr>"

section \<open>Operations\<close>

datatype op =
    CreateTable string "table_column list" "string list" "foreign_key list" "(string \<times> check) list"
      "(string \<times> string list) list"
  | DropTable string
  | CreateIndex string string "string list" bool
  | DropIndex string
  | DropIndexIfExists string
  | AddColumn string table_column
  | DropColumn string string
  | DropColumnIfExists string string
  | AlterNullable string string bool
  | RenameColumn string string string
  | RenameFirst string "string list" string
  | UpdateRows string "row \<Rightarrow> row"
  | CreateType string "string list"
  | DropType string

type_synonym 'a ddl = "string + 'a"

definition column_names :: "table_def \<Rightarrow> string list" where
  "column_names td = map c_name (t_columns td)"

definition on_table :: "string \<Rightarrow> (table_def \<Rightarrow> table_def ddl) \<Rightarrow> schema \<Rightarrow> schema ddl" where
  "on_table t f s =
     (case dget (sc_tables s) t of
        None \<Rightarrow> Inl ''UndefinedTable''
      | Some td \<Rightarrow> rbind (f td) (\<lambda>td'. Inr (s\<lparr>sc_tables := dput t td' (sc_tables s)\<rparr>)))"

text \<open>The types of enumerations a table definition creates with it.\<close>

definition enum_types :: "table_column list \<Rightarrow> (string, string list) dict" where
  "enum_types cs = concat (map (\<lambda>c. case c_type c of EnumT n vs \<Rightarrow> [(n, vs)] | _ \<Rightarrow> []) cs)"

definition type_exists :: "schema \<Rightarrow> table_column \<Rightarrow> bool" where
  "type_exists s c = (case c_type c of EnumT n vs \<Rightarrow> dget (sc_types s) n = Some vs | _ \<Rightarrow> True)"

definition references :: "schema \<Rightarrow> foreign_key \<Rightarrow> bool" where
  "references s k = (case k of (_, t, target, _) \<Rightarrow>
     case dget (sc_tables s) t of None \<Rightarrow> False | Some td \<Rightarrow> t_pk td = [target])"

text \<open>The value of a server default; \<open>ev\<close> evaluates SQL expressions.\<close>

definition default_value :: "(string \<Rightarrow> pyval) \<Rightarrow> server_default \<Rightarrow> pyval" where
  "default_value ev d = (case d of NoDefault \<Rightarrow> PNone | LitText t \<Rightarrow> PStr t | SqlText e \<Rightarrow> ev e)"

definition drop_column :: "string \<Rightarrow> schema \<Rightarrow> string \<Rightarrow> schema ddl" where
  "drop_column t s n =
     rbind (on_table t (\<lambda>td.
        if n \<notin> set (column_names td) then Inl ''UndefinedColumn''
        else Inr (td\<lparr>t_columns := filter (\<lambda>c. c_name c \<noteq> n) (t_columns td),
                     t_fks := filter (\<lambda>k. fst k \<noteq> n) (t_fks td),
                     t_uniques := filter (\<lambda>u. n \<notin> set (snd u)) (t_uniques td),
                     t_rows := map (filter (\<lambda>kv. fst kv \<noteq> n)) (t_rows td)\<rparr>)) s)
       (\<lambda>s'. Inr (s'\<lparr>sc_indexes := filter (\<lambda>(_, ix). \<not> (i_table ix = t \<and> n \<in> set (i_columns ix))) (sc_indexes s')\<rparr>))"

definition rename :: "string \<Rightarrow> string \<Rightarrow> string \<Rightarrow> string" where
  "rename old new n = (if n = old then new else n)"

definition rename_column :: "string \<Rightarrow> schema \<Rightarrow> string \<Rightarrow> string \<Rightarrow> schema ddl" where
  "rename_column t s old new =
     rbind (on_table t (\<lambda>td.
        if old \<notin> set (column_names td) then Inl ''UndefinedColumn''
        else if new \<in> set (column_names td) then Inl ''DuplicateColumn''
        else Inr (td\<lparr>t_columns := map (\<lambda>c. c\<lparr>c_name := rename old new (c_name c)\<rparr>) (t_columns td),
                     t_pk := map (rename old new) (t_pk td),
                     t_fks := map (\<lambda>(c, r). (rename old new c, r)) (t_fks td),
                     t_uniques := map (\<lambda>(u, cs). (u, map (rename old new) cs)) (t_uniques td),
                     t_rows := map (map (\<lambda>(k, v). (rename old new k, v))) (t_rows td)\<rparr>)) s)
       (\<lambda>s'. Inr (s'\<lparr>sc_indexes := map (\<lambda>(i, ix).
          (i, if i_table ix = t then ix\<lparr>i_columns := map (rename old new) (i_columns ix)\<rparr> else ix)) (sc_indexes s')\<rparr>))"

definition has_column :: "string \<Rightarrow> string \<Rightarrow> schema \<Rightarrow> bool" where
  "has_column t n s = (case dget (sc_tables s) t of None \<Rightarrow> False | Some td \<Rightarrow> n \<in> set (column_names td))"

fun apply_op :: "(string \<Rightarrow> pyval) \<Rightarrow> op \<Rightarrow> schema \<Rightarrow> schema ddl" where
  "apply_op ev (CreateTable t cs pk fks cks uqs) s =
     (if t \<in> set (dkeys (sc_tables s)) then Inl ''DuplicateTable''
      else if list_ex (\<lambda>(n, _). n \<in> set (dkeys (sc_types s))) (enum_types cs) then Inl ''DuplicateObject''
      else if \<not> list_all (references s) fks then Inl ''UndefinedTable''
      else Inr (s\<lparr>sc_tables := sc_tables s @ [(t, \<lparr>t_columns = cs, t_pk = pk, t_fks = fks, t_checks = cks,
                                                 t_uniques = uqs, t_rows = []\<rparr>)],
                  sc_types := sc_types s @ enum_types cs\<rparr>))"
| "apply_op ev (DropTable t) s =
     (if t \<notin> set (dkeys (sc_tables s)) then Inl ''UndefinedTable''
      else if list_ex (\<lambda>(u, td). u \<noteq> t \<and> list_ex (\<lambda>(_, r, _). r = t) (t_fks td)) (sc_tables s)
      then Inl ''DependentObjectsStillExist''
      else Inr (s\<lparr>sc_tables := filter (\<lambda>(u, _). u \<noteq> t) (sc_tables s),
                  sc_indexes := filter (\<lambda>(_, ix). i_table ix \<noteq> t) (sc_indexes s)\<rparr>))"
| "apply_op ev (CreateIndex i t cs u) s =
     (if i \<in> set (dkeys (sc_indexes s)) then Inl ''DuplicateTable''
      else if \<not> list_all (\<lambda>c. has_column t c s) cs then Inl ''UndefinedColumn''
      else if u \<and> (case dget (sc_tables s) t of None \<Rightarrow> False | Some td \<Rightarrow>
             \<not> distinct (filter (\<lambda>k. PNone \<notin> set k)
                 (map (\<lambda>r. map (\<lambda>c. case dget r c of None \<Rightarrow> PNone | Some v \<Rightarrow> v) cs) (t_rows td))))
      then Inl ''UniqueViolation''
      else Inr (s\<lparr>sc_indexes := sc_indexes s @ [(i, \<lparr>i_table = t, i_columns = cs, i_unique = u\<rparr>)]\<rparr>))"
| "apply_op ev (DropIndex i) s =
     (if i \<notin> set (dkeys (sc_indexes s)) then Inl ''UndefinedObject''
      else Inr (s\<lparr>sc_indexes := filter (\<lambda>(j, _). j \<noteq> i) (sc_indexes s)\<rparr>))"
| "apply_op ev (DropIndexIfExists i) s = Inr (s\<lparr>sc_indexes := filter (\<lambda>(j, _). j \<noteq> i) (sc_indexes s)\<rparr>)"
| "apply_op ev (AddColumn t c) s =
     (if \<not> type_exists s c then Inl ''UndefinedObject''
      else on_table t (\<lambda>td.
        if c_name c \<in> set (column_names td) then Inl ''DuplicateColumn''
        else if \<not> c_nullable c \<and> t_rows td \<noteq> [] \<and> default_value ev (c_default c) = PNone then Inl ''NotNullViolation''
        else Inr (td\<lparr>t_columns := t_columns td @ [c],
                     t_rows := map (\<lambda>r. r @ [(c_name c, default_value ev (c_default c))]) (t_rows td)\<rparr>)) s)"
| "apply_op ev (DropColumn t n) s = drop_column t s n"
| "apply_op ev (DropColumnIfExists t n) s = (if has_column t n s then drop_column t s n else Inr s)"
| "apply_op ev (AlterNullable t n is_null) s =
     on_table t (\<lambda>td.
        if n \<notin> set (column_names td) then Inl ''UndefinedColumn''
        else if \<not> is_null \<and> list_ex (\<lambda>r. dget r n = Some PNone) (t_rows td) then Inl ''NotNullViolation''
        else Inr (td\<lparr>t_columns := map (\<lambda>c. if c_name c = n then c\<lparr>c_nullable := is_null\<rparr> else c) (t_columns td)\<rparr>)) s"
| "apply_op ev (RenameColumn t old new) s = rename_column t s old new"
| "apply_op ev (RenameFirst t olds new) s =
     (if has_column t new s then Inr s
      else case find (\<lambda>old. has_column t old s) olds of
        None \<Rightarrow> Inr s
      | Some old \<Rightarrow> rename_column t s old new)"
| "apply_op ev (UpdateRows t f) s = on_table t (\<lambda>td. Inr (td\<lparr>t_rows := map f (t_rows td)\<rparr>)) s"
| "apply_op ev (CreateType n vs) s =
     (if n \<in> set (dkeys (sc_types s)) then Inr s else Inr (s\<lparr>sc_types := sc_types s @ [(n, vs)]\<rparr>))"
| "apply_op ev (DropType n) s =
     (if list_ex (\<lambda>(_, td). list_ex (\<lambda>c. case c_type c of EnumT m _ \<Rightarrow> m = n | _ \<Rightarrow> False) (t_columns td)) (sc_tables s)
      then Inl ''DependentObjectsStillExist''
      else Inr (s\<lparr>sc_types := filter (\<lambda>(m, _). m \<noteq> n) (sc_types s)\<rparr>))"

fun run_ops :: "(string \<Rightarrow> pyval) \<Rightarrow> op list \<Rightarrow> schema \<Rightarrow> schema ddl" where
  "run_ops ev [] s = Inr s"
| "run_ops ev (p # ps) s = rbind (apply_op ev p s) (run_ops ev ps)"

section \<open>The migrations\<close>

record migration =
  revision :: string
  down_revision :: "string option"
  upgrade :: "op list"
  downgrade :: "op list"

definition now_default :: server_default where
  "now_default = SqlText ''now()''"

definition id_and_times :: "table_column list" where
  "id_and_times =
     [col ''id'' UuidT False NoDefault, col ''created_at'' TimestampTz False now_default,
      col ''updated_at'' TimestampTz False now_default]"

definition audit_log_status :: sql_type where
  "audit_log_status = EnumT ''audit_log_status'' [''success'', ''missing_mapping'', ''failed'']"

definition create_users_and_audit_logs :: migration where
  "create_users_and_audit_logs =
     \<lparr>revision = ''fdda72aad25e'', down_revision = None,
      upgrade =
        [CreateTable ''users''
           ([col ''email'' (VarChar 320) False NoDefault, col ''username'' (VarChar 50) False NoDefault,
             col ''hashed_password'' (VarChar 255) False NoDefault, col ''full_name'' (VarChar 255) True NoDefault,
             col ''is_active'' BoolT False (SqlText ''true''),
             col ''role'' (EnumT ''user_role'' [''user'', ''admin'']) False (LitText ''user'')] @ id_and_times)
           [''id''] [] [] [],
         CreateIndex ''ix_users_is_active'' ''users'' [''is_active''] False,
         CreateIndex ''ix_users_role'' ''users'' [''role''] False,
         CreateIndex ''uq_users_email'' ''users'' [''email''] True,
         CreateIndex ''uq_users_username'' ''users'' [''username''] True,
         CreateTable ''audit_logs''
           ([col ''event_type'' (VarChar 100) False NoDefault, col ''actor_user_id'' UuidT True NoDefault,
             col ''status'' audit_log_status False NoDefault, col ''payload'' Jsonb False NoDefault] @ id_and_times)
           [''id''] [(''actor_user_id'', ''users'', ''id'', ''SET NULL'')] [] [],
         CreateIndex ''ix_audit_logs_actor_user_id'' ''audit_logs'' [''actor_user_id''] False,
         CreateIndex ''ix_audit_logs_event_type'' ''audit_logs'' [''event_type''] False,
         CreateIndex ''ix_audit_logs_status'' ''audit_logs'' [''status''] False],
      downgrade =
        [DropIndex ''ix_audit_logs_status'', DropIndex ''ix_audit_logs_event_type'',
         DropIndex ''ix_audit_logs_actor_user_id'', DropTable ''audit_logs'',
         DropIndex ''uq_users_username'', DropIndex ''uq_users_email'', DropIndex ''ix_users_role'',
         DropIndex ''ix_users_is_active'', DropTable ''users'',
         DropType ''audit_log_status'', DropType ''user_role'']\<rparr>"

text \<open>The four tables of the role-based permissions, created by one migration and, the same, by the
  downgrade of another.\<close>

definition create_rbac_tables :: "op list" where
  "create_rbac_tables =
     [CreateTable ''roles''
        ([col ''code'' (VarChar 50) False NoDefault, col ''name'' (VarChar 255) False NoDefault,
          col ''description'' TextT True NoDefault] @ id_and_times)
        [''id''] [] [] [],
      CreateIndex ''uq_roles_code'' ''roles'' [''code''] True,
      CreateTable ''api_permissions''
        ([col ''name'' (VarChar 255) False NoDefault, col ''description'' TextT True NoDefault,
          col ''route_prefix'' (VarChar 255) False NoDefault, col ''is_active'' BoolT False (SqlText ''true'')] @ id_and_times)
        [''id''] [] [] [],
      CreateIndex ''uq_api_permissions_route_prefix'' ''api_permissions'' [''route_prefix''] True,
      CreateIndex ''ix_api_permissions_is_active'' ''api_permissions'' [''is_active''] False,
      CreateTable ''user_roles''
        [col ''user_id'' UuidT False NoDefault, col ''role_id'' UuidT False NoDefault]
        [''user_id'', ''role_id'']
        [(''role_id'', ''roles'', ''id'', ''CASCADE''), (''user_id'', ''users'', ''id'', ''CASCADE'')] [] [],
      CreateTable ''user_api_permissions''
        [col ''user_id'' UuidT False NoDefault, col ''permission_id'' UuidT False NoDefault]
        [''user_id'', ''permission_id'']
        [(''permission_id'', ''api_permissions'', ''id'', ''CASCADE''), (''user_id'', ''users'', ''id'', ''CASCADE'')] [] []]"

definition drop_rbac_tables :: "op list" where
  "drop_rbac_tables =
     [DropTable ''user_api_permissions'', DropTable ''user_roles'', DropIndex ''ix_api_permissions_is_active'',
      DropIndex ''uq_api_permissions_route_prefix'', DropTable ''api_permissions'',
      DropIndex ''uq_roles_code'', DropTable ''roles'']"

text \<open>The row updates of the permission migration. A null never equals \<open>success\<close>, and a null
  \<open>allowed\<close> takes the ELSE branch.\<close>

definition field :: "row \<Rightarrow> string \<Rightarrow> pyval" where
  "field r k = (case dget r k of None \<Rightarrow> PNone | Some v \<Rightarrow> v)"

definition allow_from_status :: "row \<Rightarrow> row" where
  "allow_from_status r =
     dput ''allowed'' (if field r ''status'' = PNone then PNone else PBool (field r ''status'' = PStr ''success''))
       (dput ''api_route'' (field r ''event_type'') r)"

definition status_from_allowed :: "row \<Rightarrow> row" where
  "status_from_allowed r =
     dput ''status'' (PStr (if field r ''allowed'' = PBool True then ''success'' else ''failed''))
       (dput ''event_type'' (case field r ''api_route'' of PStr p \<Rightarrow> PStr (take 100 p) | v \<Rightarrow> v) r)"

definition fill_payload :: "row \<Rightarrow> row" where
  "fill_payload r = (if field r ''payload'' = PNone then dput ''payload'' (PDict []) r else r)"

definition drop_api_permissions_rbac :: "op list" where
  "drop_api_permissions_rbac =
     drop_rbac_tables @
       [DropIndex ''ix_audit_logs_request_id'', DropIndex ''ix_audit_logs_allowed'',
       DropIndex ''ix_audit_logs_api_route'', DropIndex ''ix_audit_logs_user_id'',
       CreateType ''audit_log_status'' [''success'', ''missing_mapping'', ''failed''],
       AddColumn ''audit_logs'' (col ''event_type'' (VarChar 100) True NoDefault),
       AddColumn ''audit_logs'' (col ''status'' audit_log_status True NoDefault),
       UpdateRows ''audit_logs'' status_from_allowed,
       AlterNullable ''audit_logs'' ''event_type'' False, AlterNullable ''audit_logs'' ''status'' False,
       AlterNullable ''audit_logs'' ''user_id'' True, RenameColumn ''audit_logs'' ''user_id'' ''actor_user_id'',
       AlterNullable ''audit_logs'' ''parameters'' True, RenameColumn ''audit_logs'' ''parameters'' ''payload'',
       UpdateRows ''audit_logs'' fill_payload,
       AlterNullable ''audit_logs'' ''payload'' False,
       DropColumn ''audit_logs'' ''request_id'', DropColumn ''audit_logs'' ''time_process_ms'',
       DropColumn ''audit_logs'' ''denied_reason'', DropColumn ''audit_logs'' ''allowed'',
       DropColumn ''audit_logs'' ''api_route'', DropColumn ''audit_logs'' ''username'',
       CreateIndex ''ix_audit_logs_actor_user_id'' ''audit_logs'' [''actor_user_id''] False,
       CreateIndex ''ix_audit_logs_event_type'' ''audit_logs'' [''event_type''] False,
       CreateIndex ''ix_audit_logs_status'' ''audit_logs'' [''status''] False,
       AlterNullable ''users'' ''email'' False]"

definition add_api_permissions_rbac :: migration where
  "add_api_permissions_rbac =
     \<lparr>revision = ''8f2d4a91c7b3'', down_revision = Some ''fdda72aad25e'',
      upgrade =
        [AlterNullable ''users'' ''email'' True,
         DropIndex ''ix_audit_logs_status'', DropIndex ''ix_audit_logs_event_type'',
         DropIndex ''ix_audit_logs_actor_user_id'',
         AlterNullable ''audit_logs'' ''actor_user_id'' True, RenameColumn ''audit_logs'' ''actor_user_id'' ''user_id'',
         AlterNullable ''audit_logs'' ''payload'' True, RenameColumn ''audit_logs'' ''payload'' ''parameters'',
         AddColumn ''audit_logs'' (col ''username'' (VarChar 50) True NoDefault),
         AddColumn ''audit_logs'' (col ''api_route'' (VarChar 500) True NoDefault),
         AddColumn ''audit_logs'' (col ''allowed'' BoolT True NoDefault),
         AddColumn ''audit_logs'' (col ''denied_reason'' TextT True NoDefault),
         AddColumn ''audit_logs'' (col ''time_process_ms'' IntT True NoDefault),
         AddColumn ''audit_logs'' (col ''request_id'' (VarChar 100) True NoDefault),
         UpdateRows ''audit_logs'' allow_from_status,
         AlterNullable ''audit_logs'' ''api_route'' False, AlterNullable ''audit_logs'' ''allowed'' False,
         DropColumn ''audit_logs'' ''event_type'', DropColumn ''audit_logs'' ''status'',
         DropType ''audit_log_status'',
         CreateIndex ''ix_audit_logs_user_id'' ''audit_logs'' [''user_id''] False,
         CreateIndex ''ix_audit_logs_api_route'' ''audit_logs'' [''api_route''] False,
         CreateIndex ''ix_audit_logs_allowed'' ''audit_logs'' [''allowed''] False,
         CreateIndex ''ix_audit_logs_request_id'' ''audit_logs'' [''request_id''] False] @ create_rbac_tables,
      downgrade = drop_api_permissions_rbac\<rparr>"

definition update_audit_logs_error_message :: migration where
  "update_audit_logs_error_message =
     \<lparr>revision = ''c4bb09f2d3a1'', down_revision = Some ''8f2d4a91c7b3'',
      upgrade =
        [DropIndexIfExists ''ix_audit_logs_request_id'', DropColumnIfExists ''audit_logs'' ''request_id'',
         RenameFirst ''audit_logs'' [''denied_reason'', ''denied_reson''] ''error_message''],
      downgrade =
        [RenameFirst ''audit_logs'' [''error_message''] ''denied_reason'',
         AddColumn ''audit_logs'' (col ''request_id'' (VarChar 100) True NoDefault),
         CreateIndex ''ix_audit_logs_request_id'' ''audit_logs'' [''request_id''] False]\<rparr>"

definition simplify_user_authorization :: migration where
  "simplify_user_authorization =
     \<lparr>revision = ''2d7c9a4e1b63'', down_revision = Some ''c4bb09f2d3a1'',
      upgrade = drop_rbac_tables @
        [DropIndex ''ix_users_is_active'', DropColumn ''users'' ''is_active'', DropColumn ''users'' ''full_name''],
      downgrade =
        [AddColumn ''users'' (col ''full_name'' (VarChar 255) True NoDefault),
         AddColumn ''users'' (col ''is_active'' BoolT False (SqlText ''true'')),
         CreateIndex ''ix_users_is_active'' ''users'' [''is_active''] False] @ create_rbac_tables\<rparr>"

definition empty_jsonb :: string where
  "empty_jsonb = [CHR 0x27] @ ''{}'' @ [CHR 0x27] @ ''::jsonb''"

definition route_checks :: "(string \<times> check) list" where
  "route_checks =
     [(''ck_dynamic_routes_path_not_empty'', DiffersFrom ''path'' ''''),
      (''ck_dynamic_routes_path_relative'', NotLike ''path'' [''/%'', ''%/'']),
      (''ck_dynamic_routes_path_segments'', PositionZero ''//'' ''path''),
      (''ck_dynamic_routes_prefix_lower'', EqualsLower ''prefix'')]"

definition create_dynamic_routes :: migration where
  "create_dynamic_routes =
     \<lparr>revision = ''7d31b2f4a9c0'', down_revision = Some ''2d7c9a4e1b63'',
      upgrade =
        [CreateTable ''dynamic_routes''
           ([col ''prefix'' (VarChar 50) False NoDefault, col ''path'' (VarChar 500) False NoDefault,
             col ''description'' TextT False (LitText ''''), col ''original_sql'' TextT False NoDefault,
             col ''canonical_sql'' TextT False NoDefault,
             col ''parameter_definitions'' Jsonb False (SqlText empty_jsonb),
             col ''created_by'' UuidT True NoDefault, col ''updated_by'' UuidT True NoDefault] @ id_and_times)
           [''id'']
           [(''created_by'', ''users'', ''id'', ''SET NULL''), (''updated_by'', ''users'', ''id'', ''SET NULL'')]
           route_checks [(''uq_dynamic_routes_prefix_path'', [''prefix'', ''path''])],
         CreateIndex ''ix_dynamic_routes_created_by'' ''dynamic_routes'' [''created_by''] False,
         CreateIndex ''ix_dynamic_routes_prefix'' ''dynamic_routes'' [''prefix''] False,
         CreateIndex ''ix_dynamic_routes_updated_at'' ''dynamic_routes'' [''updated_at''] False],
      downgrade =
        [DropIndex ''ix_dynamic_routes_updated_at'', DropIndex ''ix_dynamic_routes_prefix'',
         DropIndex ''ix_dynamic_routes_created_by'', DropTable ''dynamic_routes'']\<rparr>"

definition db_type_enum :: sql_type where
  "db_type_enum = EnumT ''dynamic_route_db_type'' [''trino'', ''postgres'']"

definition pii_type_enum :: sql_type where
  "pii_type_enum = EnumT ''dynamic_route_pii_type'' [''account_id'', ''customer_id'']"

definition response_type_enum :: sql_type where
  "response_type_enum = EnumT ''dynamic_route_response_type'' [''paginated'', ''data'']"

definition add_dynamic_route_execution_types :: migration where
  "add_dynamic_route_execution_types =
     \<lparr>revision = ''3a6f2d8c1b40'', down_revision = Some ''7d31b2f4a9c0'',
      upgrade =
        [CreateType ''dynamic_route_db_type'' [''trino'', ''postgres''],
         CreateType ''dynamic_route_pii_type'' [''account_id'', ''customer_id''],
         CreateType ''dynamic_route_response_type'' [''paginated'', ''data''],
         AddColumn ''dynamic_routes'' (col ''db_type'' db_type_enum False (LitText ''trino'')),
         AddColumn ''dynamic_routes'' (col ''pii_type'' pii_type_enum True NoDefault),
         AddColumn ''dynamic_routes'' (col ''response_type'' response_type_enum False (LitText ''data''))],
      downgrade =
        [DropColumn ''dynamic_routes'' ''response_type'', DropColumn ''dynamic_routes'' ''pii_type'',
         DropColumn ''dynamic_routes'' ''db_type'',
         DropType ''dynamic_route_response_type'', DropType ''dynamic_route_pii_type'',
         DropType ''dynamic_route_db_type'']\<rparr>"

text \<open>The files of the directory, in any order; Alembic follows the down revisions.\<close>

definition versions :: "migration list" where
  "versions =
     [simplify_user_authorization, add_dynamic_route_execution_types, create_dynamic_routes,
      add_api_permissions_rbac, update_audit_logs_error_message, create_users_and_audit_logs]"

fun revision_path :: "nat \<Rightarrow> migration list \<Rightarrow> string option \<Rightarrow> migration list" where
  "revision_path 0 ms d = []"
| "revision_path (Suc n) ms d =
     (case filter (\<lambda>m. down_revision m = d) ms of
        [m] \<Rightarrow> m # revision_path n ms (Some (revision m))
      | _ \<Rightarrow> [])"

definition history :: "migration list" where
  "history = revision_path (length versions) versions None"

fun upgrade_all :: "(string \<Rightarrow> pyval) \<Rightarrow> migration list \<Rightarrow> schema \<Rightarrow> schema ddl" where
  "upgrade_all ev [] s = Inr s"
| "upgrade_all ev (m # ms) s = rbind (run_ops ev (upgrade m) s) (upgrade_all ev ms)"

fun downgrade_all :: "(string \<Rightarrow> pyval) \<Rightarrow> migration list \<Rightarrow> schema \<Rightarrow> schema ddl" where
  "downgrade_all ev [] s = Inr s"
| "downgrade_all ev (m # ms) s = rbind (downgrade_all ev ms s) (run_ops ev (downgrade m))"


section \<open>The schema of the models\<close>

definition user_table :: table_def where
  "user_table =
     \<lparr>t_columns =
        [col ''email'' (VarChar 320) True NoDefault, col ''username'' (VarChar 50) False NoDefault,
         col ''hashed_password'' (VarChar 255) False NoDefault,
         col ''role'' (EnumT ''user_role'' [''user'', ''admin'']) False (LitText ''user'')] @ id_and_times,
      t_pk = [''id''], t_fks = [], t_checks = [], t_uniques = [], t_rows = []\<rparr>"

definition audit_log_table :: table_def where
  "audit_log_table =
     \<lparr>t_columns =
        [col ''user_id'' UuidT True NoDefault, col ''username'' (VarChar 50) True NoDefault,
         col ''api_route'' (VarChar 500) False NoDefault, col ''parameters'' Jsonb True NoDefault,
         col ''allowed'' BoolT False NoDefault, col ''error_message'' TextT True NoDefault,
         col ''time_process_ms'' IntT True NoDefault] @ id_and_times,
      t_pk = [''id''], t_fks = [(''user_id'', ''users'', ''id'', ''SET NULL'')], t_checks = [], t_uniques = [],
      t_rows = []\<rparr>"

definition dynamic_route_table :: table_def where
  "dynamic_route_table =
     \<lparr>t_columns =
        [col ''prefix'' (VarChar 50) False NoDefault, col ''path'' (VarChar 500) False NoDefault,
         col ''description'' TextT False (LitText ''''), col ''original_sql'' TextT False NoDefault,
         col ''canonical_sql'' TextT False NoDefault,
         col ''parameter_definitions'' Jsonb False (SqlText empty_jsonb),
         col ''db_type'' db_type_enum False (LitText ''trino''), col ''pii_type'' pii_type_enum True NoDefault,
         col ''response_type'' response_type_enum False (LitText ''data''),
         col ''created_by'' UuidT True NoDefault, col ''updated_by'' UuidT True NoDefault] @ id_and_times,
      t_pk = [''id''],
      t_fks = [(''created_by'', ''users'', ''id'', ''SET NULL''), (''updated_by'', ''users'', ''id'', ''SET NULL'')],
      t_checks = route_checks,
      t_uniques = [(''uq_dynamic_routes_prefix_path'', [''prefix'', ''path''])], t_rows = []\<rparr>"

definition index_on :: "string \<Rightarrow> string \<Rightarrow> string \<Rightarrow> bool \<Rightarrow> string \<times> index_def" where
  "index_on i t c u = (i, \<lparr>i_table = t, i_columns = [c], i_unique = u\<rparr>)"

definition models_schema :: schema where
  "models_schema =
     \<lparr>sc_tables = [(''users'', user_table), (''audit_logs'', audit_log_table), (''dynamic_routes'', dynamic_route_table)],
      sc_indexes =
        [index_on ''uq_users_email'' ''users'' ''email'' True, index_on ''uq_users_username'' ''users'' ''username'' True,
         index_on ''ix_users_role'' ''users'' ''role'' False,
         index_on ''ix_audit_logs_user_id'' ''audit_logs'' ''user_id'' False,
         index_on ''ix_audit_logs_api_route'' ''audit_logs'' ''api_route'' False,
         index_on ''ix_audit_logs_allowed'' ''audit_logs'' ''allowed'' False,
         index_on ''ix_dynamic_routes_prefix'' ''dynamic_routes'' ''prefix'' False,
         index_on ''ix_dynamic_routes_created_by'' ''dynamic_routes'' ''created_by'' False,
         index_on ''ix_dynamic_routes_updated_at'' ''dynamic_routes'' ''updated_at'' False],
      sc_types =
        [(''user_role'', [''user'', ''admin'']), (''dynamic_route_db_type'', [''trino'', ''postgres'']),
         (''dynamic_route_pii_type'', [''account_id'', ''customer_id'']),
         (''dynamic_route_response_type'', [''paginated'', ''data''])]\<rparr>"

text \<open>Equality of schemas, up to the order in which things were created.\<close>

definition same_members :: "'a list \<Rightarrow> 'a list \<Rightarrow> bool" where
  "same_members xs ys \<longleftrightarrow> length xs = length ys \<and> set xs = set ys"

definition same_table :: "table_def \<Rightarrow> table_def \<Rightarrow> bool" where
  "same_table a b \<longleftrightarrow> same_members (t_columns a) (t_columns b) \<and> t_pk a = t_pk b \<and> same_members (t_fks a) (t_fks b) \<and>
     same_members (t_checks a) (t_checks b) \<and> same_members (t_uniques a) (t_uniques b)"

definition same_schema :: "schema \<Rightarrow> schema \<Rightarrow> bool" where
  "same_schema a b \<longleftrightarrow> same_members (dkeys (sc_tables a)) (dkeys (sc_tables b)) \<and>
     list_all (\<lambda>(t, td). case dget (sc_tables b) t of None \<Rightarrow> False | Some td' \<Rightarrow> same_table td td') (sc_tables a) \<and>
     same_members (sc_indexes a) (sc_indexes b) \<and> same_members (sc_types a) (sc_types b)"

definition reaches :: "schema ddl \<Rightarrow> schema \<Rightarrow> bool" where
  "reaches r s = (case r of Inl _ \<Rightarrow> False | Inr s' \<Rightarrow> same_schema s' s)"

lemma history_order:
  "map revision history = [''fdda72aad25e'', ''8f2d4a91c7b3'', ''c4bb09f2d3a1'', ''2d7c9a4e1b63'', ''7d31b2f4a9c0'', ''3a6f2d8c1b40'']"
  by code_simp

lemma upgrade_reaches_models: "reaches (upgrade_all ev history empty_schema) models_schema"
  by code_simp


section \<open>Facts about checks and rows\<close>

definition check_holds :: "(string \<Rightarrow> string) \<Rightarrow> check \<Rightarrow> bool" where
  "check_holds v k =
     (case k of
        DiffersFrom c t \<Rightarrow> v c \<noteq> t
      | NotLike c ps \<Rightarrow> list_all (\<lambda>p. \<not> sql_like p (v c)) ps
      | PositionZero t c \<Rightarrow> \<not> contains_str t (v c)
      | EqualsLower c \<Rightarrow> v c = py_lower (v c))"

definition route_text :: "dynamic_route \<Rightarrow> string \<Rightarrow> string" where
  "route_text r c = (if c = ''prefix'' then dr_prefix r else if c = ''path'' then dr_path r else [])"

lemma sql_like_all [simp]: "sql_like ''%'' s"
  by (induction s) simp_all

lemma sql_like_starts: "sql_like ''/%'' s \<longleftrightarrow> startswith s ''/''"
  using sql_like_prefix [of "''/''" s] by simp

lemma sql_like_ends: "sql_like ''%/'' s \<longleftrightarrow> endswith s ''/''"
proof (induction s)
  case (Cons c s)
  have "sql_like ''/'' (c # s) \<longleftrightarrow> c = CHR ''/'' \<and> s = []" by (cases s) auto
  with Cons show ?case by (cases s) (auto simp: endswith_def)
qed (simp add: endswith_def)

lemma route_checks_hold:
  "list_all (\<lambda>(_, k). check_holds (route_text r) k) route_checks \<longleftrightarrow> route_row_ok r"
  by (auto simp: route_checks_def check_holds_def route_text_def route_row_ok_def sql_like_starts sql_like_ends)

text \<open>Every downgrade undoes its upgrade.\<close>

fun all_revert :: "(string \<Rightarrow> pyval) \<Rightarrow> migration list \<Rightarrow> schema \<Rightarrow> bool" where
  "all_revert ev [] s = True"
| "all_revert ev (m # ms) s =
     (case run_ops ev (upgrade m) s of
        Inl _ \<Rightarrow> False
      | Inr s' \<Rightarrow> reaches (run_ops ev (downgrade m) s') s \<and> all_revert ev ms s')"

lemma history_reverts: "all_revert ev history empty_schema"
  by code_simp

lemma list_ex_never [simp]: "\<not> list_ex (\<lambda>x. False) xs"
  by (induction xs) auto

lemma list_ex_map: "list_ex P (map f xs) = list_ex (P \<circ> f) xs"
  by (induction xs) auto

definition with_rows :: "string \<Rightarrow> row list \<Rightarrow> schema \<Rightarrow> schema" where
  "with_rows t rs s = s\<lparr>sc_tables := map (\<lambda>(u, td). (u, if u = t then td\<lparr>t_rows := rs\<rparr> else td)) (sc_tables s)\<rparr>"

definition rows_of :: "string \<Rightarrow> schema \<Rightarrow> row list" where
  "rows_of t s = (case dget (sc_tables s) t of None \<Rightarrow> [] | Some td \<Rightarrow> t_rows td)"

lemmas ddl_defs = enum_types_def col_def id_and_times_def now_default_def audit_log_status_def has_column_def
  column_names_def references_def with_rows_def on_table_def type_exists_def default_value_def drop_column_def
  rename_column_def rename_def create_rbac_tables_def drop_rbac_tables_def

text \<open>The last two revisions with rows in the tables.\<close>

lemma route_table_undone:
  "case upgrade_all ev [create_users_and_audit_logs, add_api_permissions_rbac, update_audit_logs_error_message,
       simplify_user_authorization] empty_schema of
     Inl _ \<Rightarrow> False
   | Inr s \<Rightarrow>
       rbind (run_ops ev (upgrade create_dynamic_routes) (with_rows ''audit_logs'' as (with_rows ''users'' us s)))
         (run_ops ev (downgrade create_dynamic_routes)) = Inr (with_rows ''audit_logs'' as (with_rows ''users'' us s))"
  by (simp add: create_users_and_audit_logs_def add_api_permissions_rbac_def update_audit_logs_error_message_def
      simplify_user_authorization_def create_dynamic_routes_def empty_schema_def ddl_defs list_ex_map comp_def
      case_prod_unfold allow_from_status_def field_def rows_of_def)

lemma execution_types_undone:
  "case upgrade_all ev [create_users_and_audit_logs, add_api_permissions_rbac, update_audit_logs_error_message,
       simplify_user_authorization, create_dynamic_routes] empty_schema of
     Inl _ \<Rightarrow> False
   | Inr s \<Rightarrow>
       (case run_ops ev (upgrade add_dynamic_route_execution_types) (with_rows ''dynamic_routes'' rs s) of
          Inl _ \<Rightarrow> False
        | Inr s' \<Rightarrow>
            rows_of ''dynamic_routes'' s' =
              map (\<lambda>r. r @ [(''db_type'', PStr ''trino''), (''pii_type'', PNone), (''response_type'', PStr ''data'')]) rs \<and>
            run_ops ev (downgrade add_dynamic_route_execution_types) s' =
              Inr (with_rows ''dynamic_routes''
                (map (filter (\<lambda>kv. fst kv \<notin> {''db_type'', ''pii_type'', ''response_type''})) rs) s))"
  by (simp add: create_users_and_audit_logs_def add_api_permissions_rbac_def update_audit_logs_error_message_def
      simplify_user_authorization_def create_dynamic_routes_def empty_schema_def ddl_defs list_ex_map comp_def
      case_prod_unfold allow_from_status_def field_def rows_of_def
      add_dynamic_route_execution_types_def db_type_enum_def pii_type_enum_def response_type_enum_def conj_ac)

section \<open>Properties\<close>

text \<open>C24: the migrations and the models agree: the six revisions form one line from the empty schema;
  upgrading an empty database succeeds and gives exactly the tables, columns, defaults, keys,
  indexes, enumerations and checks the models declare; the checks admit exactly the rows the
  repositories rely on; and on a database without rows each downgrade, run after its upgrade, restores the
  schema before. With rows this holds for the last two revisions: the table of the routes comes and goes without touching
  users and audit entries, and the columns for the execution are added to every route with their defaults and
  taken away again, and nothing else. An older downgrade can fail or lose values, as the lemma at the end of this
  theory shows.\<close>

theorem migrations_match_models:
  "length history = length versions \<and> distinct (map revision history) \<and>
   reaches (upgrade_all ev history empty_schema) models_schema \<and>
   (list_all (\<lambda>(_, k). check_holds (route_text r) k) (t_checks dynamic_route_table) \<longleftrightarrow> route_row_ok r) \<and>
   all_revert ev history empty_schema \<and>
   (case upgrade_all ev [create_users_and_audit_logs, add_api_permissions_rbac, update_audit_logs_error_message,
       simplify_user_authorization] empty_schema of
     Inl _ \<Rightarrow> False
   | Inr s \<Rightarrow>
       rbind (run_ops ev (upgrade create_dynamic_routes) (with_rows ''audit_logs'' as (with_rows ''users'' us s)))
         (run_ops ev (downgrade create_dynamic_routes)) = Inr (with_rows ''audit_logs'' as (with_rows ''users'' us s))) \<and>
   (case upgrade_all ev [create_users_and_audit_logs, add_api_permissions_rbac, update_audit_logs_error_message,
       simplify_user_authorization, create_dynamic_routes] empty_schema of
     Inl _ \<Rightarrow> False
   | Inr s \<Rightarrow>
       (case run_ops ev (upgrade add_dynamic_route_execution_types) (with_rows ''dynamic_routes'' rs s) of
          Inl _ \<Rightarrow> False
        | Inr s' \<Rightarrow>
            rows_of ''dynamic_routes'' s' =
              map (\<lambda>r. r @ [(''db_type'', PStr ''trino''), (''pii_type'', PNone), (''response_type'', PStr ''data'')]) rs \<and>
            run_ops ev (downgrade add_dynamic_route_execution_types) s' =
              Inr (with_rows ''dynamic_routes''
                (map (filter (\<lambda>kv. fst kv \<notin> {''db_type'', ''pii_type'', ''response_type''})) rs) s)))"
proof -
  have "length history = 6" using arg_cong [OF history_order, of length] by simp
  moreover have "length versions = 6" by (simp add: versions_def)
  moreover have "distinct (map revision history)" unfolding history_order by simp
  moreover have "t_checks dynamic_route_table = route_checks" by (simp add: dynamic_route_table_def)
  moreover note upgrade_reaches_models [of ev] history_reverts [of ev] route_checks_hold [of r]
  ultimately show ?thesis
    by (intro conjI route_table_undone execution_types_undone) (simp_all only:)
qed

text \<open>The audit entries before and after the permission migration.\<close>

definition old_audit :: "string \<times> pyval \<times> string \<times> pyval \<times> pyval \<Rightarrow> row" where
  "old_audit = (\<lambda>(e, a, st, p, i).
     [(''event_type'', PStr e), (''actor_user_id'', a), (''status'', PStr st), (''payload'', p), (''id'', i)])"

definition new_audit :: "string \<times> pyval \<times> string \<times> pyval \<times> pyval \<Rightarrow> row" where
  "new_audit = (\<lambda>(e, a, st, p, i).
     [(''user_id'', a), (''parameters'', p), (''id'', i), (''username'', PNone), (''api_route'', PStr e),
      (''allowed'', PBool (st = ''success'')), (''error_message'', PNone), (''time_process_ms'', PNone)])"

text \<open>C37: upgrading keeps the audit history: whatever entries the first schema holds, the two migrations
  of the audit table succeed and turn each entry into one of the new form with its identifier,
  actor and payload, its event as the route, and allowed exactly when its status was success.\<close>

theorem audit_history_migrated:
  "case run_ops ev (upgrade create_users_and_audit_logs) empty_schema of
     Inl _ \<Rightarrow> False
   | Inr s \<Rightarrow>
       (case upgrade_all ev [add_api_permissions_rbac, update_audit_logs_error_message]
               (with_rows ''audit_logs'' (map old_audit xs) s) of
          Inl _ \<Rightarrow> False
        | Inr s' \<Rightarrow> rows_of ''audit_logs'' s' = map new_audit xs)"
  by (simp add: create_users_and_audit_logs_def add_api_permissions_rbac_def update_audit_logs_error_message_def
      empty_schema_def ddl_defs list_ex_map comp_def old_audit_def case_prod_unfold allow_from_status_def field_def
      new_audit_def rows_of_def)

text \<open>Downgrading stops rather than lose a user: once a user without an e-mail address exists, the
  downgrade of the permission migration fails on the restored NOT NULL constraint.\<close>

lemma null_email_blocks_downgrade:
  "case upgrade_all ev [create_users_and_audit_logs, add_api_permissions_rbac] empty_schema of
     Inl _ \<Rightarrow> False
   | Inr s \<Rightarrow> run_ops ev (downgrade add_api_permissions_rbac)
        (with_rows ''users'' (us @ [(''email'', PNone) # u] @ vs) s) = Inl ''NotNullViolation''"
  by (simp add: create_users_and_audit_logs_def add_api_permissions_rbac_def drop_api_permissions_rbac_def
      empty_schema_def ddl_defs list_ex_map comp_def case_prod_unfold field_def)

end
