(* ===== verification/Migration_Env.thy ===== *)
theory Migration_Env
  imports Migrations
begin

text \<open>
  The environment of the migrations (\<open>alembic/env.py\<close>): how the database URL travels through the
  configuration file object, and the two ways the migrations run. The configuration object is
  Python's \<open>configparser\<close> with its basic interpolation.
\<close>

section \<open>The configuration object\<close>

datatype config_error =
    Invalid_Value nat \<comment> \<open>ValueError with the position\<close>
  | Interpolation_Syntax string
  | Missing_Option string
  | Interpolation_Depth

abbreviation percent :: char where
  "percent \<equiv> CHR 0x25"

text \<open>The pattern \<open>%(name)s\<close> at the start of a text: the name and what follows.\<close>

definition match_key :: "string \<Rightarrow> (string \<times> string) option" where
  "match_key s =
     (if startswith s ''%('' then
        (let body = takeWhile (\<lambda>c. c \<noteq> CHR '')'') (drop 2 s);
             rest = dropWhile (\<lambda>c. c \<noteq> CHR '')'') (drop 2 s)
         in if body \<noteq> [] \<and> startswith rest '')s'' then Some (body, drop 2 rest) else None)
      else None)"

fun drop_pairs :: "string \<Rightarrow> string" where
  "drop_pairs (c # d # cs) = (if c = percent \<and> d = percent then drop_pairs cs else c # drop_pairs (d # cs))"
| "drop_pairs cs = cs"

lemma match_key_shorter: "match_key s = Some (k, rest) \<Longrightarrow> length rest < length s"
proof -
  assume m: "match_key s = Some (k, rest)"
  then have "rest = drop 2 (dropWhile (\<lambda>c. c \<noteq> CHR '')'') (drop 2 s))" "s \<noteq> []"
    by (auto simp: match_key_def Let_def startswith_def split: if_splits)
  then show ?thesis
    using length_dropWhile_le [of "\<lambda>c. c \<noteq> CHR '')''" "drop 2 s"] by (cases s) auto
qed

function drop_keys :: "string \<Rightarrow> string" where
  "drop_keys [] = []"
| "drop_keys (c # cs) =
     (case match_key (c # cs) of Some (k, rest) \<Rightarrow> drop_keys rest | None \<Rightarrow> c # drop_keys cs)"
  by pat_completeness auto
termination
  by (relation "measure length") (auto dest: match_key_shorter)

text \<open>\<open>set\<close> refuses a value with a percent sign that is neither doubled nor part of a reference.\<close>

definition before_set :: "string \<Rightarrow> config_error + string" where
  "before_set v =
     (let rest = drop_keys (drop_pairs v)
      in if percent \<in> set rest then Inl (Invalid_Value (length (takeWhile (\<lambda>c. c \<noteq> percent) rest))) else Inr v)"

text \<open>\<open>get\<close> replaces doubled signs and references, at most ten references deep.\<close>

function interpolate :: "(string \<Rightarrow> string option) \<Rightarrow> nat \<Rightarrow> string \<Rightarrow> config_error + string" where
  "interpolate opts 0 s = Inl Interpolation_Depth"
| "interpolate opts (Suc n) [] = Inr []"
| "interpolate opts (Suc n) (c # cs) =
     (if c \<noteq> percent then map_sum id ((#) c) (interpolate opts (Suc n) cs)
      else case cs of
          [] \<Rightarrow> Inl (Interpolation_Syntax (c # cs))
        | d # ds \<Rightarrow>
            if d = percent then map_sum id ((#) percent) (interpolate opts (Suc n) ds)
            else if d = CHR ''('' then
              (case match_key (c # cs) of
                 None \<Rightarrow> Inl (Interpolation_Syntax (c # cs))
               | Some (k, rest) \<Rightarrow>
                   (case opts (py_lower k) of
                      None \<Rightarrow> Inl (Missing_Option k)
                    | Some v \<Rightarrow>
                        rbind (if percent \<in> set v then interpolate opts n v else Inr v) (\<lambda>a.
                        rbind (interpolate opts (Suc n) rest) (\<lambda>b. Inr (a @ b)))))
            else Inl (Interpolation_Syntax (c # cs)))"
  by pat_completeness auto
termination
  by (relation "measures [\<lambda>(opts, n, s). n, \<lambda>(opts, n, s). length s]") (auto dest: match_key_shorter)

section \<open>The environment script\<close>

text \<open>The section of \<open>alembic.ini\<close>; the file object adds its own directory as \<open>here\<close>.\<close>

definition alembic_section :: "string \<Rightarrow> (string \<Rightarrow> string option)" where
  "alembic_section here =
     [''script_location'' \<mapsto> ''alembic'', ''prepend_sys_path'' \<mapsto> ''.'', ''timezone'' \<mapsto> ''UTC'', ''here'' \<mapsto> here]"

text \<open>\<open>set_main_option\<close> at import, and the value \<open>get_section\<close> hands to the engine.\<close>

definition engine_url :: "(string \<Rightarrow> string option) \<Rightarrow> string \<Rightarrow> config_error + string" where
  "engine_url opts url = rbind (before_set url) (\<lambda>v. interpolate (opts(''sqlalchemy.url'' \<mapsto> v)) 10 v)"

text \<open>A database has the schema with its rows and the revision it is at.\<close>

record migrated_db =
  md_revision :: "string option"
  md_schema :: schema

definition pending :: "string option \<Rightarrow> migration list" where
  "pending at =
     (case at of None \<Rightarrow> history | Some r \<Rightarrow> tl (dropWhile (\<lambda>m. revision m \<noteq> r) history))"

fun run_migrations :: "(string \<Rightarrow> pyval) \<Rightarrow> migration list \<Rightarrow> migrated_db \<Rightarrow> string + migrated_db" where
  "run_migrations ev [] d = Inr d"
| "run_migrations ev (m # ms) d =
     rbind (run_ops ev (upgrade m) (md_schema d)) (\<lambda>s.
       run_migrations ev ms \<lparr>md_revision = Some (revision m), md_schema = s\<rparr>)"

text \<open>One transaction around all pending migrations.\<close>

definition do_run_migrations :: "(string \<Rightarrow> pyval) \<Rightarrow> migrated_db \<Rightarrow> (string + unit) \<times> migrated_db" where
  "do_run_migrations ev d =
     (case run_migrations ev (pending (md_revision d)) d of Inl e \<Rightarrow> (Inl e, d) | Inr d' \<Rightarrow> (Inr (), d'))"

datatype env_error = Config config_error | No_Database | Failed string | No_Bind

text \<open>The databases there are, by the URL of each.\<close>

type_synonym cluster = "string \<Rightarrow> migrated_db option"

definition run_migrations_online ::
  "(string \<Rightarrow> pyval) \<Rightarrow> (string \<Rightarrow> string option) \<Rightarrow> string \<Rightarrow> cluster \<Rightarrow> (env_error + unit) \<times> cluster" where
  "run_migrations_online ev opts url dbs =
     (case engine_url opts url of
        Inl e \<Rightarrow> (Inl (Config e), dbs)
      | Inr u \<Rightarrow>
          (case dbs u of
             None \<Rightarrow> (Inl No_Database, dbs)
           | Some d \<Rightarrow>
               (case do_run_migrations ev d of (r, d') \<Rightarrow> (map_sum Failed id r, dbs(u \<mapsto> d')))))"

text \<open>
  The offline mode writes the statements. There is no connection, so \<open>op.get_bind()\<close> is
  \<open>None\<close>, and creating or dropping an enumeration through it raises.
\<close>

fun needs_bind :: "op \<Rightarrow> bool" where
  "needs_bind (CreateType n vs) = True"
| "needs_bind (DropType n) = True"
| "needs_bind p = False"

definition run_migrations_offline ::
  "(string \<Rightarrow> string option) \<Rightarrow> string \<Rightarrow> string option \<Rightarrow> env_error + op list" where
  "run_migrations_offline opts url at =
     rbind (map_sum Config id (before_set url)) (\<lambda>_.
       let ps = concat (map upgrade (pending at))
       in if list_ex needs_bind ps then Inl No_Bind else Inr ps)"

section \<open>Facts about the interpolation\<close>

lemma match_key_percent: "percent \<notin> set s \<Longrightarrow> match_key s = None"
  by (cases s) (auto simp: match_key_def startswith_def)

lemma match_key_other: "c \<noteq> percent \<Longrightarrow> match_key (c # s) = None"
  by (simp add: match_key_def startswith_def)

lemma drop_pairs_plain: "percent \<notin> set s \<Longrightarrow> drop_pairs s = s"
  by (induction s rule: drop_pairs.induct) auto

lemma drop_keys_plain: "percent \<notin> set s \<Longrightarrow> drop_keys s = s"
  by (induction s) (use match_key_percent in auto)

lemma interpolate_plain: "percent \<notin> set s \<Longrightarrow> interpolate opts (Suc n) s = Inr s"
  by (induction s) auto

lemma engine_url_plain: "percent \<notin> set url \<Longrightarrow> engine_url opts url = Inr url"
  using interpolate_plain [of url _ 9] by (simp add: engine_url_def before_set_def Let_def drop_pairs_plain drop_keys_plain numeral_eq_Suc)

lemma map_sum_Inr: "map_sum id f r = Inr y \<longleftrightarrow> (\<exists>x. r = Inr x \<and> y = f x)"
  by (cases r) auto

text \<open>More depth changes no result.\<close>

lemma interpolate_deeper: "interpolate opts n s = Inr t \<Longrightarrow> interpolate opts (Suc n) s = Inr t"
proof (induction opts n s arbitrary: t rule: interpolate.induct)
  case (3 opts n c cs)
  show ?case
  proof (cases "c = percent")
    case False
    with 3 show ?thesis by (auto simp: map_sum_Inr)
  next
    case c: True
    then obtain d ds where cs: "cs = d # ds" using 3(5) by (cases cs) auto
    show ?thesis
    proof (cases "d = percent")
      case True
      with 3(2) [OF _ cs] 3(5) c cs show ?thesis by (auto simp: map_sum_Inr)
    next
      case d: False
      with 3(5) c cs have d2: "d = CHR ''(''" by (auto split: if_splits)
      with 3(5) c cs obtain k rest v where mk: "match_key (c # cs) = Some (k, rest)" "opts (py_lower k) = Some v"
        by (auto split: option.splits)
      from 3(5) c cs d2 mk obtain a b where ab: "(if percent \<in> set v then interpolate opts n v else Inr v) = Inr a"
        "interpolate opts (Suc n) rest = Inr b" "t = a @ b"
        by (auto simp: rbind_Inr_iff)
      have "interpolate opts (Suc (Suc n)) rest = Inr b" using 3(4) [OF _ cs d d2 _ _ mk(2)] mk(1) ab(2) c by auto
      moreover have "(if percent \<in> set v then interpolate opts (Suc n) v else Inr v) = Inr a"
        using 3(3) [OF _ cs d d2 _ _ mk(2)] mk(1) ab(1) c by (auto split: if_splits)
      ultimately show ?thesis using c cs d2 mk ab(3) by (auto simp: rbind_def)
    qed
  qed
qed auto

definition signs :: "string \<Rightarrow> nat" where
  "signs s = length (filter (\<lambda>c. c = percent) s)"

lemma signs_simps [simp]:
  "signs [] = 0" "signs (c # s) = (if c = percent then Suc (signs s) else signs s)" "signs (s @ t) = signs s + signs t"
  by (simp_all add: signs_def)

lemma signs_pos: "percent \<in> set s \<longleftrightarrow> signs s \<noteq> 0"
  by (simp add: signs_def filter_empty_conv)

lemma match_key_signs: "match_key (c # cs) = Some (k, rest) \<Longrightarrow> signs rest < signs (c # cs)"
proof -
  assume m: "match_key (c # cs) = Some (k, rest)"
  then have c: "c = percent" and rest: "rest = drop 2 (dropWhile (\<lambda>c. c \<noteq> CHR '')'') (drop 2 (c # cs)))"
    by (auto simp: match_key_def Let_def startswith_def split: if_splits)
  have "signs (drop n s) \<le> signs s" "signs (dropWhile P s) \<le> signs s" for n P s
    by (induction s arbitrary: n) (auto simp: drop_Cons' intro: le_trans le_SucI)
  then have "signs (drop 2 (dropWhile (\<lambda>c. c \<noteq> CHR '')'') (drop 1 cs))) \<le> signs cs" by (meson le_trans)
  then show ?thesis using c rest by simp
qed

text \<open>When no option with a sign can be expanded one level down, every replacement takes a sign away.\<close>

lemma interpolate_fewer:
  assumes "\<And>k v t. opts k = Some v \<Longrightarrow> percent \<in> set v \<Longrightarrow> interpolate opts n v \<noteq> Inr t"
  shows "interpolate opts m s = Inr t \<Longrightarrow> m = Suc n \<Longrightarrow> signs t \<le> signs s \<and> (signs s \<noteq> 0 \<longrightarrow> signs t < signs s)"
  using assms
proof (induction opts m s arbitrary: t rule: interpolate.induct)
  case (3 opts m c cs)
  show ?case
  proof (cases "c = percent")
    case False
    with 3(5) obtain t' where t': "interpolate opts (Suc m) cs = Inr t'" "t = c # t'" by (auto simp: map_sum_Inr)
    from 3(1) [OF False t'(1) 3(6)] 3(7) t'(2) False show ?thesis by auto
  next
    case c: True
    then obtain d ds where cs: "cs = d # ds" using 3(5) by (cases cs) auto
    show ?thesis
    proof (cases "d = percent")
      case True
      with 3(5) c cs obtain t' where t': "interpolate opts (Suc m) ds = Inr t'" "t = percent # t'" by (auto simp: map_sum_Inr)
      from 3(2) [OF _ cs True t'(1) 3(6)] 3(7) t'(2) True c cs show ?thesis by auto
    next
      case d: False
      with 3(5) c cs have d2: "d = CHR ''(''" by (auto split: if_splits)
      with 3(5) c cs obtain k rest v where mk: "match_key (c # cs) = Some (k, rest)" "opts (py_lower k) = Some v"
        by (auto split: option.splits)
      from 3(5) c cs d2 mk obtain a b where ab: "(if percent \<in> set v then interpolate opts m v else Inr v) = Inr a"
        "interpolate opts (Suc m) rest = Inr b" "t = a @ b"
        by (auto simp: rbind_Inr_iff)
      have "percent \<notin> set v" using 3(7) [OF mk(2)] ab(1) 3(6) by auto
      then have a: "signs a = 0" using ab(1) signs_pos by auto
      from 3(4) [OF _ cs d d2 _ _ mk(2) ab(2) 3(6)] 3(7) mk(1) c
      have "signs b \<le> signs rest" by auto
      with match_key_signs [OF mk(1)] ab(3) a show ?thesis by auto
    qed
  qed
qed auto

lemma interpolate_own_url:
  assumes "\<And>k v. opts k = Some v \<Longrightarrow> percent \<in> set v \<Longrightarrow> v = u" "percent \<in> set u" "interpolate opts n u = Inr t"
  shows "signs t < signs u"
  using assms(3)
proof (induction n arbitrary: t)
  case (Suc n)
  show ?case
  proof (cases "\<exists>a. interpolate opts n u = Inr a")
    case True
    then obtain a where a: "interpolate opts n u = Inr a" ..
    from interpolate_deeper [OF this] Suc.prems have "a = t" by simp
    with Suc.IH [OF a] show ?thesis by simp
  next
    case False
    then have "interpolate opts n v \<noteq> Inr b" if "opts k = Some v" "percent \<in> set v" for k v b
      using assms(1) [OF that] by auto
    from interpolate_fewer [OF this Suc.prems refl] assms(2) show ?thesis by (auto simp: signs_pos)
  qed
qed simp

text \<open>One sign, as a URL-escaped character of a password leaves it.\<close>

lemma escaped_refused:
  assumes "percent \<notin> set pre" "percent \<notin> set (h # post)" "h \<noteq> CHR ''(''"
  shows "before_set (pre @ percent # h # post) = Inl (Invalid_Value (length pre))"
proof -
  have pairs: "drop_pairs (pre @ percent # h # post) = pre @ percent # h # post"
    using assms(1)
  proof (induction pre)
    case Nil
    then show ?case using assms(2) drop_pairs_plain [of "h # post"] by auto
  next
    case (Cons c pre)
    then show ?case by (cases pre) auto
  qed
  have "match_key (percent # h # post) = None" using assms(3) by (simp add: match_key_def startswith_def)
  then have last: "drop_keys (percent # h # post) = percent # h # post"
    using drop_keys_plain [OF assms(2)] by simp
  have "drop_keys (pre @ percent # h # post) = pre @ percent # h # post"
    using assms(1)
  proof (induction pre)
    case Nil
    show ?case using last by (simp only: append_Nil)
  next
    case (Cons c pre)
    then have "match_key (c # pre @ percent # h # post) = None" by (intro match_key_other) auto
    moreover have "drop_keys (pre @ percent # h # post) = pre @ percent # h # post" by (rule Cons.IH) (use Cons.prems in auto)
    ultimately show ?case by (simp only: append_Cons drop_keys.simps option.case)
  qed
  moreover have "takeWhile (\<lambda>c. c \<noteq> percent) (pre @ percent # h # post) = pre"
    using assms(1) by (induction pre) auto
  ultimately show ?thesis by (simp only: before_set_def pairs Let_def) simp
qed

section \<open>Facts about the upgrade\<close>

lemma run_migrations_upgrades:
  "run_migrations ev ms d =
     (case upgrade_all ev ms (md_schema d) of
        Inl e \<Rightarrow> Inl e
      | Inr s \<Rightarrow> Inr (if ms = [] then d else \<lparr>md_revision = Some (revision (last ms)), md_schema = s\<rparr>))"
proof (induction ms arbitrary: d)
  case (Cons m ms)
  show ?case
  proof (cases "run_ops ev (upgrade m) (md_schema d)")
    case (Inr s)
    then show ?thesis using Cons.IH [of "\<lparr>md_revision = Some (revision m), md_schema = s\<rparr>"]
      by (cases ms) (auto simp: rbind_def split: sum.splits)
  qed (simp add: rbind_def)
qed simp

definition at_head :: "migrated_db \<Rightarrow> bool" where
  "at_head d \<longleftrightarrow> md_revision d = Some ''3a6f2d8c1b40''"

lemma history_revisions:
  "map revision history = [''fdda72aad25e'', ''8f2d4a91c7b3'', ''c4bb09f2d3a1'', ''2d7c9a4e1b63'', ''7d31b2f4a9c0'', ''3a6f2d8c1b40'']"
  by (rule history_order)

text \<open>What is pending after a known revision is the rest of the history.\<close>

lemma pending_rest:
  assumes "r \<in> set (map revision history)"
  shows "\<exists>pre m. history = pre @ m # pending (Some r) \<and> revision m = r"
proof -
  from assms obtain m where "m \<in> set history" "revision m = r" by auto
  then have "dropWhile (\<lambda>m. revision m \<noteq> r) history \<noteq> []" by (auto simp: dropWhile_eq_Nil_conv)
  then obtain m' ms where d: "dropWhile (\<lambda>m. revision m \<noteq> r) history = m' # ms"
    by (cases "dropWhile (\<lambda>m. revision m \<noteq> r) history") auto
  then have "revision m' = r" using hd_dropWhile [of "\<lambda>m. revision m \<noteq> r" history] by simp
  moreover have "history = takeWhile (\<lambda>m. revision m \<noteq> r) history @ m' # ms" using d by (metis takeWhile_dropWhile_id)
  ultimately show ?thesis using d by (auto simp: pending_def)
qed

lemma pending_last:
  assumes "rv \<in> insert None (Some ` set (map revision history))"
  shows "pending rv = [] \<and> rv = Some ''3a6f2d8c1b40'' \<or>
     pending rv \<noteq> [] \<and> revision (last (pending rv)) = ''3a6f2d8c1b40''"
proof -
  have last: "revision (last history) = ''3a6f2d8c1b40''" "history \<noteq> []"
  proof -
    show "history \<noteq> []" using history_revisions by auto
    then have "revision (last history) = last (map revision history)" by (rule last_map [symmetric])
    also have "\<dots> = ''3a6f2d8c1b40''" by (simp only: history_revisions) simp
    finally show "revision (last history) = ''3a6f2d8c1b40''" .
  qed
  show ?thesis
  proof (cases rv)
    case None
    with last show ?thesis by (simp add: pending_def)
  next
    case (Some r)
    with assms obtain pre m where h: "history = pre @ m # pending (Some r)" "revision m = r"
      using pending_rest [of r] by auto
    have "last history = last (m # pending (Some r))" using arg_cong [OF h(1), of last] by simp
    with last(1) have "revision (last (m # pending (Some r))) = ''3a6f2d8c1b40''" by simp
    with h(2) Some show ?thesis by (cases "pending (Some r) = []") auto
  qed
qed

lemma pending_head: "pending (Some ''3a6f2d8c1b40'') = []"
proof (rule ccontr)
  let ?p = "pending (Some ''3a6f2d8c1b40'')"
  assume some: "?p \<noteq> []"
  have "''3a6f2d8c1b40'' \<in> set (map revision history)" by (simp only: history_revisions) simp
  with pending_rest pending_last [of "Some ''3a6f2d8c1b40''"] some
  obtain pre m where "history = pre @ m # ?p" "revision m = ''3a6f2d8c1b40''" "revision (last ?p) = ''3a6f2d8c1b40''" by blast
  moreover have "distinct (map revision history)" by (simp only: history_revisions) simp
  moreover have "revision (last ?p) \<in> revision ` set ?p" using some by simp
  ultimately show False by (metis distinct.simps(2) distinct_append list.map(2) list.set_map map_append)
qed

section \<open>Properties\<close>

text \<open>C26: the migrations connect to the configured database exactly when its URL has no percent sign: a
  doubled sign or a reference in it is rewritten on the way through the configuration object, and a
  single one, as every URL-escaped character of a user name or password leaves it, is refused before
  any connection is made, although the application itself connects with such a URL.\<close>

theorem migration_url:
  assumes "percent \<notin> set here"
  shows "(engine_url (alembic_section here) url = Inr url \<longleftrightarrow> percent \<notin> set url) \<and>
     (\<forall>pre h post. url = pre @ percent # h # post \<longrightarrow> percent \<notin> set pre \<union> set (h # post) \<longrightarrow> h \<noteq> CHR ''('' \<longrightarrow>
        (\<forall>dbs. run_migrations_online ev (alembic_section here) url dbs = (Inl (Config (Invalid_Value (length pre))), dbs)))"
proof (intro conjI allI impI)
  have "engine_url (alembic_section here) url \<noteq> Inr url" if "percent \<in> set url"
  proof
    assume "engine_url (alembic_section here) url = Inr url"
    then have "interpolate ((alembic_section here)(''sqlalchemy.url'' \<mapsto> url)) 10 url = Inr url"
      by (auto simp: engine_url_def before_set_def Let_def rbind_Inr_iff split: if_splits)
    moreover have "v = url" if "((alembic_section here)(''sqlalchemy.url'' \<mapsto> url)) k = Some v" "percent \<in> set v" for k v
      using that assms by (auto simp: alembic_section_def split: if_splits)
    ultimately show False using interpolate_own_url [of _ url 10 url] that by fastforce
  qed
  then show "engine_url (alembic_section here) url = Inr url \<longleftrightarrow> percent \<notin> set url" using engine_url_plain by blast
next
  fix pre h post dbs
  assume "url = pre @ percent # h # post" "percent \<notin> set pre \<union> set (h # post)" "h \<noteq> CHR ''(''"
  then show "run_migrations_online ev (alembic_section here) url dbs = (Inl (Config (Invalid_Value (length pre))), dbs)"
    using escaped_refused [of pre h post] by (simp add: run_migrations_online_def engine_url_def rbind_def)
qed

theorem migration_url_witness:
  "run_migrations_online (\<lambda>_. PNone) (alembic_section ''/app'') (''p'' @ percent # ''40s@db'') (\<lambda>_. None) =
     (Inl (Config (Invalid_Value 1)), \<lambda>_. None)"
proof -
  have "percent \<notin> set ''/app''" by simp
  from conjunct2 [OF migration_url [OF this, of "''p'' @ percent # ''40s@db''" "\<lambda>_. PNone"], rule_format,
      of "''p''" "CHR ''4''" "''0s@db''" "\<lambda>_. None"]
  show ?thesis by simp
qed

text \<open>C25: an upgrade is all or nothing: at any known revision it either ends at the newest one with exactly the
  pending migrations applied, or fails and leaves the database and its revision as they were; other
  databases are never touched, a second upgrade changes nothing, and an empty database gets the
  schema of the models.\<close>

theorem migration_run_atomic:
  assumes "md_revision d \<in> insert None (Some ` set (map revision history))" and "do_run_migrations ev d = (r, d')"
  shows "(case r of
       Inl e \<Rightarrow> d' = d \<and> upgrade_all ev (pending (md_revision d)) (md_schema d) = Inl e
     | Inr _ \<Rightarrow> at_head d' \<and> upgrade_all ev (pending (md_revision d)) (md_schema d) = Inr (md_schema d') \<and>
         do_run_migrations ev d' = (Inr (), d')) \<and>
     (engine_url opts url = Inr u \<and> dbs u = Some d \<longrightarrow>
        run_migrations_online ev opts url dbs = (map_sum Failed id r, dbs(u \<mapsto> d'))) \<and>
     (d = \<lparr>md_revision = None, md_schema = empty_schema\<rparr> \<longrightarrow> reaches (Inr (md_schema d')) models_schema)"
proof -
  have head: "do_run_migrations ev e = (Inr (), e)" if "at_head e" for e
    using that by (simp add: do_run_migrations_def at_head_def pending_head)
  show ?thesis
  proof (cases "upgrade_all ev (pending (md_revision d)) (md_schema d)")
    case (Inl e)
    then show ?thesis
      using assms(2) upgrade_reaches_models [of ev]
      by (auto simp: do_run_migrations_def run_migrations_upgrades run_migrations_online_def pending_def reaches_def)
  next
    case (Inr s)
    let ?e = "if pending (md_revision d) = [] then d
      else \<lparr>md_revision = Some (revision (last (pending (md_revision d)))), md_schema = s\<rparr>"
    have "md_schema ?e = s" using Inr by auto
    moreover have "at_head ?e" using pending_last [OF assms(1)] by (auto simp: at_head_def)
    moreover have "r = Inr ()" "d' = ?e" using assms(2) Inr by (simp_all add: do_run_migrations_def run_migrations_upgrades)
    ultimately show ?thesis
      using Inr head [of ?e] assms(2) upgrade_reaches_models [of ev]
      by (auto simp: run_migrations_online_def pending_def)
  qed
qed

theorem migration_run_atomic_witness:
  "\<exists>d'. do_run_migrations (\<lambda>_. PNone) \<lparr>md_revision = None, md_schema = empty_schema\<rparr> = (Inr (), d') \<and> at_head d' \<and>
     reaches (Inr (md_schema d')) models_schema"
proof -
  let ?d = "\<lparr>md_revision = None, md_schema = empty_schema\<rparr>"
  obtain r d' where run: "do_run_migrations (\<lambda>_. PNone) ?d = (r, d')" by force
  have "md_revision ?d \<in> insert None (Some ` set (map revision history))" by simp
  from migration_run_atomic [OF this run] upgrade_reaches_models [of "\<lambda>_. PNone"] run
  show ?thesis by (cases r) (auto simp: pending_def reaches_def)
qed

text \<open>
  The offline mode cannot finish from any revision but the newest: the migrations that are then
  pending create or drop enumerations through the connection.
\<close>

lemma offline_fails:
  assumes "percent \<notin> set url" "at \<in> insert None (Some ` set (map revision (butlast history)))"
  shows "run_migrations_offline opts url at = Inl No_Bind"
proof -
  have "list_all (\<lambda>at. list_ex needs_bind (concat (map upgrade (pending at))))
      (None # map Some (map revision (butlast history)))"
    by code_simp
  then have "list_ex needs_bind (concat (map upgrade (pending at)))"
    using assms(2) by (fastforce simp: list_all_iff)
  then show ?thesis
    using assms(1) by (simp add: run_migrations_offline_def before_set_def Let_def drop_pairs_plain drop_keys_plain rbind_def)
qed

end
