(* ===== verification/Routing.thy ===== *)
theory Routing
  imports Data_Routes
begin

text \<open>
  The route table of the application (\<open>app/api/v1/router.py\<close> with the decorators of the
  endpoints) and the dispatch of a request. The regular expressions of Starlette's paths are
  compiled and matched the way its documentation gives them: \<open>{name}\<close> stands for one or more
  characters other than a slash, \<open>{name:path}\<close> for any characters other than a line feed, and
  the final anchor admits a trailing line feed.
\<close>

section \<open>Paths\<close>

datatype piece = Exact char | Segment | AnyPath

function compile_path :: "string \<Rightarrow> piece list" where
  "compile_path [] = []"
| "compile_path (c # cs) =
     (if c = CHR ''{''
      then (if endswith (takeWhile (\<lambda>d. d \<noteq> CHR ''}'') cs) '':path'' then AnyPath else Segment) #
           compile_path (tl (dropWhile (\<lambda>d. d \<noteq> CHR ''}'') cs))
      else Exact c # compile_path cs)"
  by pat_completeness auto
termination
  by (relation "measure length")
     (auto intro!: le_imp_less_Suc [OF le_trans [OF diff_le_self length_dropWhile_le]])

fun path_matches :: "piece list \<Rightarrow> string \<Rightarrow> bool" where
  "path_matches [] s \<longleftrightarrow> s = [] \<or> s = newline"
| "path_matches (Exact c # ps) [] \<longleftrightarrow> False"
| "path_matches (Exact c # ps) (d # s) \<longleftrightarrow> c = d \<and> path_matches ps s"
| "path_matches (Segment # ps) [] \<longleftrightarrow> False"
| "path_matches (Segment # ps) (d # s) \<longleftrightarrow>
     d \<noteq> CHR ''/'' \<and> (path_matches ps s \<or> path_matches (Segment # ps) s)"
| "path_matches (AnyPath # ps) [] \<longleftrightarrow> path_matches ps []"
| "path_matches (AnyPath # ps) (d # s) \<longleftrightarrow>
     path_matches ps (d # s) \<or> [d] \<noteq> newline \<and> path_matches (AnyPath # ps) s"

section \<open>The table\<close>

text \<open>Method, path and endpoint, in the order of registration.\<close>

type_synonym route = "string \<times> string \<times> string"

definition include_router :: "string \<Rightarrow> route list \<Rightarrow> route list" where
  "include_router pre rs = map (\<lambda>(m, p, e). (m, pre @ p, e)) rs"

definition health_router :: "route list" where
  "health_router = [(''GET'', ''/health'', ''health_check'')]"

definition auth_router :: "route list" where
  "auth_router =
     [(''POST'', ''/login'', ''login''), (''POST'', ''/token'', ''token''), (''POST'', ''/refresh'', ''refresh_token''),
      (''GET'', ''/me'', ''get_me''), (''POST'', ''/change-password'', ''change_password'')]"

definition users_routes :: "route list" where
  "users_routes =
     [(''POST'', '''', ''create_user''), (''GET'', '''', ''list_users''), (''PATCH'', ''/me'', ''update_me''),
      (''DELETE'', ''/me'', ''delete_me''), (''GET'', ''/{user_id}'', ''get_user''),
      (''PATCH'', ''/{user_id}'', ''update_user''), (''DELETE'', ''/{user_id}'', ''delete_user'')]"

definition data_router :: "route list" where
  "data_router = [(''GET'', ''/users'', ''list_users_data'')]"

definition power_bi_router :: "route list" where
  "power_bi_router = [(''GET'', ''/deeplink_1'', ''get_deeplink_1''), (''GET'', ''/deeplink_2'', ''get_deeplink_2'')]"

definition dynamic_routes_router :: "route list" where
  "dynamic_routes_router =
     [(''POST'', '''', ''create_dynamic_route''), (''GET'', '''', ''list_dynamic_routes''),
      (''GET'', ''/{route_id}'', ''get_dynamic_route''), (''PUT'', ''/{route_id}'', ''update_dynamic_route''),
      (''DELETE'', ''/{route_id}'', ''delete_dynamic_route'')]"

definition dynamic_execute_router :: "route list" where
  "dynamic_execute_router = [(''GET'', ''/{prefix}/{path:path}'', ''execute_dynamic_route'')]"

definition api_router :: "route list" where
  "api_router =
     health_router @ include_router ''/auth'' auth_router @ include_router ''/users'' users_routes @
     include_router ''/data'' data_router @ include_router ''/power_bi'' power_bi_router @
     include_router ''/dynamic-routes'' dynamic_routes_router @ dynamic_execute_router"

text \<open>The pages FastAPI registers itself come first.\<close>

definition documentation_routes :: "route list" where
  "documentation_routes =
     [(''GET'', ''/openapi.json'', ''openapi''), (''GET'', ''/docs'', ''swagger_ui''),
      (''GET'', ''/docs/oauth2-redirect'', ''swagger_ui_redirect''), (''GET'', ''/redoc'', ''redoc'')]"

definition app_routes :: "settings \<Rightarrow> route list" where
  "app_routes st = documentation_routes @ include_router (api_v1_prefix st) api_router"

text \<open>The table as the endpoints of the dynamic routes see it in \<open>request.app.routes\<close>.\<close>

definition registered_of :: "route list \<Rightarrow> registered_route list" where
  "registered_of rs = map (\<lambda>(m, p, e). \<lparr>reg_path = Some p, reg_methods = Some [m]\<rparr>) rs"

section \<open>Dispatch\<close>

text \<open>
  The first route whose path and method match takes the request; failing that, a route whose
  path alone matches answers 405; failing that, the path with its trailing slash added or taken
  away is tried for a redirect.
\<close>

datatype target = Endpoint string | MethodNotAllowed | RedirectTo string | NoRoute

definition hits :: "string \<Rightarrow> route \<Rightarrow> bool" where
  "hits path r = (case r of (m, p, e) \<Rightarrow> path_matches (compile_path p) path)"

definition dispatch :: "route list \<Rightarrow> string \<Rightarrow> string \<Rightarrow> target" where
  "dispatch rs verb path =
     (case find (\<lambda>r. fst r = verb \<and> hits path r) rs of
        Some (m, p, e) \<Rightarrow> Endpoint e
      | None \<Rightarrow>
          if list_ex (hits path) rs then MethodNotAllowed
          else (let toggled = (if endswith path ''/'' then rstrip_char (CHR ''/'') path else path @ ''/'') in
                if path \<noteq> ''/'' \<and> list_ex (hits toggled) rs then RedirectTo toggled else NoRoute))"

section \<open>Facts about matching\<close>

lemma newline_eq: "newline = [CHR 0x0A]"
  unfolding newline_def by code_simp

lemma compile_literal: "CHR ''{'' \<notin> set w \<Longrightarrow> compile_path (w @ p) = map Exact w @ compile_path p"
  by (induction w) auto

lemma matches_exact: "path_matches (map Exact w @ ps) (w @ s) = path_matches ps s"
  by (induction w) auto

text \<open>A literal first segment, followed by a slash or by nothing.\<close>

lemma matches_segment:
  "CHR ''/'' \<notin> set w \<Longrightarrow> CHR ''/'' \<notin> set v \<Longrightarrow>
   path_matches (map Exact w @ Exact (CHR ''/'') # ps) (v @ CHR ''/'' # s) \<longleftrightarrow> w = v \<and> path_matches ps s"
proof (induction w arbitrary: v)
  case Nil
  then show ?case by (cases v) auto
next
  case (Cons c w)
  then show ?case by (cases v) auto
qed

lemma not_matches_short:
  "CHR ''/'' \<notin> set w \<Longrightarrow> \<not> path_matches (map Exact w) (v @ CHR ''/'' # s)"
proof (induction w arbitrary: v)
  case Nil
  then show ?case by (cases v; cases "tl v") (auto simp: newline_eq)
next
  case (Cons c w)
  then show ?case by (cases v) auto
qed

lemma matches_last_segment: "path_matches [Segment] s \<longleftrightarrow> s \<noteq> [] \<and> CHR ''/'' \<notin> set s"
  by (induction s) (auto simp: newline_eq)

lemma matches_literal: "path_matches (map Exact w) s \<longleftrightarrow> s = w \<or> s = w @ newline"
proof (induction w arbitrary: s)
  case (Cons c w)
  then show ?case by (cases s) auto
qed simp

lemma matches_rest: "path_matches [AnyPath] s \<longleftrightarrow> CHR 0x0A \<notin> set (butlast s)"
  proof (induction s)
  case (Cons c s)
  then show ?case by (cases s) (auto simp: newline_eq)
qed simp

lemma matches_catch_all:
  "v \<noteq> [] \<Longrightarrow> CHR ''/'' \<notin> set v \<Longrightarrow>
   path_matches [Segment, Exact (CHR ''/''), AnyPath] (v @ CHR ''/'' # s) \<longleftrightarrow> path_matches [AnyPath] s"
proof (induction v)
  case (Cons c v)
  have "path_matches [Exact (CHR ''/''), AnyPath] (v @ CHR ''/'' # s) \<longleftrightarrow> v = [] \<and> path_matches [AnyPath] s"
    using Cons.prems by (cases v) auto
  with Cons show ?case by (cases v) (auto simp del: path_matches.simps(6,7))
qed simp

section \<open>Facts about the table\<close>

text \<open>The static routes by first segment and rest.\<close>

definition static_table :: "(string \<times> string \<times> string \<times> string) list" where
  "static_table =
     [(''GET'', ''health'', '''', ''health_check''),
      (''POST'', ''auth'', ''/login'', ''login''), (''POST'', ''auth'', ''/token'', ''token''),
      (''POST'', ''auth'', ''/refresh'', ''refresh_token''), (''GET'', ''auth'', ''/me'', ''get_me''),
      (''POST'', ''auth'', ''/change-password'', ''change_password''),
      (''POST'', ''users'', '''', ''create_user''), (''GET'', ''users'', '''', ''list_users''),
      (''PATCH'', ''users'', ''/me'', ''update_me''), (''DELETE'', ''users'', ''/me'', ''delete_me''),
      (''GET'', ''users'', ''/{user_id}'', ''get_user''), (''PATCH'', ''users'', ''/{user_id}'', ''update_user''),
      (''DELETE'', ''users'', ''/{user_id}'', ''delete_user''),
      (''GET'', ''data'', ''/users'', ''list_users_data''),
      (''GET'', ''power_bi'', ''/deeplink_1'', ''get_deeplink_1''), (''GET'', ''power_bi'', ''/deeplink_2'', ''get_deeplink_2''),
      (''POST'', ''dynamic-routes'', '''', ''create_dynamic_route''), (''GET'', ''dynamic-routes'', '''', ''list_dynamic_routes''),
      (''GET'', ''dynamic-routes'', ''/{route_id}'', ''get_dynamic_route''),
      (''PUT'', ''dynamic-routes'', ''/{route_id}'', ''update_dynamic_route''),
      (''DELETE'', ''dynamic-routes'', ''/{route_id}'', ''delete_dynamic_route'')]"

definition static_route :: "string \<times> string \<times> string \<times> string \<Rightarrow> route" where
  "static_route = (\<lambda>(m, w, rest, e). (m, ''/api/v1/'' @ w @ rest, e))"

definition catch_all :: route where
  "catch_all = (''GET'', ''/api/v1/{prefix}/{path:path}'', ''execute_dynamic_route'')"

lemma app_routes_table:
  assumes "api_v1_prefix st = ''/api/v1''"
  shows "app_routes st = documentation_routes @ map static_route static_table @ [catch_all]"
  unfolding app_routes_def assms by code_simp

text \<open>A request for a path of two parts or more under the API prefix.\<close>

definition under :: "string \<Rightarrow> string \<Rightarrow> string" where
  "under v s = ''/api/v1/'' @ v @ ''/'' @ s"

lemma hits_static:
  assumes "CHR ''/'' \<notin> set v" "CHR ''/'' \<notin> set w" "CHR ''{'' \<notin> set w"
  shows "hits (under v s) (static_route (m, w, '''', e)) \<longleftrightarrow> False"
    and "hits (under v s) (static_route (m, w, CHR ''/'' # p, e)) \<longleftrightarrow> v = w \<and> path_matches (compile_path p) s"
proof -
  have "CHR ''{'' \<notin> set ''/api/v1/''" by simp
  note lit = compile_literal [OF this] compile_literal [OF assms(3)]
  show "hits (under v s) (static_route (m, w, '''', e)) \<longleftrightarrow> False"
    using not_matches_short [OF assms(2), of v s] compile_literal [OF assms(3), of "[]"]
    unfolding hits_def under_def static_route_def prod.case lit matches_exact by simp
  have "compile_path (CHR ''/'' # p) = Exact (CHR ''/'') # compile_path p" by simp
  then show "hits (under v s) (static_route (m, w, CHR ''/'' # p, e)) \<longleftrightarrow> v = w \<and> path_matches (compile_path p) s"
    using matches_segment [OF assms(2,1), of "compile_path p" s]
    unfolding hits_def under_def static_route_def prod.case lit matches_exact by auto
qed

lemma fst_static [simp]: "fst (static_route (m, w, r, e)) = m"
  by (simp add: static_route_def)

lemma hits_documentation: "r \<in> set documentation_routes \<Longrightarrow> \<not> hits (under v s) r"
  by (auto simp: documentation_routes_def hits_def under_def)

lemma hits_catch_all:
  assumes "v \<noteq> []" "CHR ''/'' \<notin> set v"
  shows "hits (under v s) catch_all \<longleftrightarrow> CHR 0x0A \<notin> set (butlast s)"
proof -
  have "compile_path ''/api/v1/{prefix}/{path:path}'' =
      map Exact ''/api/v1/'' @ [Segment, Exact (CHR ''/''), AnyPath]" by code_simp
  then show ?thesis
    using matches_catch_all [OF assms, of s] matches_exact [of "''/api/v1/''"]
    by (simp add: hits_def under_def catch_all_def matches_rest del: path_matches.simps)
qed

lemma segment_patterns:
  "path_matches (compile_path ''{user_id}'') s \<longleftrightarrow> s \<noteq> [] \<and> CHR ''/'' \<notin> set s"
  "path_matches (compile_path ''{route_id}'') s \<longleftrightarrow> s \<noteq> [] \<and> CHR ''/'' \<notin> set s"
proof -
  have "compile_path ''{user_id}'' = [Segment]" "compile_path ''{route_id}'' = [Segment]" by code_simp+
  then show "path_matches (compile_path ''{user_id}'') s \<longleftrightarrow> s \<noteq> [] \<and> CHR ''/'' \<notin> set s"
    "path_matches (compile_path ''{route_id}'') s \<longleftrightarrow> s \<noteq> [] \<and> CHR ''/'' \<notin> set s"
    by (simp_all only: matches_last_segment)
qed

definition literally :: "string \<Rightarrow> string \<Rightarrow> bool" where
  "literally w s \<longleftrightarrow> s = w \<or> s = w @ newline"

lemma literal_pattern: "CHR ''{'' \<notin> set w \<Longrightarrow> path_matches (compile_path w) s \<longleftrightarrow> literally w s"
  using compile_literal [of w "[]"] matches_literal [of w s] by (simp add: literally_def)

lemma find_skip: "\<forall>x \<in> set xs. \<not> P x \<Longrightarrow> find P (xs @ ys) = find P ys"
  by (induction xs) auto

lemma find_filter: "find (\<lambda>r. P r \<and> Q r) xs = find Q (filter P xs)"
  by (induction xs) auto

definition get_rows :: "(string \<times> string \<times> string \<times> string) list" where
  "get_rows = filter (\<lambda>r. fst r = ''GET'') static_table"

lemma get_rows_eq:
  "get_rows =
     [(''GET'', ''health'', '''', ''health_check''), (''GET'', ''auth'', ''/me'', ''get_me''),
      (''GET'', ''users'', '''', ''list_users''), (''GET'', ''users'', ''/{user_id}'', ''get_user''),
      (''GET'', ''data'', ''/users'', ''list_users_data''),
      (''GET'', ''power_bi'', ''/deeplink_1'', ''get_deeplink_1''), (''GET'', ''power_bi'', ''/deeplink_2'', ''get_deeplink_2''),
      (''GET'', ''dynamic-routes'', '''', ''list_dynamic_routes''),
      (''GET'', ''dynamic-routes'', ''/{route_id}'', ''get_dynamic_route'')]"
  by code_simp

text \<open>The endpoint of the GET route that takes such a request.\<close>

definition endpoint_of :: "route \<Rightarrow> string" where
  "endpoint_of r = snd (snd r)"

lemma find_GET:
  assumes "api_v1_prefix st = ''/api/v1''" "v \<noteq> []" "CHR ''/'' \<notin> set v"
  shows "map_option endpoint_of (find (\<lambda>r. fst r = ''GET'' \<and> hits (under v s) r) (app_routes st)) =
    (if v = ''auth'' \<and> literally ''me'' s then Some ''get_me''
     else if v = ''users'' \<and> s \<noteq> [] \<and> CHR ''/'' \<notin> set s then Some ''get_user''
     else if v = ''data'' \<and> literally ''users'' s then Some ''list_users_data''
     else if v = ''power_bi'' \<and> literally ''deeplink_1'' s then Some ''get_deeplink_1''
     else if v = ''power_bi'' \<and> literally ''deeplink_2'' s then Some ''get_deeplink_2''
     else if v = ''dynamic-routes'' \<and> s \<noteq> [] \<and> CHR ''/'' \<notin> set s then Some ''get_dynamic_route''
     else if CHR 0x0A \<notin> set (butlast s) then Some ''execute_dynamic_route'' else None)"
proof -
  have lits: "CHR ''/'' \<notin> set w \<and> CHR ''{'' \<notin> set w"
    if "w \<in> {''health'', ''auth'', ''users'', ''data'', ''power_bi'', ''dynamic-routes''}" for w
    using that by auto
  note static = hits_static [OF assms(3) conjunct1 [OF lits] conjunct2 [OF lits]]
  have pats: "path_matches (compile_path ''me'') s = literally ''me'' s"
    "path_matches (compile_path ''users'') s = literally ''users'' s"
    "path_matches (compile_path ''deeplink_1'') s = literally ''deeplink_1'' s"
    "path_matches (compile_path ''deeplink_2'') s = literally ''deeplink_2'' s"
    by (rule literal_pattern, simp)+
  have ends: "endpoint_of (static_route (m, w, r, e)) = e" "endpoint_of catch_all = ''execute_dynamic_route''" for m w r e
    by (simp_all add: endpoint_of_def static_route_def catch_all_def)
  have rows: "filter (\<lambda>r. fst r = ''GET'') (map static_route static_table @ [catch_all]) = map static_route get_rows @ [catch_all]"
  proof -
    have "fst (static_route t) = fst t" for t by (cases t) simp
    then show ?thesis by (simp add: get_rows_def filter_map comp_def catch_all_def)
  qed
  have "find (\<lambda>r. fst r = ''GET'' \<and> hits (under v s) r) (app_routes st) =
      find (\<lambda>r. fst r = ''GET'' \<and> hits (under v s) r) (map static_route static_table @ [catch_all])"
    unfolding app_routes_table [OF assms(1)] by (rule find_skip) (use hits_documentation in blast)
  also have "\<dots> = find (hits (under v s)) (map static_route get_rows @ [catch_all])"
    unfolding find_filter rows ..
  finally have eq: "find (\<lambda>r. fst r = ''GET'' \<and> hits (under v s) r) (app_routes st) =
      find (hits (under v s)) (map static_route get_rows @ [catch_all])" .
  show ?thesis
    unfolding eq get_rows_eq list.map append.simps(2) append_Nil find.simps
      hits_catch_all [OF assms(2,3)]
    by (simp only: static insert_iff empty_iff simp_thms if_False if_True segment_patterns pats if_distrib [of "map_option endpoint_of"] option.map ends)
qed

text \<open>A rest with a line feed inside is taken by no route but \<open>/users/{user_id}\<close>.\<close>

lemma literally_no_feed: "CHR 0x0A \<in> set (butlast s) \<Longrightarrow> CHR 0x0A \<notin> set w \<Longrightarrow> \<not> literally w s"
  by (auto simp: literally_def newline_eq dest: in_set_butlastD)

lemma no_hit:
  assumes "api_v1_prefix st = ''/api/v1''" "v \<noteq> []" "CHR ''/'' \<notin> set v"
    and "CHR 0x0A \<in> set (butlast s)" "v \<noteq> ''dynamic-routes''" "\<not> (v = ''users'' \<and> CHR ''/'' \<notin> set s)"
  shows "\<not> list_ex (hits (under v s)) (app_routes st)"
proof -
  have lits: "CHR ''/'' \<notin> set w \<and> CHR ''{'' \<notin> set w"
    if "w \<in> {''health'', ''auth'', ''users'', ''data'', ''power_bi'', ''dynamic-routes''}" for w
    using that by auto
  note static = hits_static [OF assms(3) conjunct1 [OF lits] conjunct2 [OF lits]]
  have pats: "\<not> path_matches (compile_path w) s" if "CHR ''{'' \<notin> set w" "CHR 0x0A \<notin> set w" for w
    using literal_pattern [OF that(1)] literally_no_feed [OF assms(4) that(2)] by blast
  have lits2: "CHR ''{'' \<notin> set w \<and> CHR 0x0A \<notin> set w"
    if "w \<in> {''login'', ''token'', ''refresh'', ''me'', ''change-password'', ''users'', ''deeplink_1'', ''deeplink_2''}" for w
    using that by auto
  have "list_all (\<lambda>t. \<not> hits (under v s) (static_route t)) static_table"
    unfolding static_table_def list.pred_inject
    using assms(5,6)
    by (simp only: static insert_iff empty_iff simp_thms segment_patterns pats [OF conjunct1 [OF lits2] conjunct2 [OF lits2]]
        list.pred_inject(1)) blast
  then show ?thesis
    unfolding app_routes_table [OF assms(1)] list_ex_append
    using hits_catch_all [OF assms(2,3), of s] hits_documentation assms(4)
    by (auto simp: list_ex_iff list_all_iff)
qed

text \<open>The literal comparison of \<open>_reject_static_get_collision\<close>.\<close>

lemma collision_rejected:
  assumes "api_v1_prefix st = ''/api/v1''" "(''GET'', under v s, e) \<in> set (app_routes st)"
    and "\<not> contains_str ''{path:path}'' (under v s)"
  shows "reject_static_get_collision st (registered_of (app_routes st)) v s \<noteq> Inr ()"
proof -
  have "rstrip_char (CHR ''/'') ''/api/v1'' = ''/api/v1''" by (rule rstrip_char_id) simp
  then have path: "rstrip_char (CHR ''/'') (api_v1_prefix st) @ ''/'' @ v @ ''/'' @ s = under v s"
    using assms(1) by (simp add: under_def)
  have "list_ex (\<lambda>r. reg_path r = Some (under v s) \<and>
      (case reg_methods r of None \<Rightarrow> False | Some ms \<Rightarrow> ''GET'' \<in> set ms) \<and>
      \<not> contains_str ''{path:path}'' (under v s)) (registered_of (app_routes st))"
    using assms(2,3) by (force simp: list_ex_iff registered_of_def)
  then show ?thesis unfolding reject_static_get_collision_def Let_def path by simp
qed

lemma no_collision:
  assumes "api_v1_prefix st = ''/api/v1''"
    and "reject_static_get_collision st (registered_of (app_routes st)) v s = Inr ()"
  shows "\<not> (v = ''auth'' \<and> s = ''me'')" "\<not> (v = ''data'' \<and> s = ''users'')"
    "\<not> (v = ''power_bi'' \<and> s = ''deeplink_1'')" "\<not> (v = ''power_bi'' \<and> s = ''deeplink_2'')"
proof -
  have row: "(''GET'', under w r, e) \<in> set (app_routes st)"
    if "(''GET'', w, CHR ''/'' # r, e) \<in> set static_table" for w r e
    using imageI [OF that, of static_route] unfolding app_routes_table [OF assms(1)]
    by (simp add: static_route_def under_def)
  have lit: "\<not> contains_str ''{path:path}'' (under ''auth'' ''me'')" "\<not> contains_str ''{path:path}'' (under ''data'' ''users'')"
    "\<not> contains_str ''{path:path}'' (under ''power_bi'' ''deeplink_1'')"
    "\<not> contains_str ''{path:path}'' (under ''power_bi'' ''deeplink_2'')"
    by code_simp+
  have mem: "(''GET'', ''auth'', ''/me'', ''get_me'') \<in> set static_table"
    "(''GET'', ''data'', ''/users'', ''list_users_data'') \<in> set static_table"
    "(''GET'', ''power_bi'', ''/deeplink_1'', ''get_deeplink_1'') \<in> set static_table"
    "(''GET'', ''power_bi'', ''/deeplink_2'', ''get_deeplink_2'') \<in> set static_table"
    by (simp_all add: static_table_def)
  show "\<not> (v = ''auth'' \<and> s = ''me'')" "\<not> (v = ''data'' \<and> s = ''users'')"
    "\<not> (v = ''power_bi'' \<and> s = ''deeplink_1'')" "\<not> (v = ''power_bi'' \<and> s = ''deeplink_2'')"
    using collision_rejected [OF assms(1) row [OF mem(1)] lit(1)] collision_rejected [OF assms(1) row [OF mem(2)] lit(2)]
      collision_rejected [OF assms(1) row [OF mem(3)] lit(3)] collision_rejected [OF assms(1) row [OF mem(4)] lit(4)] assms(2)
    by auto
qed

text \<open>What the schema says about the parts.\<close>

lemma slug_no_slash_member: "is_slug v \<Longrightarrow> CHR ''/'' \<notin> set v \<and> v \<noteq> []"
  by (auto simp: is_slug_def list_all_iff slug_char_def is_ascii_letter_def is_ascii_digit_def)

lemma schema_parts:
  assumes "route_write_schema raw = Inr w"
  shows "CHR ''/'' \<notin> set (rw_prefix w)" "rw_prefix w \<noteq> []" "rw_prefix w \<noteq> ''dynamic-routes''"
    "rw_path w \<noteq> []" "last (rw_path w) \<noteq> CHR ''/''" "last (rw_path w) \<noteq> CHR 0x0A"
proof -
  from assms have parts: "validate_prefix (rw_prefix w)" "validate_path (rw_path w)"
    by (rule route_write_schema_InrE; simp)+
  then show "CHR ''/'' \<notin> set (rw_prefix w)" "rw_prefix w \<noteq> []" "rw_prefix w \<noteq> ''dynamic-routes''"
    using slug_no_slash_member by (auto simp: validate_prefix_def RESERVED_PREFIXES_def)
  show ne: "rw_path w \<noteq> []" using validate_path_constraints [OF parts(2)] by simp
  have "\<not> is_space (last (rw_path w))"
    using parts(2) ne py_strip_idem_ends [of "rw_path w"] by (simp add: validate_path_def)
  then show "last (rw_path w) \<noteq> CHR 0x0A" by (auto simp: is_space_def)
  show "last (rw_path w) \<noteq> CHR ''/''"
    using validate_path_constraints [OF parts(2)] ne
    by (cases "rw_path w" rule: rev_cases) (simp_all add: endswith_def)
qed

section \<open>Properties\<close>

text \<open>C23: a stored dynamic route is reachable unless it is shadowed. For a payload that passed the schema and
  the collision check, a GET for its path under the API prefix is dispatched to the executor of
  dynamic routes, with two exceptions the checks let through: a route of one segment under
  \<open>users\<close> is always answered by \<open>GET /users/{user_id}\<close>, which is registered earlier, since the
  collision check only compares literal paths; and a path with a line feed inside matches no route.\<close>

theorem dynamic_route_dispatch:
  assumes "api_v1_prefix st = ''/api/v1''" "route_write_schema raw = Inr w"
    and "reject_static_get_collision st (registered_of (app_routes st)) (rw_prefix w) (rw_path w) = Inr ()"
  shows "dispatch (app_routes st) ''GET'' (api_v1_prefix st @ dr_api_path (new_route dc i w canonical a)) =
    (if rw_prefix w = ''users'' \<and> CHR ''/'' \<notin> set (rw_path w) then Endpoint ''get_user''
     else if CHR 0x0A \<in> set (rw_path w) then NoRoute
     else Endpoint ''execute_dynamic_route'')"
proof -
  let ?v = "rw_prefix w" and ?s = "rw_path w"
  note parts = schema_parts [OF assms(2)]
  have path: "api_v1_prefix st @ dr_api_path (new_route dc i w canonical a) = under ?v ?s"
    by (simp add: assms(1) dr_api_path_def new_route_def under_def)
  have feed: "CHR 0x0A \<in> set (butlast ?s) \<longleftrightarrow> CHR 0x0A \<in> set ?s"
    using parts(4,6) by (cases ?s rule: rev_cases) auto
  have "\<not> literally u ?s" if "?s \<noteq> u" for u
    using that parts(6) by (auto simp: literally_def newline_eq)
  then have free: "\<not> (?v = ''auth'' \<and> literally ''me'' ?s)" "\<not> (?v = ''data'' \<and> literally ''users'' ?s)"
    "\<not> (?v = ''power_bi'' \<and> literally ''deeplink_1'' ?s)" "\<not> (?v = ''power_bi'' \<and> literally ''deeplink_2'' ?s)"
    using no_collision [OF assms(1,3)] by blast+
  have found: "map_option endpoint_of (find (\<lambda>r. fst r = ''GET'' \<and> hits (under ?v ?s) r) (app_routes st)) =
      (if ?v = ''users'' \<and> CHR ''/'' \<notin> set ?s then Some ''get_user''
       else if CHR 0x0A \<in> set ?s then None else Some ''execute_dynamic_route'')"
    using free parts(3,4) unfolding find_GET [OF assms(1) parts(2,1)] feed by simp
  show ?thesis
  proof (cases "?v \<noteq> ''users'' \<or> CHR ''/'' \<in> set ?s")
    case other: True
    show ?thesis
    proof (cases "CHR 0x0A \<in> set ?s")
      case True
      have none: "\<not> list_ex (hits (under ?v ?s)) (app_routes st)"
        by (rule no_hit [OF assms(1) parts(2,1)]) (use True feed other parts(3) in auto)
      have toggled: "\<not> list_ex (hits (under ?v (?s @ ''/''))) (app_routes st)"
        by (rule no_hit [OF assms(1) parts(2,1)]) (use True parts(3) in \<open>auto simp: butlast_append\<close>)
      have ends: "\<not> endswith (under ?v ?s) ''/''" "under ?v ?s @ ''/'' = under ?v (?s @ ''/'')" "under ?v ?s \<noteq> ''/''"
        using parts(4,5) by (cases ?s rule: rev_cases; simp add: endswith_def under_def)+
      have "find (\<lambda>r. fst r = ''GET'' \<and> hits (under ?v ?s) r) (app_routes st) = None"
        using found True other by auto
      then show ?thesis using none toggled ends True other by (auto simp: path dispatch_def)
    next
      case False
      then show ?thesis using found other by (auto simp: path dispatch_def endpoint_of_def split: option.splits)
    qed
  next
    case False
    then show ?thesis using found by (auto simp: path dispatch_def endpoint_of_def split: option.splits)
  qed
qed

definition shadowed_write :: route_write where
  "shadowed_write = \<lparr>rw_prefix = ''users'', rw_path = ''daily'', rw_sql = ''SELECT 1'', rw_params = [],
     rw_description = '''', rw_db_type = DbTrino, rw_pii_type = None, rw_response_type = Data,
     rw_lab_test = False, rw_lab_test_params = []\<rparr>"

theorem dynamic_route_dispatch_witness:
  "reject_static_get_collision default_settings (registered_of (app_routes default_settings)) ''users'' ''daily'' = Inr () \<and>
   dispatch (app_routes default_settings) ''GET''
     (''/api/v1'' @ dr_api_path (new_route demo_codec 1 shadowed_write ''SELECT 1'' 2)) = Endpoint ''get_user''"
proof -
  have st: "api_v1_prefix default_settings = ''/api/v1''" by (simp add: default_settings_def)
  have ok: "route_write_schema shadowed_write = Inr shadowed_write" by code_simp
  have free: "reject_static_get_collision default_settings (registered_of (app_routes default_settings))
      (rw_prefix shadowed_write) (rw_path shadowed_write) = Inr ()"
    by code_simp
  from dynamic_route_dispatch [OF st ok free, of demo_codec 1 "''SELECT 1''" 2] free st
  show ?thesis by (simp add: shadowed_write_def)
qed

end
