(* ===== verification/Application.thy ===== *)
theory Application
  imports Routing
begin

text \<open>
  The application around the routes: the engines (\<open>infrastructure/database/engine.py\<close> and the two
  session modules), the shared objects of \<open>dependencies/services.py\<close>, start-up and shutdown
  (\<open>lifespan\<close> in \<open>app/main.py\<close>) and the layers a response passes (\<open>create_app\<close>,
  \<open>app/middlewares\<close>). Times are in milliseconds.
\<close>

section \<open>Engines\<close>

record pg_engine =
  pg_url :: string
  pg_pool_size :: nat
  pg_max_overflow :: nat
  pg_pool_timeout_ms :: int
  pg_pool_recycle :: nat
  pg_connect_timeout_ms :: int
  pg_command_timeout_ms :: int
  pg_statement_timeout :: string

definition create_postgres_async_engine ::
  "string \<Rightarrow> nat \<Rightarrow> nat \<Rightarrow> int \<Rightarrow> nat \<Rightarrow> int \<Rightarrow> int \<Rightarrow> pg_engine" where
  "create_postgres_async_engine url pool overflow pool_timeout recycle connect_timeout statement_timeout =
     \<lparr>pg_url = url, pg_pool_size = pool, pg_max_overflow = overflow, pg_pool_timeout_ms = pool_timeout,
      pg_pool_recycle = recycle, pg_connect_timeout_ms = connect_timeout,
      pg_command_timeout_ms = statement_timeout,
      pg_statement_timeout = str_of_int (max 1 statement_timeout)\<rparr>"

definition app_engine :: "settings \<Rightarrow> pg_engine" where
  "app_engine st = create_postgres_async_engine (database_url st) 10 20 30000 1800 10000 60000"

definition pii_engine :: "settings \<Rightarrow> pg_engine" where
  "pii_engine st = create_postgres_async_engine (pii_database_url st) 5 10 30000 1800 10000 60000"

definition health_check :: "string dbp" where
  "health_check = with_session (seq (select (\<lambda>_. ())) (\<lambda>_. ret ''ok''))"

section \<open>Shared objects\<close>

text \<open>The module variables \<open>_account_map_in_memory\<close> and \<open>_trino_client\<close>.\<close>

record providers =
  the_cache :: "account_map option"
  the_trino :: "client option"

definition get_account_map_in_memory :: "providers \<Rightarrow> account_map \<times> providers" where
  "get_account_map_in_memory p =
     (case the_cache p of
        Some c \<Rightarrow> (c, p)
      | None \<Rightarrow> (new_account_map, p\<lparr>the_cache := Some new_account_map\<rparr>))"

definition get_trino_client :: "providers \<Rightarrow> client \<times> providers" where
  "get_trino_client p =
     (case the_trino p of
        Some c \<Rightarrow> (c, p)
      | None \<Rightarrow> (new_client, p\<lparr>the_trino := Some new_client\<rparr>))"

text \<open>Closing also gives back the client that was closed.\<close>

definition close_trino_client :: "providers \<Rightarrow> client option \<times> providers" where
  "close_trino_client p =
     (case the_trino p of
        None \<Rightarrow> (None, p)
      | Some c \<Rightarrow> (let (eo, c') = take_engine c in (Some (dispose eo c'), p\<lparr>the_trino := None\<rparr>)))"

section \<open>Start-up and shutdown\<close>

text \<open>
  While the application serves, intervals of the background loop pass and requests use the
  Trino client; a request is what it did to the client.
\<close>

datatype event = Synced "exn + (instant \<Rightarrow> source)" | Queried "client \<Rightarrow> client"

definition sync_ticks :: "event list \<Rightarrow> tick list" where
  "sync_ticks es = concat (map (\<lambda>e. case e of Synced s \<Rightarrow> [Interval s] | Queried f \<Rightarrow> []) es)"

definition use_trino :: "(client \<Rightarrow> client) \<Rightarrow> providers \<Rightarrow> providers" where
  "use_trino f p = (case get_trino_client p of (c, p') \<Rightarrow> p'\<lparr>the_trino := Some (f c)\<rparr>)"

definition serve :: "event list \<Rightarrow> providers \<Rightarrow> providers" where
  "serve es = fold (\<lambda>e. case e of Synced s \<Rightarrow> id | Queried f \<Rightarrow> use_trino f) es"

text \<open>
  A failing initialisation ends the start-up: nothing is served and the client is not closed.
  Otherwise the loop runs until the stop event, which fires after the last event, and then the
  client is closed. \<open>None\<close> means that a load never ends.
\<close>

datatype outcome = Aborted exn | Served nat nat account_map "client option"

definition lifespan ::
  "settings \<Rightarrow> attempts \<Rightarrow> event list \<Rightarrow> providers \<Rightarrow> (outcome \<times> providers) option" where
  "lifespan st session es p =
     (case get_account_map_in_memory p of (cache, p1) \<Rightarrow>
      case initialize_account_map_in_memory session (pii_mapping_snapshot_batch_size st)
             (nat (pii_sync_init_max_retries st)) cache of
        None \<Rightarrow> None
      | Some (Inl e, c, _) \<Rightarrow> Some (Aborted e, p1\<lparr>the_cache := Some c\<rparr>)
      | Some (Inr (loaded, cached), c, _) \<Rightarrow>
          (case run_pii_cache_sync_loop (nat (pii_mapping_snapshot_batch_size st)) (sync_ticks es @ [StopFired]) c of
             None \<Rightarrow> None
           | Some c' \<Rightarrow>
               (case close_trino_client (serve es (p1\<lparr>the_cache := Some c'\<rparr>)) of
                  (closed, p2) \<Rightarrow> Some (Served loaded cached c closed, p2))))"

section \<open>Responses\<close>

text \<open>
  A request has its header names in lower case, as ASGI passes them. The body of a reply is what
  the endpoint made, an error, the traceback of the debug mode, or the text of a CORS answer.
\<close>

record asgi_scope =
  sc_method :: string
  sc_path :: string
  sc_headers :: "(string, string) dict"

datatype reply_body = Endpoint_Body | Error_Body error_body | Traceback_Body exn | Cors_Text

record reply =
  rep_status :: nat
  rep_headers :: "(string, string) dict"
  rep_body :: reply_body

definition error_reply :: "error_body \<Rightarrow> reply" where
  "error_reply b = \<lparr>rep_status = rsp_status b, rep_headers = [], rep_body = Error_Body b\<rparr>"

definition plain_reply :: "nat \<Rightarrow> reply" where
  "plain_reply sc = \<lparr>rep_status = sc, rep_headers = [], rep_body = Endpoint_Body\<rparr>"

text \<open>
  Starlette keeps the handler for \<open>Exception\<close> in its outermost layer; the other handlers run in
  the innermost one, around the routes. A handler that raises leaves that layer.
\<close>

definition exception_layer :: "string \<Rightarrow> exn + nat \<Rightarrow> exn + reply" where
  "exception_layer rid r =
     (case r of
        Inl e \<Rightarrow> map_sum id error_reply (run_handler (Some rid) e)
      | Inr sc \<Rightarrow> Inr (plain_reply sc))"

definition X_REQUEST_ID :: string where
  "X_REQUEST_ID = ''X-Request-ID''"

text \<open>\<open>fresh\<close> is the \<open>uuid4()\<close> that is drawn when the request has no such header.\<close>

definition request_id :: "asgi_scope \<Rightarrow> string \<Rightarrow> string" where
  "request_id q fresh = (case dget (sc_headers q) ''x-request-id'' of None \<Rightarrow> fresh | Some h \<Rightarrow> h)"

definition label :: "string \<Rightarrow> reply \<Rightarrow> reply" where
  "label rid x = x\<lparr>rep_headers := dput X_REQUEST_ID rid (rep_headers x)\<rparr>"

definition request_id_layer :: "string \<Rightarrow> exn + reply \<Rightarrow> exn + reply" where
  "request_id_layer rid r = map_sum id (label rid) r"

definition API_REQUEST_TIMEOUT_MS :: nat where
  "API_REQUEST_TIMEOUT_MS = 120000"

definition timeout_reply :: "string \<Rightarrow> reply" where
  "timeout_reply rid =
     error_reply (error_response (Some rid) 504 ''request_timeout'' ''Request timed out''
       [(''timeout_seconds'', PFloat (the (py_float_of_int 120)))])"

text \<open>
  A run takes some time or never ends. A \<open>TimeoutError\<close> that reaches this layer from inside is
  answered like its own.
\<close>

type_synonym 'a run = "(nat \<times> 'a) option"

definition timeout_layer :: "string list \<Rightarrow> nat \<Rightarrow> string \<Rightarrow> string \<Rightarrow> (exn + reply) run \<Rightarrow> (exn + reply) option" where
  "timeout_layer excluded limit path rid r =
     (if path \<in> set excluded then map_option snd r
      else case r of
        None \<Rightarrow> Some (Inr (timeout_reply rid))
      | Some (t, x) \<Rightarrow> Some (if t < limit \<and> x \<noteq> Inl TimeoutErr then x else Inr (timeout_reply rid)))"

text \<open>
  Starlette's CORS layer is the outermost one the program adds. A preflight, an \<open>OPTIONS\<close> request with
  the headers \<open>Origin\<close> and \<open>Access-Control-Request-Method\<close>, is answered by the layer itself; every
  other request passes, and the layer may add its own headers to the response. Both are parameters.
\<close>

record cors =
  cors_answer :: "asgi_scope \<Rightarrow> reply"
  cors_allow :: "asgi_scope \<Rightarrow> reply \<Rightarrow> reply"

definition is_preflight :: "asgi_scope \<Rightarrow> bool" where
  "is_preflight q =
     (sc_method q = ''OPTIONS'' \<and> dget (sc_headers q) ''origin'' \<noteq> None \<and>
      dget (sc_headers q) ''access-control-request-method'' \<noteq> None)"

definition cors_layer :: "cors \<Rightarrow> asgi_scope \<Rightarrow> (exn + reply) option \<Rightarrow> (exn + reply) option" where
  "cors_layer C q x =
     (if is_preflight q then Some (Inr (cors_answer C q)) else map_option (map_sum id (cors_allow C q)) x)"

text \<open>
  The outermost layer. With \<open>debug\<close> it answers with the traceback and does not call the handler
  the program registers.
\<close>

definition server_error_layer :: "bool \<Rightarrow> string \<Rightarrow> exn + reply \<Rightarrow> reply" where
  "server_error_layer dbg rid r =
     (case r of
        Inl e \<Rightarrow>
          if dbg then \<lparr>rep_status = 500, rep_headers = [], rep_body = Traceback_Body e\<rparr>
          else error_reply (handle_exception (Some rid) e)
      | Inr x \<Rightarrow> x)"

text \<open>\<open>create_app\<close> adds the request-id layer first, so the time-out layer is outside of it.\<close>

definition respond :: "bool \<Rightarrow> cors \<Rightarrow> asgi_scope \<Rightarrow> string \<Rightarrow> (exn + nat) run \<Rightarrow> reply option" where
  "respond dbg C q fresh r =
     (let rid = request_id q fresh in
      map_option (server_error_layer dbg rid)
        (cors_layer C q
          (timeout_layer [] API_REQUEST_TIMEOUT_MS (sc_path q) rid
            (map_option (map_prod id (request_id_layer rid \<circ> exception_layer rid)) r))))"

text \<open>The order the tests of the time-out layer build, without a CORS layer.\<close>

definition respond_as_tested :: "nat \<Rightarrow> asgi_scope \<Rightarrow> string \<Rightarrow> (exn + nat) run \<Rightarrow> reply option" where
  "respond_as_tested limit q fresh r =
     (let rid = request_id q fresh in
      map_option (server_error_layer False rid \<circ> request_id_layer rid)
        (timeout_layer [] limit (sc_path q) rid (map_option (map_prod id (exception_layer rid)) r)))"

section \<open>Facts about responses\<close>

text \<open>What the documentation of the CORS layer says of its answers.\<close>

definition cors_documented :: "cors \<Rightarrow> bool" where
  "cors_documented C \<longleftrightarrow>
     (\<forall>q. rep_status (cors_answer C q) \<in> {200, 400} \<and> rep_body (cors_answer C q) = Cors_Text \<and>
          dget (rep_headers (cors_answer C q)) X_REQUEST_ID = None) \<and>
     (\<forall>q x. rep_status (cors_allow C q x) = rep_status x \<and> rep_body (cors_allow C q x) = rep_body x \<and>
            dget (rep_headers (cors_allow C q x)) X_REQUEST_ID = dget (rep_headers x) X_REQUEST_ID)"

text \<open>The exceptions that are answered inside: those with a handler whose response can be written.\<close>

definition handled_inside :: "exn \<Rightarrow> bool" where
  "handled_inside e =
     (case e of
        AppErr a \<Rightarrow> json_finite (PDict (details a))
      | RequestValidationErr es \<Rightarrow> json_finite (PDict (validation_error_details es))
      | ModelValidationErr es \<Rightarrow> json_finite (PDict (validation_error_details es))
      | HttpErr sc \<Rightarrow> map_of http_phrases sc \<noteq> None
      | SqlaErr m \<Rightarrow> True | IntegrityErr \<Rightarrow> True
      | _ \<Rightarrow> False)"

definition in_time :: "(exn + nat) run \<Rightarrow> bool" where
  "in_time r = (case r of None \<Rightarrow> False | Some (t, x) \<Rightarrow> t < API_REQUEST_TIMEOUT_MS \<and> x \<noteq> Inl TimeoutErr)"

definition answered_inside :: "(exn + nat) run \<Rightarrow> bool" where
  "answered_inside r =
     (in_time r \<and> (case r of None \<Rightarrow> False | Some (t, x) \<Rightarrow> (case x of Inl e \<Rightarrow> handled_inside e | Inr sc \<Rightarrow> True)))"

definition answer_status :: "(exn + nat) run \<Rightarrow> nat" where
  "answer_status r =
     (if \<not> in_time r then 504
      else case r of None \<Rightarrow> 504
      | Some (t, x) \<Rightarrow>
          (case x of Inl e \<Rightarrow> if handled_inside e then rsp_status (handle_exception None e) else 500 | Inr sc \<Rightarrow> sc))"

lemma handle_exception_status: "rsp_status (handle_exception rid e) = rsp_status (handle_exception None e)"
  by (auto simp: handle_exception_def error_response_def internal_error_response_def split: exn.splits option.splits)

lemma timeout_not_handled [simp]: "\<not> handled_inside TimeoutErr" "run_handler rid TimeoutErr = Inl TimeoutErr"
  by (simp_all add: handled_inside_def run_handler_def)

text \<open>A handler answers, or what leaves it has no handler but that for \<open>Exception\<close>.\<close>

lemma run_handler_cases:
  "(handled_inside e \<and> run_handler rid e = Inr (handle_exception rid e)) \<or>
   (\<not> handled_inside e \<and> (\<exists>e'. run_handler rid e = Inl e' \<and> \<not> handled_inside e' \<and>
      handle_exception rid' e' = internal_error_response rid' \<and> (e' = TimeoutErr \<longleftrightarrow> e = TimeoutErr)))"
  by (cases e)
    (auto simp: run_handler_def render_def handled_inside_def handle_exception_def error_response_def
      internal_error_response_def split: option.splits)

lemma run_handler_inside: "handled_inside e \<Longrightarrow> run_handler rid e = Inr (handle_exception rid e)"
  using run_handler_cases [of e rid rid] by auto

lemma run_handler_outside:
  assumes "\<not> handled_inside e"
  obtains e' where "run_handler rid e = Inl e'" "handle_exception rid' e' = internal_error_response rid'"
    "e' = TimeoutErr \<longleftrightarrow> e = TimeoutErr"
  using run_handler_cases [of e rid rid'] assms by auto

lemma reply_simps [simp]:
  "rep_status (label rid x) = rep_status x" "rep_body (label rid x) = rep_body x"
  "dget (rep_headers (label rid x)) X_REQUEST_ID = Some rid"
  "rep_status (error_reply b) = rsp_status b" "rep_headers (error_reply b) = []" "rep_body (error_reply b) = Error_Body b"
  "rep_status (plain_reply sc) = sc" "rep_headers (plain_reply sc) = []" "rep_body (plain_reply sc) = Endpoint_Body"
  "rep_status (timeout_reply rid) = 504" "rep_headers (timeout_reply rid) = []"
  by (simp_all add: label_def error_reply_def plain_reply_def timeout_reply_def error_response_def)

lemma timeout_reply_body:
  "rep_body (timeout_reply rid) = Error_Body b \<Longrightarrow> rsp_request_id b = Some rid \<and> rsp_status b = 504"
  "\<exists>b. rep_body (timeout_reply rid) = Error_Body b"
  by (auto simp: timeout_reply_def error_response_def)

lemma exception_layer_timeout [simp]: "exception_layer rid x = Inl TimeoutErr \<longleftrightarrow> x = Inl TimeoutErr"
proof (cases x)
  case (Inl e)
  then show ?thesis
    using run_handler_cases [of e "Some rid" None] by (auto simp: exception_layer_def)
qed (simp add: exception_layer_def)

lemmas layer_defs = timeout_layer_def in_time_def Let_def request_id_layer_def server_error_layer_def

text \<open>The layers inside the CORS layer and outside the routes in one equation.\<close>

definition inner_reply :: "string \<Rightarrow> (exn + nat) run \<Rightarrow> exn + reply" where
  "inner_reply rid r =
     (if \<not> in_time r then Inr (timeout_reply rid)
      else case r of None \<Rightarrow> Inr (timeout_reply rid)
      | Some (t, x) \<Rightarrow> request_id_layer rid (exception_layer rid x))"

lemma request_id_layer_timeout [simp]: "request_id_layer rid x = Inl TimeoutErr \<longleftrightarrow> x = Inl TimeoutErr"
  by (cases x) (simp_all add: request_id_layer_def)

lemma server_error_layer_reply [simp]: "server_error_layer dbg rid (Inr x) = x"
  by (simp add: server_error_layer_def)

lemma timeout_layer_inner:
  "timeout_layer [] API_REQUEST_TIMEOUT_MS path rid
     (map_option (map_prod id (request_id_layer rid \<circ> exception_layer rid)) r) = Some (inner_reply rid r)"
proof (cases r)
  case (Some p)
  obtain t x where r: "r = Some (t, x)" using Some by (cases p) auto
  show ?thesis by (simp add: r timeout_layer_def inner_reply_def in_time_def)
qed (simp add: timeout_layer_def inner_reply_def in_time_def)

lemma respond_eq:
  "respond dbg C q fresh r = Some
     (if is_preflight q then cors_answer C q
      else server_error_layer dbg (request_id q fresh)
             (map_sum id (cors_allow C q) (inner_reply (request_id q fresh) r)))"
  by (simp add: respond_def Let_def timeout_layer_inner cors_layer_def server_error_layer_def)

text \<open>What the inner layers give, by how the run ended.\<close>

lemma inner_reply_late: "\<not> in_time r \<Longrightarrow> inner_reply rid r = Inr (timeout_reply rid)"
  by (simp add: inner_reply_def)

lemma inner_reply_inside:
  assumes "answered_inside r"
  shows "\<exists>x. inner_reply rid r = Inr (label rid x) \<and> rep_status x = answer_status r \<and>
    (rep_body x = Endpoint_Body \<or>
     (\<exists>b. rep_body x = Error_Body b \<and> rsp_request_id b = Some rid \<and> rsp_status b = rep_status x))"
proof -
  obtain t x where r: "r = Some (t, x)" "in_time r" using assms
    by (auto simp: answered_inside_def split: option.splits)
  show ?thesis
  proof (cases x)
    case (Inl e)
    then have "handled_inside e" using assms r by (simp add: answered_inside_def)
    then show ?thesis
      using Inl r handle_exception_status [of "Some rid" e]
      by (auto simp: inner_reply_def answer_status_def exception_layer_def run_handler_inside request_id_layer_def)
  next
    case (Inr sc)
    then show ?thesis using r
      by (auto simp: inner_reply_def answer_status_def exception_layer_def request_id_layer_def)
  qed
qed

lemma inner_reply_unexpected:
  assumes "in_time r" "\<not> answered_inside r"
  shows "\<exists>e. inner_reply rid r = Inl e \<and> handle_exception rid' e = internal_error_response rid' \<and> answer_status r = 500"
proof -
  obtain t e where r: "r = Some (t, Inl e)" "\<not> handled_inside e"
    using assms by (auto simp: answered_inside_def in_time_def split: option.splits sum.splits)
  obtain e' where "run_handler (Some rid) e = Inl e'" "handle_exception rid' e' = internal_error_response rid'"
    using run_handler_outside [OF r(2), of "Some rid" rid'] by metis
  then show ?thesis using assms(1) r
    by (simp add: inner_reply_def exception_layer_def request_id_layer_def answer_status_def)
qed

lemma respond_as_tested_exact:
  "case respond_as_tested API_REQUEST_TIMEOUT_MS q fresh r of
      None \<Rightarrow> False
    | Some rep \<Rightarrow>
        rep_status rep = answer_status r \<and>
        dget (rep_headers rep) X_REQUEST_ID =
          (if answered_inside r then Some (request_id q fresh)
           else if in_time r then None else Some (request_id q fresh))"
proof (cases "in_time r")
  case True
  then obtain t x where r: "r = Some (t, x)" by (auto simp: in_time_def split: option.splits)
  show ?thesis
  proof (cases x)
    case (Inl e)
    show ?thesis
    proof (cases "handled_inside e")
      case True
      then show ?thesis using \<open>in_time r\<close> r Inl
        by (simp add: respond_as_tested_def layer_defs exception_layer_def answered_inside_def answer_status_def
            run_handler_inside handle_exception_status [of "Some (request_id q fresh)"])
    next
      case False
      obtain e' where "run_handler (Some (request_id q fresh)) e = Inl e'" "e' = TimeoutErr \<longleftrightarrow> e = TimeoutErr"
        "handle_exception (Some (request_id q fresh)) e' = internal_error_response (Some (request_id q fresh))"
        using run_handler_outside [OF False] by metis
      with False \<open>in_time r\<close> r Inl show ?thesis
        by (simp add: respond_as_tested_def layer_defs exception_layer_def answered_inside_def answer_status_def
            internal_error_response_def error_response_def)
    qed
  qed (use True r in \<open>simp add: respond_as_tested_def layer_defs exception_layer_def answered_inside_def answer_status_def\<close>)
next
  case False
  then have "timeout_layer [] API_REQUEST_TIMEOUT_MS (sc_path q) (request_id q fresh)
      (map_option (map_prod id (exception_layer (request_id q fresh))) r) = Some (Inr (timeout_reply (request_id q fresh)))"
    by (cases r) (auto simp: timeout_layer_def in_time_def split: if_splits)
  with False show ?thesis
    by (simp add: respond_as_tested_def Let_def request_id_layer_def server_error_layer_def answered_inside_def
        answer_status_def)
qed

section \<open>Facts about start-up and shutdown\<close>

text \<open>What a round of the loop finds in practice: a table, a table whose connection breaks, or no session.\<close>

definition table_round :: "exn + (instant \<Rightarrow> source) \<Rightarrow> bool" where
  "table_round s \<longleftrightarrow>
     (\<exists>T. s = Inr (\<lambda>t. table_source T (Some t))) \<or> (\<exists>j e T. s = Inr (\<lambda>t. failing_source j e T (Some t))) \<or>
     (\<exists>e. s = Inl e)"

lemma table_round_returns:
  assumes "0 < n" "table_round s"
  shows "\<exists>c'. sync_round s n c = Some c'"
proof (cases "last_synced_at c")
  case None
  then show ?thesis by (cases s) (simp_all add: load_pii_mapping_incremental_def)
next
  case (Some t)
  with assms sync_round_table [OF assms(1) Some] sync_round_failing [OF assms(1) Some] show ?thesis
    unfolding table_round_def by fastforce
qed

definition rounds_ok :: "event list \<Rightarrow> bool" where
  "rounds_ok es = list_all (\<lambda>e. case e of Synced s \<Rightarrow> table_round s | Queried f \<Rightarrow> True) es"

lemma loop_returns:
  assumes "0 < n" "rounds_ok es"
  shows "\<exists>c'. run_pii_cache_sync_loop n (sync_ticks es @ [StopFired]) c = Some c'"
  using assms(2)
proof (induction es arbitrary: c)
  case (Cons e es)
  show ?case
  proof (cases e)
    case (Synced s)
    with table_round_returns [OF assms(1)] Cons.prems obtain c' where "sync_round s n c = Some c'"
      by (fastforce simp: rounds_ok_def)
    with Cons Synced show ?thesis by (simp add: sync_ticks_def rounds_ok_def)
  qed (use Cons in \<open>simp add: sync_ticks_def rounds_ok_def\<close>)
qed (simp add: sync_ticks_def)

lemma close_trino_closed:
  assumes "close_trino_client p = (closed, p')"
  shows "the_trino p' = None" "the_cache p' = the_cache p"
    "closed = map_option (\<lambda>c. dispose (slot c) (c\<lparr>slot := None\<rparr>)) (the_trino p)"
  using assms by (auto simp: close_trino_client_def take_engine_def Let_def split: option.splits prod.splits)

lemma serve_cache: "the_cache (serve es p) = the_cache p"
proof (induction es arbitrary: p)
  case (Cons e es)
  have "the_cache (use_trino f q) = the_cache q" for f q
    by (simp add: use_trino_def get_trino_client_def split: option.splits)
  with Cons show ?case by (cases e) (simp_all add: serve_def)
qed (simp add: serve_def)

lemma dispose_slot [simp]: "slot (dispose eo c) = slot c"
  by (simp add: dispose_def split: option.splits)

lemma dispose_disposed: "e \<in> disposed (dispose (Some e) c)"
  by (simp add: dispose_def)

text \<open>The first attempt that works decides.\<close>

lemma initialize_works:
  assumes "table_ok T" "0 < b"
    and "\<And>i c. session i = Inr (table_source T None) \<or> (\<exists>e c'. try_init (session i) b c = Some (Inl e, c'))"
    and "\<exists>j. 1 \<le> j \<and> j \<le> m \<and> session j = Inr (table_source T None)"
  shows "\<exists>k. initialize_account_map_in_memory session b m c =
     Some (Inr (length T, length T), add_records (table_records T None) new_account_map, k)"
proof -
  let ?ok = "\<lambda>j. 1 \<le> j \<and> j \<le> m \<and> session j = Inr (table_source T None)"
  define j where "j = (LEAST j. ?ok j)"
  have j: "?ok j" using LeastI_ex [OF assms(4)] by (simp add: j_def)
  have "\<exists>e c'. try_init (session i) b d = Some (Inl e, c')" if "1 \<le> i" "i < j" for i d
  proof -
    have "\<not> ?ok i" using not_less_Least [of i ?ok] that(2) by (simp add: j_def)
    then have "session i \<noteq> Inr (table_source T None)" using that j by simp
    then show ?thesis using assms(3) [of i d] by blast
  qed
  with initialize_recovers [OF assms(1,2), of j m session c] j show ?thesis by blast
qed

lemma lifespan_served:
  assumes "0 < n" "n = nat b" "b = pii_mapping_snapshot_batch_size st" "rounds_ok es"
    and "initialize_account_map_in_memory session b (nat (pii_sync_init_max_retries st))
           (fst (get_account_map_in_memory p)) = Some (Inr (loaded, cached), c, k)"
  shows "\<exists>closed p'. lifespan st session es p = Some (Served loaded cached c closed, p') \<and> the_trino p' = None \<and>
     run_pii_cache_sync_loop n (sync_ticks es @ [StopFired]) c = the_cache p' \<and>
     (case closed of None \<Rightarrow> True | Some q \<Rightarrow> slot q = None)"
proof -
  obtain cache p1 where p1: "get_account_map_in_memory p = (cache, p1)" by force
  obtain c' where loop: "run_pii_cache_sync_loop n (sync_ticks es @ [StopFired]) c = Some c'"
    using loop_returns [OF assms(1,4)] by blast
  obtain closed p' where close: "close_trino_client (serve es (p1\<lparr>the_cache := Some c'\<rparr>)) = (closed, p')" by force
  have "lifespan st session es p = Some (Served loaded cached c closed, p')"
    using assms(2,3,5) p1 loop close by (simp add: lifespan_def)
  moreover have "the_cache p' = Some c'" using close_trino_closed(2) [OF close] by (simp add: serve_cache)
  ultimately show ?thesis using close_trino_closed(1,3) [OF close] loop by (auto split: option.splits)
qed

section \<open>Properties\<close>

text \<open>C22: start-up, service and shutdown. When each attempt to load the PII table either works or fails
  with an exception, the application serves exactly if one of the configured attempts works; it
  then starts with exactly the table in the cache, ends with what the rounds of the background
  loop made of it, always comes to an end after the stop event, and gives up the Trino client with no
  engine left in use. Otherwise start-up ends with a \<open>RuntimeError\<close> that names the number of
  attempts, and the Trino client is not touched.\<close>

theorem lifespan_exact:
  assumes "settings_valid st" "table_ok T" "rounds_ok es"
    and "\<And>i c. session i = Inr (table_source T None) \<or>
           (\<exists>e c'. try_init (session i) (pii_mapping_snapshot_batch_size st) c = Some (Inl e, c'))"
  shows "if \<exists>j. 1 \<le> j \<and> j \<le> nat (pii_sync_init_max_retries st) \<and> session j = Inr (table_source T None)
    then \<exists>c closed p'. lifespan st session es p = Some (Served (length T) (length T) c closed, p') \<and>
       (\<forall>t. value_of c t = map_option mapped_value (table_map T t)) \<and>
       run_pii_cache_sync_loop (nat (pii_mapping_snapshot_batch_size st)) (sync_ticks es @ [StopFired]) c = the_cache p' \<and>
       the_trino p' = None \<and> (case closed of None \<Rightarrow> True | Some q \<Rightarrow> slot q = None)
    else \<exists>p'. lifespan st session es p =
         Some (Aborted (RuntimeErr (init_failed_message (nat (pii_sync_init_max_retries st)))), p') \<and>
       the_trino p' = the_trino p"
proof -
  obtain cache p1 where p1: "get_account_map_in_memory p = (cache, p1)" by force
  have pos: "0 < pii_mapping_snapshot_batch_size st" "0 < nat (pii_mapping_snapshot_batch_size st)"
    using assms(1) by (simp_all add: settings_valid_def)
  show ?thesis
  proof (cases "\<exists>j. 1 \<le> j \<and> j \<le> nat (pii_sync_init_max_retries st) \<and> session j = Inr (table_source T None)")
    case True
    let ?c = "add_records (table_records T None) new_account_map"
    obtain k where start: "initialize_account_map_in_memory session (pii_mapping_snapshot_batch_size st)
        (nat (pii_sync_init_max_retries st)) (fst (get_account_map_in_memory p)) = Some (Inr (length T, length T), ?c, k)"
      using initialize_works [OF assms(2) pos(1) assms(4) True, of cache] p1 by auto
    have "\<forall>t. value_of ?c t = map_option mapped_value (table_map T t)" using value_of_snapshot [OF assms(2)] by simp
    with lifespan_served [OF pos(2) refl refl assms(3) start] show ?thesis unfolding if_P [OF True] by blast
  next
    case False
    then have "\<exists>c' k. initialize_account_map_in_memory session (pii_mapping_snapshot_batch_size st)
        (nat (pii_sync_init_max_retries st)) cache =
        Some (Inl (RuntimeErr (init_failed_message (nat (pii_sync_init_max_retries st)))), c', k)"
      using initialize_gives_up [of "nat (pii_sync_init_max_retries st)" session "pii_mapping_snapshot_batch_size st" cache]
        assms(4) by blast
    then obtain c' where "lifespan st session es p =
        Some (Aborted (RuntimeErr (init_failed_message (nat (pii_sync_init_max_retries st)))), p1\<lparr>the_cache := Some c'\<rparr>)"
      using p1 by (auto simp: lifespan_def)
    moreover have "the_trino p1 = the_trino p"
      using p1 by (auto simp: get_account_map_in_memory_def split: option.splits)
    ultimately show ?thesis unfolding if_not_P [OF False] by simp
  qed
qed

definition demo_attempts :: attempts where
  "demo_attempts i = (if i = 2 then Inr (table_source demo_table None) else Inl TimeoutErr)"

theorem lifespan_exact_witness:
  "\<exists>c closed p'. lifespan default_settings demo_attempts [Queried (\<lambda>q. snd (get_engine q)), Synced (Inl TimeoutErr)]
       \<lparr>the_cache = None, the_trino = None\<rparr> = Some (Served 3 3 c closed, p') \<and>
     value_of c ''tok-a'' = Some ''uuid-1'' \<and> the_trino p' = None"
proof -
  have sessions: "demo_attempts i = Inr (table_source demo_table None) \<or>
      (\<exists>e c'. try_init (demo_attempts i) (pii_mapping_snapshot_batch_size default_settings) c = Some (Inl e, c'))" for i c
    by (simp add: demo_attempts_def try_init_def)
  have rounds: "rounds_ok [Queried (\<lambda>q. snd (get_engine q)), Synced (Inl TimeoutErr)]"
    by (simp add: rounds_ok_def table_round_def)
  have "1 \<le> (2::nat) \<and> 2 \<le> nat (pii_sync_init_max_retries default_settings) \<and> demo_attempts 2 = Inr (table_source demo_table None)"
    by (simp add: demo_attempts_def default_settings_def)
  then have works: "\<exists>j. 1 \<le> j \<and> j \<le> nat (pii_sync_init_max_retries default_settings) \<and>
      demo_attempts j = Inr (table_source demo_table None)" by blast
  have len: "length demo_table = 3" by (simp add: demo_table_def)
  have val: "map_option mapped_value (table_map demo_table ''tok-a'') = Some ''uuid-1''"
    by (simp add: table_map_def demo_table_def record_of_row_def)
  note run = lifespan_exact [where p = "\<lparr>the_cache = None, the_trino = None\<rparr>" and session = demo_attempts
        and es = "[Queried (\<lambda>q. snd (get_engine q)), Synced (Inl TimeoutErr)]",
      OF default_settings_valid demo_table_ok(1) rounds sessions, unfolded if_P [OF works] len]
  then obtain c closed p' where served: "lifespan default_settings demo_attempts
        [Queried (\<lambda>q. snd (get_engine q)), Synced (Inl TimeoutErr)] \<lparr>the_cache = None, the_trino = None\<rparr> =
        Some (Served 3 3 c closed, p')"
    and cache: "\<forall>t. value_of c t = map_option mapped_value (table_map demo_table t)" and closed: "the_trino p' = None"
    by (elim exE conjE)
  from cache val have "value_of c ''tok-a'' = Some ''uuid-1''" by simp
  with served closed show ?thesis by (intro exI conjI)
qed

text \<open>A rejected body that holds NaN or an infinite number is answered with 500 instead of 422.\<close>

lemma non_finite_input_escapes:
  assumes "i \<in> set es" "vi_input i = Some v" "\<not> json_finite v" "t < API_REQUEST_TIMEOUT_MS"
  shows "answer_status (Some (t, Inl (RequestValidationErr es))) = 500"
proof -
  have "\<not> json_finite (PDict (format_validation_error i))"
    using assms(2,3) by (simp add: format_validation_error_def Let_def)
  with assms(1) have "\<not> json_finite (PDict (validation_error_details es))"
    by (auto simp: validation_error_details_def list_all_iff)
  then show ?thesis
    using assms(4) by (simp add: answer_status_def in_time_def handled_inside_def)
qed

text \<open>C36: every request is answered. A CORS preflight gets the answer of the CORS layer, without the
  header of the request id. Every other request gets the status the endpoint or the handler of its
  exception gives; 504 when it takes 120 seconds or longer or a \<open>TimeoutError\<close> escapes it; 500 when
  its exception has no handler but that for \<open>Exception\<close>, or the handler cannot write its response. The header with
  the request id is set exactly on the responses made inside the request-id layer: a timed-out
  request and an unexpected error are answered without it. Every JSON error carries the request id in its body.
  In the debug mode, and only there, an unexpected error is answered with a traceback instead,
  which has no request id. With the layers in the order the tests build, the time-out response has the header.\<close>

theorem request_id_header_exact:
  assumes "cors_documented C"
  shows "(case respond dbg C q fresh r of
      None \<Rightarrow> False
    | Some rep \<Rightarrow>
        if is_preflight q
        then rep = cors_answer C q \<and> dget (rep_headers rep) X_REQUEST_ID = None
        else rep_status rep = answer_status r \<and>
          dget (rep_headers rep) X_REQUEST_ID = (if answered_inside r then Some (request_id q fresh) else None) \<and>
          (case rep_body rep of
             Endpoint_Body \<Rightarrow> answered_inside r
           | Error_Body b \<Rightarrow>
               rsp_request_id b = Some (request_id q fresh) \<and> rsp_status b = rep_status rep \<and>
               \<not> (dbg \<and> in_time r \<and> \<not> answered_inside r)
           | Traceback_Body e \<Rightarrow> dbg \<and> in_time r \<and> \<not> answered_inside r
           | Cors_Text \<Rightarrow> False)) \<and>
   (case respond_as_tested API_REQUEST_TIMEOUT_MS q fresh r of
      None \<Rightarrow> False
    | Some rep \<Rightarrow>
        rep_status rep = answer_status r \<and>
        dget (rep_headers rep) X_REQUEST_ID =
          (if answered_inside r then Some (request_id q fresh)
           else if in_time r then None else Some (request_id q fresh)))"
proof
  let ?rid = "request_id q fresh"
  consider (late) "\<not> in_time r" "\<not> answered_inside r" | (inside) "answered_inside r" "in_time r"
    | (unexpected) "in_time r" "\<not> answered_inside r" by (auto simp: answered_inside_def)
  note by_end = this
  show "case respond dbg C q fresh r of
      None \<Rightarrow> False
    | Some rep \<Rightarrow>
        if is_preflight q
        then rep = cors_answer C q \<and> dget (rep_headers rep) X_REQUEST_ID = None
        else rep_status rep = answer_status r \<and>
          dget (rep_headers rep) X_REQUEST_ID = (if answered_inside r then Some ?rid else None) \<and>
          (case rep_body rep of
             Endpoint_Body \<Rightarrow> answered_inside r
           | Error_Body b \<Rightarrow>
               rsp_request_id b = Some ?rid \<and> rsp_status b = rep_status rep \<and>
               \<not> (dbg \<and> in_time r \<and> \<not> answered_inside r)
           | Traceback_Body e \<Rightarrow> dbg \<and> in_time r \<and> \<not> answered_inside r
           | Cors_Text \<Rightarrow> False)"
    using assms
  proof (cases rule: by_end)
    case late
    then show ?thesis using assms timeout_reply_body [of ?rid]
      by (auto simp: respond_eq inner_reply_late server_error_layer_def cors_documented_def answer_status_def
          split: reply_body.splits)
  next
    case inside
    obtain x where "inner_reply ?rid r = Inr (label ?rid x)" "rep_status x = answer_status r"
      "rep_body x = Endpoint_Body \<or>
        (\<exists>b. rep_body x = Error_Body b \<and> rsp_request_id b = Some ?rid \<and> rsp_status b = rep_status x)"
      using inner_reply_inside [OF inside(1), of ?rid] by blast
    with inside assms show ?thesis
      by (auto simp: respond_eq server_error_layer_def cors_documented_def)
  next
    case unexpected
    obtain e where "inner_reply ?rid r = Inl e" "handle_exception (Some ?rid) e = internal_error_response (Some ?rid)"
      "answer_status r = 500"
      using inner_reply_unexpected [OF unexpected, of ?rid "Some ?rid"] by blast
    with unexpected assms show ?thesis
      by (simp add: respond_eq server_error_layer_def cors_documented_def internal_error_response_def error_response_def)
  qed
next
  show "case respond_as_tested API_REQUEST_TIMEOUT_MS q fresh r of
      None \<Rightarrow> False
    | Some rep \<Rightarrow>
        rep_status rep = answer_status r \<and>
        dget (rep_headers rep) X_REQUEST_ID =
          (if answered_inside r then Some (request_id q fresh)
           else if in_time r then None else Some (request_id q fresh))"
    by (rule respond_as_tested_exact)
qed

definition demo_cors :: cors where
  "demo_cors =
     \<lparr>cors_answer = (\<lambda>q. \<lparr>rep_status = 200, rep_headers = [(''access-control-allow-methods'', ''GET'')], rep_body = Cors_Text\<rparr>),
      cors_allow = (\<lambda>q x. if dget (sc_headers q) ''origin'' = None then x
                         else x\<lparr>rep_headers := dput ''access-control-allow-credentials'' ''true'' (rep_headers x)\<rparr>)\<rparr>"

lemma demo_cors_documented: "cors_documented demo_cors"
  by (simp add: cors_documented_def demo_cors_def X_REQUEST_ID_def)

definition demo_scope :: asgi_scope where
  "demo_scope =
     \<lparr>sc_method = ''GET'', sc_path = ''/api/v1/data/users'', sc_headers = [(''x-request-id'', ''req-1''), (''origin'', ''https://a.b'')]\<rparr>"

theorem request_id_header_exact_witness:
  "map_option rep_status (respond True demo_cors demo_scope ''id-2'' (Some (5, Inl OverflowErr))) = Some 500 \<and>
   (case respond True demo_cors demo_scope ''id-2'' (Some (5, Inl OverflowErr)) of
      None \<Rightarrow> False
    | Some rep \<Rightarrow> dget (rep_headers rep) X_REQUEST_ID = None \<and>
        (case rep_body rep of Traceback_Body e \<Rightarrow> True | Error_Body b \<Rightarrow> rsp_request_id b = Some ''req-1'' | _ \<Rightarrow> False)) \<and>
   (case respond False demo_cors demo_scope ''id-2'' (Some (5, Inl (not_found_error ''User''))) of
      None \<Rightarrow> False
    | Some rep \<Rightarrow> rep_status rep = 404 \<and> dget (rep_headers rep) X_REQUEST_ID = Some ''req-1'')"
proof -
  have q: "\<not> is_preflight demo_scope" "request_id demo_scope ''id-2'' = ''req-1''"
    by (simp_all add: is_preflight_def demo_scope_def request_id_def)
  have runs: "answer_status (Some (5, Inl OverflowErr)) = 500" "\<not> answered_inside (Some (5, Inl OverflowErr))"
    "answer_status (Some (5, Inl (not_found_error ''User''))) = 404" "answered_inside (Some (5, Inl (not_found_error ''User'')))"
    by (simp_all add: answer_status_def answered_inside_def in_time_def API_REQUEST_TIMEOUT_MS_def handled_inside_def
        not_found_error_def handle_exception_def error_response_def)
  show ?thesis
    using request_id_header_exact [OF demo_cors_documented, where dbg = True and q = demo_scope and fresh = "''id-2''"
          and r = "Some (5, Inl OverflowErr)"]
      request_id_header_exact [OF demo_cors_documented, where dbg = False and q = demo_scope and fresh = "''id-2''"
          and r = "Some (5, Inl (not_found_error ''User''))"]
    by (auto simp: q runs split: option.splits reply_body.splits)
qed

end
