(* ===== verification/Logging.thy ===== *)
theory Logging
  imports Application
begin

text \<open>
  Logging (\<open>core/logging.py\<close>, \<open>middlewares/request_timing.py\<close>): the two formatters and the filter
  of the request id, the configuration of the loggers, and the records written while a request is
  answered. The loggers, handlers and \<open>json.dumps\<close> of the standard library are written out as far
  as the program uses them. What reads a log line back, \<open>json_loads\<close>, is a reader for the part of
  JSON the formatter writes.
\<close>

section \<open>JSON text\<close>

datatype json = JNull | JInt int | JStr string | JArr "json list" | JObj "(string \<times> json) list"

abbreviation quote_char :: char where
  "quote_char \<equiv> CHR 0x22"

abbreviation backslash :: char where
  "backslash \<equiv> CHR 0x5C"

text \<open>\<open>json.dumps\<close> with \<open>ensure_ascii=False\<close> and the separators \<open>(",", ":")\<close>.\<close>

definition json_escape :: "char \<Rightarrow> string" where
  "json_escape c =
     (if c = quote_char \<or> c = backslash then [backslash, c]
      else if ord c = 8 then [backslash, CHR ''b'']
      else if ord c = 9 then [backslash, CHR ''t'']
      else if ord c = 10 then [backslash, CHR ''n'']
      else if ord c = 12 then [backslash, CHR ''f'']
      else if ord c = 13 then [backslash, CHR ''r'']
      else if ord c < 32
      then [backslash, CHR ''u'', CHR ''0'', CHR ''0'', hex_digit (ord c div 16), hex_digit (ord c mod 16)]
      else [c])"

definition json_string :: "string \<Rightarrow> string" where
  "json_string s = [quote_char] @ concat (map json_escape s) @ [quote_char]"

fun json_dumps :: "json \<Rightarrow> string" where
  "json_dumps JNull = ''null''"
| "json_dumps (JInt i) = str_of_int i"
| "json_dumps (JStr s) = json_string s"
| "json_dumps (JArr vs) = ''['' @ py_join '','' (map json_dumps vs) @ '']''"
| "json_dumps (JObj kvs) =
     ''{'' @ py_join '','' (map (\<lambda>kv. json_string (fst kv) @ '':'' @ json_dumps (snd kv)) kvs) @ ''}''"

section \<open>Reading JSON text\<close>

definition hex_value :: "char \<Rightarrow> nat" where
  "hex_value c = (if is_ascii_digit c then ord c - 48 else ord c - 87)"

definition unescape :: "char \<Rightarrow> char" where
  "unescape d =
     (if d = CHR ''b'' then char_of (8 :: nat) else if d = CHR ''t'' then char_of (9 :: nat)
      else if d = CHR ''n'' then char_of (10 :: nat) else if d = CHR ''f'' then char_of (12 :: nat)
      else if d = CHR ''r'' then char_of (13 :: nat) else d)"

abbreviation read_map :: "('a \<Rightarrow> 'b) \<Rightarrow> ('a \<times> string) option \<Rightarrow> ('b \<times> string) option" where
  "read_map f \<equiv> map_option (apfst f)"

fun read_string :: "string \<Rightarrow> (string \<times> string) option" where
  "read_string [] = None"
| "read_string (c # cs) =
     (if c = quote_char then Some ([], cs)
      else if c = backslash
      then (case cs of
              [] \<Rightarrow> None
            | d # ds \<Rightarrow>
                if d = CHR ''u''
                then (case ds of
                        z # z' # a # b # r \<Rightarrow> read_map ((#) (char_of (16 * hex_value a + hex_value b))) (read_string r)
                      | _ \<Rightarrow> None)
                else read_map ((#) (unescape d)) (read_string ds))
      else read_map ((#) c) (read_string cs))"

definition read_nat :: "string \<Rightarrow> nat \<times> string" where
  "read_nat s = (decimal_value (takeWhile is_ascii_digit s), dropWhile is_ascii_digit s)"

text \<open>The fuel is a bound on the depth; the length of the text is always enough.\<close>

fun read_value :: "nat \<Rightarrow> string \<Rightarrow> (json \<times> string) option"
  and read_items :: "nat \<Rightarrow> string \<Rightarrow> (json list \<times> string) option"
  and read_members :: "nat \<Rightarrow> string \<Rightarrow> ((string \<times> json) list \<times> string) option" where
  "read_value 0 s = None"
| "read_value (Suc n) [] = None"
| "read_value (Suc n) (c # cs) =
     (if c = quote_char then read_map JStr (read_string cs)
      else if c = CHR ''[''
      then (if startswith cs '']'' then Some (JArr [], tl cs) else read_map JArr (read_items n cs))
      else if c = CHR ''{''
      then (if startswith cs ''}'' then Some (JObj [], tl cs) else read_map JObj (read_members n cs))
      else if startswith (c # cs) ''null'' then Some (JNull, drop 3 cs)
      else if c = CHR ''-'' then Some (apfst (\<lambda>k. JInt (- int k)) (read_nat cs))
      else if is_ascii_digit c then Some (apfst (\<lambda>k. JInt (int k)) (read_nat (c # cs)))
      else None)"
| "read_items 0 s = None"
| "read_items (Suc n) s =
     (case read_value n s of
        Some (v, c # r) \<Rightarrow>
          if c = CHR '','' then read_map ((#) v) (read_items n r)
          else if c = CHR '']'' then Some ([v], r) else None
      | _ \<Rightarrow> None)"
| "read_members 0 s = None"
| "read_members (Suc n) s =
     (if startswith s [quote_char]
      then (case read_string (tl s) of
              Some (k, d # s') \<Rightarrow>
                if d = CHR '':''
                then (case read_value n s' of
                        Some (v, c # r) \<Rightarrow>
                          if c = CHR '','' then read_map ((#) (k, v)) (read_members n r)
                          else if c = CHR ''}'' then Some ([(k, v)], r) else None
                      | _ \<Rightarrow> None)
                else None
            | _ \<Rightarrow> None)
      else None)"

definition json_loads :: "string \<Rightarrow> json option" where
  "json_loads s =
     (case read_value (Suc (length s)) s of Some (v, r) \<Rightarrow> if r = [] then Some v else None | None \<Rightarrow> None)"

section \<open>Reading back what was written\<close>

lemma hex_value_digit: "d < 16 \<Longrightarrow> hex_value (hex_digit d) = d"
  by (auto simp: hex_value_def hex_digit_def is_ascii_digit_def)

lemma read_string_escape: "read_string (json_escape c @ s) = read_map ((#) c) (read_string s)"
proof -
  have ch: "char_of n = c" if "ord c = n" for n :: nat
    using that by auto
  show ?thesis
  proof (cases "c = quote_char \<or> c = backslash")
    case True
    then show ?thesis by (auto simp: json_escape_def unescape_def)
  next
    case False
    then show ?thesis
      by (auto simp: json_escape_def unescape_def hex_value_digit ch)
  qed
qed

lemma read_string_text:
  "read_string (concat (map json_escape s) @ quote_char # r) = Some (s, r)"
  by (induction s) (simp_all add: read_string_escape)

lemma json_string_read: "json_string s @ r = quote_char # concat (map json_escape s) @ quote_char # r"
  by (simp add: json_string_def)

definition ends_number :: "string \<Rightarrow> bool" where
  "ends_number r = (case r of [] \<Rightarrow> True | c # s \<Rightarrow> \<not> is_ascii_digit c)"

lemma read_nat_str: "ends_number r \<Longrightarrow> read_nat (str_of_nat n @ r) = (n, r)"
proof -
  assume r: "ends_number r"
  have d: "list_all is_ascii_digit (str_of_nat n)" by (simp add: str_of_nat_digits)
  have "takeWhile is_ascii_digit (str_of_nat n @ r) = str_of_nat n"
    and "dropWhile is_ascii_digit (str_of_nat n @ r) = r"
    using d r by (auto simp: ends_number_def list_all_iff takeWhile_append dropWhile_append split: list.splits)
  then show ?thesis by (simp add: read_nat_def)
qed

lemma str_of_nat_Cons:
  obtains c s where "str_of_nat n = c # s" "is_ascii_digit c"
  using str_of_nat_digits [of n] by (cases "str_of_nat n") auto

lemma read_value_number:
  assumes "ends_number r"
  shows "read_value (Suc m) (str_of_int i @ r) = Some (JInt i, r)"
proof -
  obtain c s where s: "str_of_nat (nat i) = c # s" "is_ascii_digit c" by (rule str_of_nat_Cons)
  have c: "c \<noteq> quote_char" "c \<noteq> CHR ''[''" "c \<noteq> CHR ''{''" "c \<noteq> CHR ''-''" "c \<noteq> CHR ''n''"
    using s(2) by (auto simp: is_ascii_digit_def)
  show ?thesis
  proof (cases "i < 0")
    case True
    then show ?thesis by (simp add: str_of_int_def read_nat_str [OF assms] startswith_def)
  next
    case False
    have "read_nat (c # s @ r) = (nat i, r)"
      using read_nat_str [OF assms, of "nat i"] by (simp add: s(1))
    with False s c show ?thesis by (simp add: str_of_int_def startswith_def)
  qed
qed

lemma json_dumps_head: "\<not> startswith (json_dumps v @ r) '']''"
proof (cases v)
  case (JInt i)
  obtain c s where s: "str_of_nat (nat i) = c # s" "is_ascii_digit c" by (rule str_of_nat_Cons)
  then have "c \<noteq> CHR '']''" by (auto simp: is_ascii_digit_def)
  with s JInt show ?thesis by (simp add: str_of_int_def startswith_def)
qed (simp_all add: startswith_def json_string_def)

lemma py_join_Cons: "py_join sep (w # ws) = w @ (if ws = [] then [] else sep @ py_join sep ws)"
  by (cases ws) simp_all

abbreviation dump_member :: "string \<times> json \<Rightarrow> string" where
  "dump_member kv \<equiv> json_string (fst kv) @ '':'' @ json_dumps (snd kv)"

lemma read_items_dumps:
  assumes "\<And>v n r. v \<in> set vs \<Longrightarrow> ends_number r \<Longrightarrow> length (json_dumps v) < n \<Longrightarrow>
             read_value n (json_dumps v @ r) = Some (v, r)"
    and "vs \<noteq> []" and "Suc (length (py_join '','' (map json_dumps vs))) < n"
  shows "read_items n (py_join '','' (map json_dumps vs) @ CHR '']'' # r) = Some (vs, r)"
  using assms
proof (induction vs arbitrary: n)
  case (Cons v vs)
  then obtain m where n: "n = Suc m" by (cases n) auto
  have v: "read_value m (json_dumps v @ c # r') = Some (v, c # r')" if "\<not> is_ascii_digit c" for c r'
    using Cons.prems(1) [of v "c # r'" m] Cons.prems(3) that n by (simp add: ends_number_def py_join_Cons)
  show ?case
  proof (cases "vs = []")
    case True
    then show ?thesis using v by (simp add: n is_ascii_digit_def)
  next
    case False
    have "read_items m (py_join '','' (map json_dumps vs) @ CHR '']'' # r) = Some (vs, r)"
      using Cons.prems n False by (intro Cons.IH) (auto simp: py_join_Cons)
    with False v show ?thesis by (simp add: n py_join_Cons is_ascii_digit_def)
  qed
qed simp

lemma read_members_dumps:
  assumes "\<And>kv n r. kv \<in> set kvs \<Longrightarrow> ends_number r \<Longrightarrow> length (json_dumps (snd kv)) < n \<Longrightarrow>
             read_value n (json_dumps (snd kv) @ r) = Some (snd kv, r)"
    and "kvs \<noteq> []" and "Suc (length (py_join '','' (map dump_member kvs))) < n"
  shows "read_members n (py_join '','' (map dump_member kvs) @ CHR ''}'' # r) = Some (kvs, r)"
  using assms
proof (induction kvs arbitrary: n)
  case (Cons kv kvs)
  then obtain m where n: "n = Suc m" by (cases n) auto
  obtain k v where kv: "kv = (k, v)" by (cases kv)
  have v: "read_value m (json_dumps v @ c # r') = Some (v, c # r')" if "\<not> is_ascii_digit c" for c r'
    using Cons.prems(1) [of kv "c # r'" m] Cons.prems(3) that n
    by (simp add: ends_number_def py_join_Cons kv json_string_def)
  show ?case
  proof (cases "kvs = []")
    case True
    then show ?thesis using v
      by (simp add: n kv json_string_read startswith_def read_string_text is_ascii_digit_def)
  next
    case False
    have "read_members m (py_join '','' (map dump_member kvs) @ CHR ''}'' # r) = Some (kvs, r)"
      using Cons.prems n False by (intro Cons.IH) (auto simp: py_join_Cons)
    with False v show ?thesis
      by (simp add: n kv py_join_Cons json_string_read startswith_def read_string_text is_ascii_digit_def)
  qed
qed simp

lemma read_value_dumps:
  "ends_number r \<Longrightarrow> length (json_dumps v) < n \<Longrightarrow> read_value n (json_dumps v @ r) = Some (v, r)"
proof (induction v arbitrary: n r)
  case JNull
  then show ?case by (cases n) (simp_all add: startswith_def)
next
  case (JInt i)
  then show ?case by (cases n) (simp_all add: read_value_number)
next
  case (JStr s)
  then show ?case by (cases n) (simp_all add: json_string_read read_string_text)
next
  case (JArr vs)
  then obtain m where n: "n = Suc m" by (cases n) auto
  show ?case
  proof (cases "vs = []")
    case True
    then show ?thesis by (simp add: n startswith_def)
  next
    case False
    then obtain v ws where vs: "vs = v # ws" by (cases vs) auto
    have "\<not> startswith (py_join '','' (map json_dumps vs) @ CHR '']'' # r) '']''"
      using json_dumps_head [of v] by (simp add: vs py_join_Cons)
    moreover have "read_items m (py_join '','' (map json_dumps vs) @ CHR '']'' # r) = Some (vs, r)"
      using JArr False n by (intro read_items_dumps) auto
    ultimately show ?thesis by (simp add: n startswith_def)
  qed
next
  case (JObj kvs)
  then obtain m where n: "n = Suc m" by (cases n) auto
  show ?case
  proof (cases "kvs = []")
    case True
    then show ?thesis by (simp add: n startswith_def)
  next
    case False
    then obtain kv ws where kvs: "kvs = kv # ws" by (cases kvs) auto
    have "\<not> startswith (py_join '','' (map dump_member kvs) @ CHR ''}'' # r) ''}''"
      by (simp add: kvs py_join_Cons json_string_def startswith_def)
    moreover have "read_members m (py_join '','' (map dump_member kvs) @ CHR ''}'' # r) = Some (kvs, r)"
      using JObj.prems False n
      by (intro read_members_dumps) (auto intro: JObj.IH simp: snds.simps prod_set_simps)
    ultimately show ?thesis by (simp add: n startswith_def)
  qed
qed

lemma json_loads_dumps: "json_loads (json_dumps v) = Some v"
  using read_value_dumps [of "[]" v "Suc (length (json_dumps v))"] by (simp add: json_loads_def ends_number_def)

text \<open>No control character is left in the text, so a line is one line.\<close>

abbreviation printable :: "string \<Rightarrow> bool" where
  "printable \<equiv> list_all (\<lambda>c. 32 \<le> ord c)"

lemma hex_digit_printable: "32 \<le> ord (hex_digit d)" if "d < 16"
  using that by (simp add: hex_digit_def)

lemma json_escape_printable: "printable (json_escape c)"
  by (simp add: json_escape_def hex_digit_printable)

lemma json_string_printable: "printable (json_string s)"
  by (induction s) (simp_all add: json_string_def json_escape_printable)

lemma printable_join: "printable sep \<Longrightarrow> list_all printable ws \<Longrightarrow> printable (py_join sep ws)"
  by (induction ws) (simp_all add: py_join_Cons)

lemma str_of_int_printable: "printable (str_of_int i)"
proof -
  have "printable (str_of_nat n)" for n
    using str_of_nat_digits [of n] by (auto simp: list_all_iff is_ascii_digit_def)
  then show ?thesis by (simp add: str_of_int_def)
qed

lemma json_dumps_printable: "printable (json_dumps v)"
proof (induction v)
  case (JArr vs)
  have "list_all printable (map json_dumps vs)"
    using JArr.IH by (induction vs) simp_all
  then show ?case by (simp add: printable_join)
next
  case (JObj kvs)
  have "printable (json_dumps (snd kv))" if "kv \<in> set kvs" for kv
    using that by (rule JObj.IH) (cases kv; simp)
  then have "list_all printable (map dump_member kvs)"
    by (induction kvs) (simp_all add: json_string_printable)
  then show ?case by (simp add: printable_join)
qed (simp_all add: json_string_printable str_of_int_printable)

section \<open>Records and formatters\<close>

text \<open>
  A \<open>LogRecord\<close> with its arguments already put into the message. \<open>exc_info\<close> is the name of the
  class if there is one, the text of the value and the lines of \<open>traceback.format_exception\<close>.
\<close>

record log_record =
  lr_name :: string
  lr_levelno :: nat
  lr_message :: string
  lr_module :: string
  lr_func :: string
  lr_line :: nat
  lr_request_id :: "string option"
  lr_exc :: "(string option \<times> string \<times> string list) option"

definition level_names :: "(string \<times> nat) list" where
  "level_names =
     [(''CRITICAL'', 50), (''FATAL'', 50), (''ERROR'', 40), (''WARN'', 30), (''WARNING'', 30),
      (''INFO'', 20), (''DEBUG'', 10), (''NOTSET'', 0)]"

definition level_name :: "nat \<Rightarrow> string" where
  "level_name n =
     (case map_of [(50, ''CRITICAL''), (40, ''ERROR''), (30, ''WARNING''), (20, ''INFO''), (10, ''DEBUG''),
                   (0, ''NOTSET'')] n of
        Some s \<Rightarrow> s | None \<Rightarrow> ''Level '' @ str_of_nat n)"

text \<open>The value of \<open>request_id_context\<close> is an argument; an empty id counts as none.\<close>

definition if_set :: "string option \<Rightarrow> string option" where
  "if_set x = (case x of None \<Rightarrow> None | Some s \<Rightarrow> if s = [] then None else Some s)"

definition request_id_filter :: "string option \<Rightarrow> log_record \<Rightarrow> log_record" where
  "request_id_filter ctx r = (case if_set ctx of Some rid \<Rightarrow> r\<lparr>lr_request_id := Some rid\<rparr> | None \<Rightarrow> r)"

text \<open>\<open>logging.Formatter\<close> appends the traceback to the line, less its last line break.\<close>

definition exception_text :: "string list \<Rightarrow> string" where
  "exception_text entries =
     (let s = concat entries in if endswith s [CHR 0x0A] then butlast s else s)"

definition with_exception :: "log_record \<Rightarrow> string \<Rightarrow> string" where
  "with_exception r s =
     (case lr_exc r of
        None \<Rightarrow> s
      | Some (cls, val, entries) \<Rightarrow>
          if exception_text entries = [] then s
          else (if endswith s [CHR 0x0A] then s else s @ [CHR 0x0A]) @ exception_text entries)"

definition text_format :: "string \<Rightarrow> string option \<Rightarrow> log_record \<Rightarrow> string \<times> log_record" where
  "text_format asctime ctx r =
     (let head = asctime @ '' '' @ level_name (lr_levelno r) @ '' ['' @ lr_name r @ ''] '';
          rid = (case if_set (lr_request_id r) of Some x \<Rightarrow> Some x | None \<Rightarrow> if_set ctx)
      in case rid of
           Some x \<Rightarrow> (with_exception r (head @ ''request_id='' @ x @ '' '' @ lr_message r), r\<lparr>lr_request_id := Some x\<rparr>)
         | None \<Rightarrow> (with_exception r (head @ lr_message r), r))"

text \<open>\<open>str.splitlines\<close>: a carriage return with the line feed after it is one break.\<close>

definition is_linebreak :: "char \<Rightarrow> bool" where
  "is_linebreak c \<longleftrightarrow> ord c \<in> {10, 11, 12, 13, 28, 29, 30, 133}"

fun splitlines_from :: "string \<Rightarrow> string \<Rightarrow> string list" where
  "splitlines_from acc [] = (if acc = [] then [] else [acc])"
| "splitlines_from acc (c # cs) =
     (if c = CHR 0x0D \<and> startswith cs [CHR 0x0A] then acc # splitlines_from [] (tl cs)
      else if is_linebreak c then acc # splitlines_from [] cs
      else splitlines_from (acc @ [c]) cs)"

definition splitlines :: "string \<Rightarrow> string list" where
  "splitlines = splitlines_from []"

definition exception_json :: "string option \<times> string \<times> string list \<Rightarrow> json" where
  "exception_json x =
     (case x of (cls, val, entries) \<Rightarrow>
        JObj [(''type'', case cls of Some n \<Rightarrow> JStr n | None \<Rightarrow> JNull), (''message'', JStr val),
              (''traceback'', JArr (map JStr (concat (map (\<lambda>e. splitlines (py_rstrip e)) entries))))])"

definition json_payload :: "string \<Rightarrow> string option \<Rightarrow> log_record \<Rightarrow> (string \<times> json) list" where
  "json_payload stamp ctx r =
     [(''timestamp'', JStr stamp), (''level'', JStr (level_name (lr_levelno r))), (''logger'', JStr (lr_name r)),
      (''message'', JStr (lr_message r)), (''module'', JStr (lr_module r)), (''function'', JStr (lr_func r)),
      (''line'', JInt (int (lr_line r)))] @
     (case if_set ctx of Some rid \<Rightarrow> [(''request_id'', JStr rid)] | None \<Rightarrow> []) @
     (case lr_exc r of Some x \<Rightarrow> [(''exception'', exception_json x)] | None \<Rightarrow> [])"

definition json_format :: "string \<Rightarrow> string option \<Rightarrow> log_record \<Rightarrow> string" where
  "json_format stamp ctx r = json_dumps (JObj (json_payload stamp ctx r))"

section \<open>Handlers and loggers\<close>

text \<open>The root logger may have had handlers of another kind before the program configures it.\<close>

datatype stream = Stdout | Log_File string int int
datatype formatter = Text_Formatter | Json_Formatter
datatype handler = App_Handler stream formatter | Other_Handler nat

record logger =
  lg_handlers :: "handler list"
  lg_level :: nat
  lg_propagate :: bool

definition new_logger :: logger where
  "new_logger = \<lparr>lg_handlers = [], lg_level = 0, lg_propagate = True\<rparr>"

text \<open>A logger nobody asked for behaves like a new one.\<close>

record logging =
  root :: logger
  named :: "string \<Rightarrow> logger"
  closed_handlers :: "handler list"

definition initial_logging :: logging where
  "initial_logging =
     \<lparr>root = \<lparr>lg_handlers = [], lg_level = 30, lg_propagate = True\<rparr>, named = (\<lambda>_. new_logger), closed_handlers = []\<rparr>"

text \<open>A logger name and the names above it: \<open>a.b.c\<close>, \<open>a.b\<close>, \<open>a\<close>.\<close>

definition logger_chain :: "string \<Rightarrow> string list" where
  "logger_chain name = map (py_join ''.'') (rev (tl (prefixes (py_split (CHR ''.'') name))))"

fun effective_level :: "logging \<Rightarrow> string list \<Rightarrow> nat" where
  "effective_level L [] = lg_level (root L)"
| "effective_level L (n # ns) = (if lg_level (named L n) \<noteq> 0 then lg_level (named L n) else effective_level L ns)"

fun handlers_for :: "logging \<Rightarrow> string list \<Rightarrow> handler list" where
  "handlers_for L [] = lg_handlers (root L)"
| "handlers_for L (n # ns) =
     lg_handlers (named L n) @ (if lg_propagate (named L n) then handlers_for L ns else [])"

text \<open>
  The handlers run in turn on the same record, so what the filter or the text formatter of one
  puts into it is seen by the next.
\<close>

definition emit :: "string \<Rightarrow> string \<Rightarrow> string option \<Rightarrow> handler \<Rightarrow> log_record \<Rightarrow> (stream \<times> string) list \<times> log_record" where
  "emit stamp asctime ctx h r =
     (case h of
        Other_Handler n \<Rightarrow> ([], r)
      | App_Handler st f \<Rightarrow>
          (let r' = request_id_filter ctx r in
           case f of
             Json_Formatter \<Rightarrow> ([(st, json_format stamp ctx r')], r')
           | Text_Formatter \<Rightarrow> (case text_format asctime ctx r' of (line, r'') \<Rightarrow> ([(st, line)], r''))))"

fun emit_all :: "string \<Rightarrow> string \<Rightarrow> string option \<Rightarrow> handler list \<Rightarrow> log_record \<Rightarrow> (stream \<times> string) list" where
  "emit_all stamp asctime ctx [] r = []"
| "emit_all stamp asctime ctx (h # hs) r =
     (case emit stamp asctime ctx h r of (ls, r') \<Rightarrow> ls @ emit_all stamp asctime ctx hs r')"

definition log_record_to :: "string \<Rightarrow> string \<Rightarrow> logging \<Rightarrow> string option \<Rightarrow> log_record \<Rightarrow> (stream \<times> string) list" where
  "log_record_to stamp asctime L ctx r =
     (let chain = logger_chain (lr_name r) in
      if effective_level L chain \<le> lr_levelno r then emit_all stamp asctime ctx (handlers_for L chain) r else [])"

section \<open>Configuring the loggers\<close>

text \<open>\<open>str(Path(p))\<close> on POSIX.\<close>

definition posix_path :: "string \<Rightarrow> string" where
  "posix_path p =
     (let anchor = (if startswith p ''//'' \<and> \<not> startswith p ''///'' then ''//'' else if startswith p ''/'' then ''/'' else '''');
          parts = filter (\<lambda>x. x \<noteq> [] \<and> x \<noteq> ''.'') (py_split (CHR ''/'') p)
      in if anchor = [] \<and> parts = [] then ''.'' else anchor @ py_join ''/'' parts)"

text \<open>
  \<open>str.upper\<close>. The micro sign and the y with diaeresis have their capitals outside the modelled
  characters and are kept; they are in no level name.
\<close>

definition upper_char :: "char \<Rightarrow> string" where
  "upper_char c =
     (if ord c = 223 then ''SS''
      else if 97 \<le> ord c \<and> ord c \<le> 122 \<or> 224 \<le> ord c \<and> ord c \<le> 254 \<and> ord c \<noteq> 247
      then [char_of (ord c - 32)] else [c])"

definition py_upper :: "string \<Rightarrow> string" where
  "py_upper s = concat (map upper_char s)"

definition check_level :: "string \<Rightarrow> exn + nat" where
  "check_level s =
     (case map_of level_names s of Some n \<Rightarrow> Inr n | None \<Rightarrow> Inl (ValueErr (''Unknown level: '' @ str_repr s)))"

definition build_handler :: "stream \<Rightarrow> string \<Rightarrow> handler" where
  "build_handler st fmt =
     App_Handler st (if py_lower fmt = ''json'' then Json_Formatter else Text_Formatter)"

definition remove_handlers :: "logging \<Rightarrow> logging" where
  "remove_handlers L =
     L\<lparr>root := (root L)\<lparr>lg_handlers := []\<rparr>, closed_handlers := closed_handlers L @ lg_handlers (root L)\<rparr>"

definition set_root_level :: "nat \<Rightarrow> logging \<Rightarrow> logging" where
  "set_root_level n L = L\<lparr>root := (root L)\<lparr>lg_level := n\<rparr>\<rparr>"

definition add_handler :: "handler \<Rightarrow> logging \<Rightarrow> logging" where
  "add_handler h L = L\<lparr>root := (root L)\<lparr>lg_handlers := lg_handlers (root L) @ [h]\<rparr>\<rparr>"

definition delegate :: "nat \<Rightarrow> string \<Rightarrow> logging \<Rightarrow> logging" where
  "delegate n name L = L\<lparr>named := (named L)(name := \<lparr>lg_handlers = [], lg_level = n, lg_propagate = True\<rparr>)\<rparr>"

definition UVICORN_LOGGERS :: "string list" where
  "UVICORN_LOGGERS = [''uvicorn'', ''uvicorn.error'', ''uvicorn.access'']"

definition file_logging_disabled :: "string \<Rightarrow> string \<Rightarrow> log_record" where
  "file_logging_disabled path err =
     \<lparr>lr_name = ''root'', lr_levelno = 30, lr_message = ''file_logging_disabled path='' @ path @ '' error='' @ err,
      lr_module = ''logging'', lr_func = ''configure_logging'', lr_line = 128, lr_request_id = None, lr_exc = None\<rparr>"

text \<open>
  \<open>open_log\<close> is what making the directory and opening the file answers: the text of its \<open>OSError\<close>,
  if any. The result is the warning that is logged then, to the handlers the root has at that point.
\<close>

definition add_file_handler ::
  "(string \<Rightarrow> string option) \<Rightarrow> string \<Rightarrow> string option \<Rightarrow> int \<Rightarrow> int \<Rightarrow> logging \<Rightarrow> log_record option \<times> logging" where
  "add_file_handler open_log fmt file max_mb backups L =
     (case if_set file of
        None \<Rightarrow> (None, L)
      | Some p \<Rightarrow>
          (case open_log (posix_path p) of
             None \<Rightarrow> (None, add_handler (build_handler (Log_File (posix_path p) (max_mb * 1024 * 1024) backups) fmt) L)
           | Some err \<Rightarrow> (Some (file_logging_disabled (posix_path p) err), L)))"

definition configure_logging ::
  "(string \<Rightarrow> string option) \<Rightarrow> string \<Rightarrow> string \<Rightarrow> string option \<Rightarrow> int \<Rightarrow> int \<Rightarrow>
   (logging, exn, log_record option) proc" where
  "configure_logging open_log level fmt file max_mb backups L =
     (let L1 = remove_handlers L in
      case check_level (py_upper level) of
        Inl e \<Rightarrow> (Inl e, L1)
      | Inr n \<Rightarrow>
          (case add_file_handler open_log fmt file max_mb backups
                  (add_handler (build_handler Stdout fmt) (set_root_level n L1)) of
             (w, L2) \<Rightarrow> (Inr w, fold (delegate n) UVICORN_LOGGERS L2)))"

definition create_app_logging :: "(string \<Rightarrow> string option) \<Rightarrow> settings \<Rightarrow> (logging, exn, log_record option) proc" where
  "create_app_logging open_log st =
     configure_logging open_log (log_level st) (log_format st) (log_file_path st) (log_file_max_mb st)
       (log_file_backup_count st)"

lemmas configure_defs = configure_logging_def add_file_handler_def remove_handlers_def set_root_level_def
  add_handler_def delegate_def UVICORN_LOGGERS_def Let_def

text \<open>The handlers the root has in the end do not depend on those it had.\<close>

definition app_handlers :: "(string \<Rightarrow> string option) \<Rightarrow> string \<Rightarrow> string option \<Rightarrow> int \<Rightarrow> int \<Rightarrow> handler list" where
  "app_handlers open_log fmt file max_mb backups =
     build_handler Stdout fmt #
     (case if_set file of
        None \<Rightarrow> []
      | Some p \<Rightarrow>
          if open_log (posix_path p) = None
          then [build_handler (Log_File (posix_path p) (max_mb * 1024 * 1024) backups) fmt] else [])"

lemma configure_logging_eq:
  "configure_logging open_log level fmt file max_mb backups L =
     (case check_level (py_upper level) of
        Inl e \<Rightarrow> (Inl e, remove_handlers L)
      | Inr n \<Rightarrow>
          (Inr (case if_set file of None \<Rightarrow> None
                | Some p \<Rightarrow> map_option (file_logging_disabled (posix_path p)) (open_log (posix_path p))),
           \<lparr>root = \<lparr>lg_handlers = app_handlers open_log fmt file max_mb backups, lg_level = n,
                    lg_propagate = lg_propagate (root L)\<rparr>,
            named = (\<lambda>m. if m \<in> set UVICORN_LOGGERS then \<lparr>lg_handlers = [], lg_level = n, lg_propagate = True\<rparr>
                         else named L m),
            closed_handlers = closed_handlers L @ lg_handlers (root L)\<rparr>))"
  by (auto simp: configure_defs app_handlers_def fun_eq_iff intro!: logging.equality logger.equality
      split: sum.splits option.splits)

section \<open>The main process\<close>

text \<open>
  \<open>python -m app.main\<close>: the steps and how it ends, given how starting the metrics server and
  serving end (the exception, if any). The metrics server runs once, before uvicorn starts its
  workers, and is stopped however uvicorn ends.
\<close>

datatype main_step = Logging_Configured | Metrics_Started string int | Served_With string int int string | Metrics_Stopped

definition stop_metrics_server :: "(string \<times> int) option \<Rightarrow> main_step list" where
  "stop_metrics_server srv = (case srv of None \<Rightarrow> [] | Some s \<Rightarrow> [Metrics_Stopped])"

definition run_main ::
  "(string \<Rightarrow> string option) \<Rightarrow> settings \<Rightarrow> (string \<Rightarrow> int \<Rightarrow> exn option) \<Rightarrow> exn option \<Rightarrow> logging \<Rightarrow>
   (exn + unit) \<times> main_step list" where
  "run_main open_log st start_server uvicorn L =
     (case create_app_logging open_log st L of
        (Inl e, L1) \<Rightarrow> (Inl e, [])
      | (Inr w, L1) \<Rightarrow>
          (case (if metrics_enabled st then map_option Inl (start_server (metrics_host st) (metrics_port st)) else None) of
             Some x \<Rightarrow> (x, [Logging_Configured])
           | None \<Rightarrow>
               (let srv = (if metrics_enabled st then Some (metrics_host st, metrics_port st) else None) in
                (case uvicorn of Some e \<Rightarrow> Inl e | None \<Rightarrow> Inr (),
                 [Logging_Configured] @
                 (case srv of Some (h, p) \<Rightarrow> [Metrics_Started h p] | None \<Rightarrow> []) @
                 [Served_With (uvicorn_host st) (uvicorn_port st) (uvicorn_workers st) (py_lower (log_level st))] @
                 stop_metrics_server srv))))"

lemma main_stops_metrics:
  "run_main open_log st start_server uvicorn L = (x, steps) \<Longrightarrow> Metrics_Started h p \<in> set steps \<Longrightarrow>
     metrics_enabled st \<and> last steps = Metrics_Stopped"
  by (auto simp: run_main_def stop_metrics_server_def Let_def split: prod.splits sum.splits option.splits if_splits)

section \<open>Records written for a request\<close>

text \<open>
  The instrumentation calls \<open>log_request_timing\<close> with the method, the path template, the status of
  the response if there is one, and the duration, here as the text of \<open>%.3f\<close>.
\<close>

definition log_request_timing :: "string \<Rightarrow> string \<Rightarrow> nat option \<Rightarrow> string \<Rightarrow> log_record" where
  "log_request_timing method handler_path resp_status duration =
     (let sc = (case resp_status of Some n \<Rightarrow> n | None \<Rightarrow> 500) in
      \<lparr>lr_name = ''app.middlewares.request_timing'', lr_levelno = (if sc < 500 then 20 else 40),
       lr_message = ''api_request_completed method='' @ method @ '' path='' @ handler_path @ '' status_code='' @
         str_of_nat sc @ '' duration_ms='' @ duration,
       lr_module = ''request_timing'', lr_func = ''log_request_timing'', lr_line = 15,
       lr_request_id = None, lr_exc = None\<rparr>)"

definition request_timeout_record :: "string \<Rightarrow> string \<Rightarrow> log_record" where
  "request_timeout_record method path =
     \<lparr>lr_name = ''app.middlewares.timeout'', lr_levelno = 30,
      lr_message = ''request_timeout method='' @ method @ '' path='' @ path @ '' timeout_seconds=120.000'',
      lr_module = ''timeout'', lr_func = ''dispatch'', lr_line = 41, lr_request_id = None, lr_exc = None\<rparr>"

definition error_record :: "string \<Rightarrow> string \<Rightarrow> nat \<Rightarrow> string option \<times> string \<times> string list \<Rightarrow> log_record" where
  "error_record msg func line exc =
     \<lparr>lr_name = ''app.core.exceptions'', lr_levelno = 40, lr_message = msg, lr_module = ''exceptions'',
      lr_func = func, lr_line = line, lr_request_id = None, lr_exc = Some exc\<rparr>"

text \<open>The handler of database errors logs, and so does the one of unexpected errors.\<close>

definition database_records :: "(exn \<Rightarrow> string option \<times> string \<times> string list) \<Rightarrow> exn \<Rightarrow> log_record list" where
  "database_records describe e =
     (case e of
        SqlaErr m \<Rightarrow> [error_record ''database_error'' ''handle_database_exception'' 198 (describe e)]
      | IntegrityErr \<Rightarrow> [error_record ''database_error'' ''handle_database_exception'' 198 (describe e)]
      | _ \<Rightarrow> [])"

definition unexpected_record :: "(exn \<Rightarrow> string option \<times> string \<times> string list) \<Rightarrow> exn \<Rightarrow> log_record" where
  "unexpected_record describe e = error_record ''unexpected_error'' ''handle_unexpected_exception'' 211 (describe e)"

subsection \<open>The context variable\<close>

text \<open>
  Code that logs runs under the value of \<open>request_id_context\<close>. It gives a result and its records,
  each with the value the variable had when it was logged.
\<close>

type_synonym trace = "(string option \<times> log_record) list"
type_synonym 'a logged = "string option \<Rightarrow> 'a \<times> trace"

definition say :: "log_record list \<Rightarrow> 'a \<Rightarrow> 'a logged" where
  "say rs x = (\<lambda>ctx. (x, map (Pair ctx) rs))"

definition and_then :: "'a logged \<Rightarrow> ('a \<Rightarrow> 'b logged) \<Rightarrow> 'b logged" where
  "and_then m f = (\<lambda>ctx. case m ctx of (x, l) \<Rightarrow> (case f x ctx of (y, l') \<Rightarrow> (y, l @ l')))"

text \<open>\<open>request_id_context.set\<close>, and \<open>reset\<close> in the \<open>finally\<close>: the variable has the id only inside.\<close>

definition under_request_id :: "string \<Rightarrow> 'a logged \<Rightarrow> 'a logged" where
  "under_request_id rid m = (\<lambda>ctx. m (Some rid))"

subsection \<open>The layers of a request\<close>

text \<open>
  What reaches a layer from inside is an exception or a reply, or nothing when the time-out layer
  cancels the request. \<open>inner\<close> are the records of the endpoint up to its end, \<open>timing\<close> those of the
  instrumentation, which \<open>create_app\<close> adds before the other layers. \<open>describe\<close> gives an exception's
  class, text and traceback.
\<close>

definition ended :: "nat \<Rightarrow> (exn + nat) run \<Rightarrow> (exn + nat) option" where
  "ended limit r = (case r of None \<Rightarrow> None | Some (t, x) \<Rightarrow> if t < limit then Some x else None)"

definition logged_exception_layer ::
  "(exn \<Rightarrow> string option \<times> string \<times> string list) \<Rightarrow> string \<Rightarrow> (exn + nat) option logged \<Rightarrow> (exn + reply) option logged" where
  "logged_exception_layer describe rid m =
     and_then m (\<lambda>x. say (case x of Some (Inl e) \<Rightarrow> database_records describe e | _ \<Rightarrow> [])
                         (map_option (exception_layer rid) x))"

definition logged_request_id_layer :: "string \<Rightarrow> (exn + reply) option logged \<Rightarrow> (exn + reply) option logged" where
  "logged_request_id_layer rid m =
     and_then (under_request_id rid m) (\<lambda>x. say [] (map_option (request_id_layer rid) x))"

definition logged_timeout_layer ::
  "string \<Rightarrow> string \<Rightarrow> string \<Rightarrow> (exn + reply) option logged \<Rightarrow> (exn + reply) logged" where
  "logged_timeout_layer method path rid m =
     and_then m (\<lambda>x. case x of
       None \<Rightarrow> say [request_timeout_record method path] (Inr (timeout_reply rid))
     | Some y \<Rightarrow> if y = Inl TimeoutErr then say [request_timeout_record method path] (Inr (timeout_reply rid))
                 else say [] y)"

definition logged_cors_layer :: "cors \<Rightarrow> asgi_scope \<Rightarrow> (exn + reply) logged \<Rightarrow> (exn + reply) logged" where
  "logged_cors_layer C q m =
     (if is_preflight q then say [] (Inr (cors_answer C q))
      else and_then m (\<lambda>x. say [] (map_sum id (cors_allow C q) x)))"

text \<open>The outermost layer raises the exception again after it has answered.\<close>

definition logged_server_error_layer ::
  "(exn \<Rightarrow> string option \<times> string \<times> string list) \<Rightarrow> bool \<Rightarrow> string \<Rightarrow> (exn + reply) logged \<Rightarrow> (exn option \<times> reply) logged" where
  "logged_server_error_layer describe dbg rid m =
     and_then m (\<lambda>x. say (case x of Inl e \<Rightarrow> if dbg then [] else [unexpected_record describe e] | Inr y \<Rightarrow> [])
                         (case x of Inl e \<Rightarrow> Some e | Inr y \<Rightarrow> None, server_error_layer dbg rid x))"

text \<open>
  Uvicorn logs each response to \<open>uvicorn.access\<close> and an exception that reaches it to
  \<open>uvicorn.error\<close>; the wording is a parameter. The server runs outside of every layer.
\<close>

record uvicorn_log =
  access_record :: "asgi_scope \<Rightarrow> nat \<Rightarrow> log_record"
  asgi_error_record :: "exn \<Rightarrow> log_record"

definition served_by_uvicorn :: "uvicorn_log \<Rightarrow> asgi_scope \<Rightarrow> (exn option \<times> reply) logged \<Rightarrow> reply logged" where
  "served_by_uvicorn U q m =
     and_then m (\<lambda>x. say (access_record U q (rep_status (snd x)) #
                           (case fst x of Some e \<Rightarrow> [asgi_error_record U e] | None \<Rightarrow> []))
                         (snd x))"

text \<open>A request with what it leaves in the log; outside of it the variable has no value.\<close>

definition request_run ::
  "(exn \<Rightarrow> string option \<times> string \<times> string list) \<Rightarrow> uvicorn_log \<Rightarrow> bool \<Rightarrow> cors \<Rightarrow> asgi_scope \<Rightarrow> string \<Rightarrow>
   log_record list \<Rightarrow> log_record list \<Rightarrow> (exn + nat) run \<Rightarrow> reply \<times> trace" where
  "request_run describe U dbg C q fresh inner timing r =
     (let rid = request_id q fresh;
          routes = logged_exception_layer describe rid (say inner (ended API_REQUEST_TIMEOUT_MS r));
          observed = and_then routes (say timing)
      in served_by_uvicorn U q
           (logged_server_error_layer describe dbg rid
             (logged_cors_layer C q
               (logged_timeout_layer (sc_method q) (sc_path q) rid
                 (logged_request_id_layer rid observed)))) None)"

definition log_all :: "string \<Rightarrow> string \<Rightarrow> logging \<Rightarrow> (string option \<times> log_record) list \<Rightarrow> (stream \<times> string) list" where
  "log_all stamp asctime L rs = concat (map (\<lambda>(ctx, r). log_record_to stamp asctime L ctx r) rs)"

definition lines_on :: "stream \<Rightarrow> (stream \<times> string) list \<Rightarrow> string list" where
  "lines_on st ls = map snd (filter (\<lambda>l. fst l = st) ls)"

text \<open>What a reader of a log line sees of it: the message and the request id.\<close>

fun json_field :: "string \<Rightarrow> json \<Rightarrow> json option" where
  "json_field k (JObj kvs) = dget kvs k"
| "json_field k v = None"

definition read_line :: "string \<Rightarrow> (json option \<times> json option) option" where
  "read_line s = map_option (\<lambda>v. (json_field ''message'' v, json_field ''request_id'' v)) (json_loads s)"

section \<open>Facts about the lines\<close>

text \<open>
  A logger with nothing configured on its way up hands its records to the root. The loggers of
  uvicorn do once the program has configured them, whatever they had before.
\<close>

definition plain_logger :: "logging \<Rightarrow> string \<Rightarrow> bool" where
  "plain_logger L name = list_all (\<lambda>n. n \<in> set UVICORN_LOGGERS \<or> named L n = new_logger) (logger_chain name)"

lemma json_payload_filter [simp]: "json_payload stamp ctx (request_id_filter ctx' r) = json_payload stamp ctx r"
  by (simp add: json_payload_def request_id_filter_def split: option.splits)

lemma json_loads_format: "json_loads (json_format stamp ctx r) = Some (JObj (json_payload stamp ctx r))"
  unfolding json_format_def by (rule json_loads_dumps)

lemma json_payload_fields:
  "distinct (dkeys (json_payload stamp ctx r))"
  "dget (json_payload stamp ctx r) ''message'' = Some (JStr (lr_message r))"
  "dget (json_payload stamp ctx r) ''level'' = Some (JStr (level_name (lr_levelno r)))"
  "dget (json_payload stamp ctx r) ''logger'' = Some (JStr (lr_name r))"
  "dget (json_payload stamp ctx r) ''line'' = Some (JInt (int (lr_line r)))"
  "dget (json_payload stamp ctx r) ''request_id'' = map_option JStr (if_set ctx)"
  "dget (json_payload stamp ctx r) ''exception'' = map_option exception_json (lr_exc r)"
  by (auto simp: json_payload_def split: option.splits)

lemma read_line_json_format:
  "read_line (json_format stamp ctx r) = Some (Some (JStr (lr_message r)), map_option JStr (if_set ctx))"
  by (simp add: read_line_def json_loads_format json_payload_fields)

abbreviation unbroken :: "string \<Rightarrow> bool" where
  "unbroken \<equiv> list_all (\<lambda>c. \<not> is_linebreak c)"

lemma splitlines_from_unbroken: "unbroken acc \<Longrightarrow> list_all unbroken (splitlines_from acc s)"
proof (induction acc s rule: splitlines_from.induct)
  case (2 acc c cs)
  then show ?case by (cases "is_linebreak c"; cases "c = CHR 0x0D \<and> startswith cs [CHR 0x0A]") auto
qed simp

lemma traceback_lines_unbroken: "list_all unbroken (concat (map (\<lambda>e. splitlines (f e)) es))"
  by (induction es) (simp_all add: splitlines_def splitlines_from_unbroken)

lemma configured_new_loggers:
  assumes "configure_logging open_log level fmt file max_mb backups L = (Inr w, L')"
    and "list_all (\<lambda>n. n \<in> set UVICORN_LOGGERS \<or> named L n = new_logger) ns"
  shows "handlers_for L' ns = lg_handlers (root L') \<and> effective_level L' ns = lg_level (root L')"
  using assms(2)
proof (induction ns)
  case (Cons n ns)
  have "lg_handlers (named L' n) = [] \<and> lg_propagate (named L' n) \<and> lg_level (named L' n) \<in> {0, lg_level (root L')}"
    using assms(1) Cons.prems by (auto simp: configure_logging_eq new_logger_def split: sum.splits)
  with Cons show ?case by auto
qed simp

lemma configured_handlers:
  "configure_logging open_log level fmt file max_mb backups L = (Inr w, L') \<Longrightarrow>
     lg_handlers (root L') = app_handlers open_log fmt file max_mb backups"
  by (auto simp: configure_logging_eq split: sum.splits)

lemma app_handlers_stdout:
  "lines_on Stdout (emit_all stamp asctime ctx (app_handlers open_log ''json'' file max_mb backups) r) = [json_format stamp ctx r]"
  by (auto simp: app_handlers_def build_handler_def py_lower_def lower_char_def emit_def json_format_def lines_on_def
      split: option.splits)

lemma lines_on_simps [simp]:
  "lines_on st [] = []"
  "lines_on st (xs @ ys) = lines_on st xs @ lines_on st ys"
  by (simp_all add: lines_on_def)

text \<open>A record of a plain logger is one JSON line on standard output, if its level is high enough.\<close>

lemma stdout_line:
  assumes cfg: "configure_logging open_log level ''json'' file max_mb backups L = (Inr w, L')"
    and "plain_logger L (lr_name r)"
  shows "lines_on Stdout (log_record_to stamp asctime L' ctx r) =
           (if lg_level (root L') \<le> lr_levelno r then [json_format stamp ctx r] else [])"
  using configured_new_loggers [OF cfg] configured_handlers [OF cfg] assms(2)
  by (simp add: plain_logger_def log_record_to_def app_handlers_stdout Let_def)

lemma stdout_lines:
  assumes cfg: "configure_logging open_log level ''json'' file max_mb backups L = (Inr w, L')"
    and "list_all (\<lambda>x. plain_logger L (lr_name (snd x))) rs"
  shows "lines_on Stdout (log_all stamp asctime L' rs) =
           map (\<lambda>x. json_format stamp (fst x) (snd x)) (filter (\<lambda>x. lg_level (root L') \<le> lr_levelno (snd x)) rs)"
  using assms(2)
  by (induction rs) (auto simp: log_all_def stdout_line [OF cfg])

section \<open>Properties\<close>

text \<open>C32: a line of the JSON formatter holds no control character, so a message, a request id or a
  traceback never starts a second line, and it reads back as the record: its message, level, logger
  and line number, the request id if one is set, and the exception if there is one, whose traceback
  is cut into lines without line breaks.\<close>

theorem json_line_exact:
  "list_all (\<lambda>c. 32 \<le> ord c) (json_format stamp ctx r) \<and>
   (case json_loads (json_format stamp ctx r) of
      Some (JObj kvs) \<Rightarrow>
        distinct (map fst kvs) \<and>
        dget kvs ''message'' = Some (JStr (lr_message r)) \<and>
        dget kvs ''level'' = Some (JStr (level_name (lr_levelno r))) \<and>
        dget kvs ''logger'' = Some (JStr (lr_name r)) \<and>
        dget kvs ''line'' = Some (JInt (int (lr_line r))) \<and>
        dget kvs ''request_id'' = map_option JStr (if_set ctx) \<and>
        (case lr_exc r of
           None \<Rightarrow> dget kvs ''exception'' = None
         | Some (cls, val, entries) \<Rightarrow>
             (let ls = concat (map (\<lambda>e. splitlines (py_rstrip e)) entries) in
              dget kvs ''exception'' =
                Some (JObj [(''type'', case cls of Some n \<Rightarrow> JStr n | None \<Rightarrow> JNull), (''message'', JStr val),
                            (''traceback'', JArr (map JStr ls))]) \<and>
              list_all (list_all (\<lambda>c. \<not> is_linebreak c)) ls))
    | _ \<Rightarrow> False)"
proof -
  have "list_all (\<lambda>c. 32 \<le> ord c) (json_format stamp ctx r)"
    unfolding json_format_def by (rule json_dumps_printable)
  then show ?thesis
    using json_payload_fields [of stamp ctx r]
    by (simp add: json_loads_format exception_json_def traceback_lines_unbroken Let_def split: option.splits)
qed

text \<open>Configuring the loggers gives the same handlers whatever was configured before, by the
  program or by uvicorn: one on standard output, and one on the rotating file if it can be opened;
  the earlier ones are closed. A file that cannot be opened is reported on standard output and does
  not stop the program. The loggers of uvicorn hand everything to these handlers, at the same
  level. An unknown level is a \<open>ValueError\<close>, raised when the old handlers are already gone.\<close>

lemma configure_logging_exact:
  "case configure_logging open_log level fmt file max_mb backups L of
     (Inl e, L') \<Rightarrow>
       map_of level_names (py_upper level) = None \<and>
       e = ValueErr (''Unknown level: '' @ str_repr (py_upper level)) \<and>
       lg_handlers (root L') = [] \<and> closed_handlers L' = closed_handlers L @ lg_handlers (root L)
   | (Inr w, L') \<Rightarrow>
       map_of level_names (py_upper level) = Some (lg_level (root L')) \<and>
       closed_handlers L' = closed_handlers L @ lg_handlers (root L) \<and>
       lg_handlers (root L') =
         build_handler Stdout fmt #
         (case if_set file of
            None \<Rightarrow> []
          | Some p \<Rightarrow> if open_log (posix_path p) = None
                      then [build_handler (Log_File (posix_path p) (max_mb * 1024 * 1024) backups) fmt] else []) \<and>
       map (\<lambda>n. (handlers_for L' (logger_chain n), effective_level L' (logger_chain n))) UVICORN_LOGGERS =
         replicate 3 (lg_handlers (root L'), lg_level (root L')) \<and>
       (case w of
          None \<Rightarrow> case if_set file of None \<Rightarrow> True | Some p \<Rightarrow> open_log (posix_path p) = None
        | Some r \<Rightarrow>
            lr_levelno r = 30 \<and> lg_handlers (root L') = [build_handler Stdout fmt] \<and>
            map fst (emit_all stamp asctime ctx (lg_handlers (root L')) r) = [Stdout])"
proof -
  have chains: "map logger_chain UVICORN_LOGGERS =
      [[''uvicorn''], [''uvicorn.error'', ''uvicorn''], [''uvicorn.access'', ''uvicorn'']]"
    by (simp add: logger_chain_def UVICORN_LOGGERS_def)
  have out: "map fst (emit_all stamp asctime ctx [build_handler Stdout fmt] r) = [Stdout]" for r
    by (simp add: build_handler_def emit_def Let_def split: prod.splits formatter.splits)
  show ?thesis
  proof (cases "map_of level_names (py_upper level)")
    case None
    then show ?thesis by (simp add: configure_logging_eq check_level_def remove_handlers_def)
  next
    case (Some n)
    then show ?thesis
      using chains out
      by (auto simp: configure_logging_eq check_level_def app_handlers_def UVICORN_LOGGERS_def
          file_logging_disabled_def numeral_3_eq_3 split: option.splits)
  qed
qed

lemmas logged_defs = say_def and_then_def under_request_id_def logged_exception_layer_def
  logged_request_id_layer_def logged_timeout_layer_def logged_cors_layer_def logged_server_error_layer_def
  served_by_uvicorn_def

text \<open>The layers that log answer like the layers of \<open>respond\<close>.\<close>

lemma request_run_reply:
  "respond dbg C q fresh r = Some (fst (request_run describe U dbg C q fresh inner timing r))"
proof (cases r)
  case (Some p)
  then obtain t x where r: "r = Some (t, x)" by (cases p) auto
  then show ?thesis
    by (cases "t < API_REQUEST_TIMEOUT_MS"; cases "x = Inl TimeoutErr")
      (simp_all add: respond_eq inner_reply_def in_time_def request_run_def ended_def logged_defs Let_def)
qed (simp add: respond_eq inner_reply_def in_time_def request_run_def ended_def logged_defs Let_def)

text \<open>What a request leaves in the log, by how it ended.\<close>

definition inside_records ::
  "(exn \<Rightarrow> string option \<times> string \<times> string list) \<Rightarrow> log_record list \<Rightarrow> log_record list \<Rightarrow> (exn + nat) run \<Rightarrow> log_record list" where
  "inside_records describe inner timing r =
     inner @ (case r of Some (t, Inl e) \<Rightarrow> if in_time r then database_records describe e else [] | _ \<Rightarrow> []) @ timing"

definition outside_messages :: "bool \<Rightarrow> asgi_scope \<Rightarrow> (exn + nat) run \<Rightarrow> string list" where
  "outside_messages dbg q r =
     (if \<not> in_time r
      then [''request_timeout method='' @ sc_method q @ '' path='' @ sc_path q @ '' timeout_seconds=120.000'']
      else if answered_inside r \<or> dbg then [] else [''unexpected_error''])"

lemma database_records_timeout [simp]: "database_records describe TimeoutErr = []"
  by (simp add: database_records_def)

lemma request_run_trace:
  assumes "\<not> is_preflight q"
  shows "\<exists>failed raised. snd (request_run describe U dbg C q fresh inner timing r) =
     map (Pair (Some (request_id q fresh))) (inside_records describe inner timing r) @
     map (Pair None) (failed @ access_record U q (rep_status (fst (request_run describe U dbg C q fresh inner timing r))) #
       (if in_time r \<and> \<not> answered_inside r then [asgi_error_record U raised] else [])) \<and>
     map lr_message failed = outside_messages dbg q r \<and>
     list_all (\<lambda>r. lr_name r \<in> {''app.core.exceptions'', ''app.middlewares.timeout''}) failed"
proof -
  let ?rid = "request_id q fresh"
  consider (never) "r = None" | (late) t x where "r = Some (t, x)" "\<not> t < API_REQUEST_TIMEOUT_MS"
    | (timeout) t where "r = Some (t, Inl TimeoutErr)" "t < API_REQUEST_TIMEOUT_MS"
    | (inside) t x where "r = Some (t, x)" "in_time r" "answered_inside r"
    | (unexpected) t e where "r = Some (t, Inl e)" "in_time r" "\<not> answered_inside r"
    unfolding in_time_def answered_inside_def by (cases r) (force split: sum.splits prod.splits)+
  note by_end = this
  note defs = request_run_def ended_def logged_defs Let_def in_time_def outside_messages_def inside_records_def
  show ?thesis
  proof (cases rule: by_end)
    case never
    then show ?thesis using assms by (intro exI [of _ "[request_timeout_record (sc_method q) (sc_path q)]"])
      (simp add: defs request_timeout_record_def)
  next
    case late
    then show ?thesis using assms by (intro exI [of _ "[request_timeout_record (sc_method q) (sc_path q)]"])
      (simp add: defs request_timeout_record_def split: sum.splits)
  next
    case timeout
    then show ?thesis using assms by (intro exI [of _ "[request_timeout_record (sc_method q) (sc_path q)]"])
      (simp add: defs request_timeout_record_def exception_layer_def request_id_layer_def)
  next
    case inside
    then have "t < API_REQUEST_TIMEOUT_MS" "x \<noteq> Inl TimeoutErr" by (auto simp: in_time_def)
    moreover obtain rep where "exception_layer ?rid x = Inr rep"
      using inside by (cases x) (auto simp: answered_inside_def exception_layer_def run_handler_inside)
    ultimately show ?thesis using assms inside(1,3)
      by (intro exI [of _ "[]"]) (simp add: defs request_id_layer_def split: sum.splits)
  next
    case unexpected
    then have e: "t < API_REQUEST_TIMEOUT_MS" "e \<noteq> TimeoutErr" "\<not> handled_inside e"
      by (auto simp: in_time_def answered_inside_def)
    obtain e' where e': "run_handler (Some ?rid) e = Inl e'" "e' = TimeoutErr \<longleftrightarrow> e = TimeoutErr"
      using run_handler_outside [OF e(3)] by metis
    show ?thesis using assms unexpected(1,3) e e'
      by (intro exI [of _ "if dbg then [] else [unexpected_record describe e']"] exI [of _ e'])
        (simp add: defs exception_layer_def request_id_layer_def unexpected_record_def error_record_def)
  qed
qed

text \<open>What uvicorn documents of its two loggers.\<close>

definition uvicorn_documented :: "uvicorn_log \<Rightarrow> bool" where
  "uvicorn_documented U \<longleftrightarrow>
     (\<forall>q sc. lr_name (access_record U q sc) = ''uvicorn.access'' \<and> lr_levelno (access_record U q sc) = 20) \<and>
     (\<forall>e. lr_name (asgi_error_record U e) = ''uvicorn.error'' \<and> lr_levelno (asgi_error_record U e) = 40)"

lemma database_records_names: "list_all (\<lambda>r. lr_name r = ''app.core.exceptions'') (database_records describe e)"
  by (simp add: database_records_def error_record_def split: exn.splits)

lemma request_run_ids: "x \<in> set (snd (request_run describe U dbg C q fresh inner timing r)) \<Longrightarrow>
     fst x = None \<or> fst x = Some (request_id q fresh)"
  by (auto simp: request_run_def logged_defs Let_def split: option.splits sum.splits if_splits prod.splits)

lemma request_run_plain:
  assumes "uvicorn_documented U" "list_all (\<lambda>r. plain_logger L (lr_name r)) (inner @ timing)"
    and "plain_logger L ''app.core.exceptions''" "plain_logger L ''app.middlewares.timeout''"
  shows "list_all (\<lambda>x. plain_logger L (lr_name (snd x))) (snd (request_run describe U dbg C q fresh inner timing r))"
proof -
  have access: "plain_logger L ''uvicorn.access''" "plain_logger L ''uvicorn.error''"
    by (simp_all add: plain_logger_def logger_chain_def UVICORN_LOGGERS_def)
  show ?thesis
  proof (cases "is_preflight q")
    case True
    then have "snd (request_run describe U dbg C q fresh inner timing r) = [(None, access_record U q (rep_status (cors_answer C q)))]"
      by (simp add: request_run_def logged_defs Let_def server_error_layer_def)
    with access assms(1) show ?thesis by (simp add: uvicorn_documented_def)
  next
    case False
    have "list_all (\<lambda>r. plain_logger L (lr_name r)) (inside_records describe inner timing r)"
      using assms(2,3) database_records_names [of describe]
      by (auto simp: inside_records_def list_all_iff split: option.splits sum.splits)
    moreover obtain failed raised where "snd (request_run describe U dbg C q fresh inner timing r) =
       map (Pair (Some (request_id q fresh))) (inside_records describe inner timing r) @
       map (Pair None) (failed @ access_record U q (rep_status (fst (request_run describe U dbg C q fresh inner timing r))) #
         (if in_time r \<and> \<not> answered_inside r then [asgi_error_record U raised] else []))"
      and names: "list_all (\<lambda>r. lr_name r \<in> {''app.core.exceptions'', ''app.middlewares.timeout''}) failed"
      using request_run_trace [OF False, of describe U dbg C fresh inner timing r] by blast
    moreover have "list_all (\<lambda>r. plain_logger L (lr_name r)) failed"
      using names assms(3,4) by (induction failed) auto
    ultimately show ?thesis using access assms(1)
      by (simp add: uvicorn_documented_def list.pred_map comp_def)
  qed
qed


definition demo_uvicorn :: uvicorn_log where
  "demo_uvicorn =
     \<lparr>access_record = (\<lambda>q sc. \<lparr>lr_name = ''uvicorn.access'', lr_levelno = 20, lr_message = sc_path q @ '' '' @ str_of_nat sc,
        lr_module = ''h11_impl'', lr_func = ''send'', lr_line = 1, lr_request_id = None, lr_exc = None\<rparr>),
      asgi_error_record = (\<lambda>e. \<lparr>lr_name = ''uvicorn.error'', lr_levelno = 40, lr_message = ''Exception in ASGI application'',
        lr_module = ''h11_impl'', lr_func = ''run_asgi'', lr_line = 2, lr_request_id = None, lr_exc = None\<rparr>)\<rparr>"


end
