(* ===== verification/Metrics.thy ===== *)
theory Metrics
  imports Logging
begin

text \<open>
  The processes \<open>python -m app.main\<close> leads to: what loading \<open>app/main.py\<close> does under each of its
  module names, the instrumentation of \<open>app/core/metrics.py\<close>, and what the metrics server answers.
  The collectors of prometheus_client live in the memory of a process. They are a parameter: a type
  \<open>'r\<close> of registries with the empty one \<open>fresh\<close> and \<open>collect\<close> for the default metrics of one request.
\<close>

section \<open>Loading the module\<close>

datatype load_step = Create_App | Run_Main

definition load_main :: "string \<Rightarrow> load_step list" where
  "load_main module_name =
     (if module_name \<noteq> ''__main__'' then [Create_App] else []) @
     (if module_name = ''__main__'' then [Run_Main] else [])"

text \<open>
  Python loads the module as \<open>__main__\<close> in the main process. Uvicorn imports it as \<open>app.main\<close> where
  it serves. A worker is spawned, and multiprocessing first prepares it by loading the main module
  again, as \<open>__mp_main__\<close>.
\<close>

datatype process = Main_Process | Worker nat

definition serving :: "int \<Rightarrow> process list" where
  "serving n = (if n = 1 then [Main_Process] else map Worker [0..<nat n])"

fun module_names :: "int \<Rightarrow> process \<Rightarrow> string list" where
  "module_names n Main_Process = ''__main__'' # (if n = 1 then [''app.main''] else [])"
| "module_names n (Worker i) = [''__mp_main__'', ''app.main'']"

definition apps_created :: "int \<Rightarrow> process \<Rightarrow> nat" where
  "apps_created n p = count_list (concat (map load_main (module_names n p))) Create_App"

lemma apps_created_exact:
  "apps_created n p =
     (case p of Main_Process \<Rightarrow> if n = 1 then 1 else 0 | Worker i \<Rightarrow> 2)"
  by (cases p) (simp_all add: apps_created_def load_main_def)

section \<open>Instrumentation\<close>

record http_info =
  hi_method :: string
  hi_handler :: string
  hi_response :: "nat option"
  hi_duration :: string

record 'r process_state =
  registry :: 'r
  timing_log :: "log_record list"

definition timing_record :: "http_info \<Rightarrow> log_record" where
  "timing_record i = log_request_timing (hi_method i) (hi_handler i) (hi_response i) (hi_duration i)"

definition instrumented ::
  "(http_info \<Rightarrow> 'r \<Rightarrow> 'r) \<Rightarrow> http_info \<Rightarrow> 'r process_state \<Rightarrow> 'r process_state" where
  "instrumented collect info s =
     s\<lparr>registry := collect info (registry s),
       timing_log := timing_log s @
         [timing_record info]\<rparr>"

text \<open>\<open>excluded\<close> is how the package compares the patterns with the template of the request.\<close>

definition instrument_app ::
  "(http_info \<Rightarrow> 'r \<Rightarrow> 'r) \<Rightarrow> (string list \<Rightarrow> string \<Rightarrow> bool) \<Rightarrow> http_info \<Rightarrow> 'r process_state \<Rightarrow> 'r process_state" where
  "instrument_app collect excluded info s =
     (if excluded [''/metrics''] (hi_handler info) then s else instrumented collect info s)"

definition observed :: "(string list \<Rightarrow> string \<Rightarrow> bool) \<Rightarrow> http_info list \<Rightarrow> http_info list" where
  "observed excluded = filter (\<lambda>i. \<not> excluded [''/metrics''] (hi_handler i))"

lemma observed_Nil [simp]: "observed excluded [] = []"
  by (simp add: observed_def)

section \<open>The metrics server\<close>

text \<open>The server answers with the collectors of the process that started it.
Requests are answered in turn, each by one process; the processes share no memory.\<close>

definition serve_request ::
  "(http_info \<Rightarrow> 'r \<Rightarrow> 'r) \<Rightarrow> (string list \<Rightarrow> string \<Rightarrow> bool) \<Rightarrow> process \<times> http_info \<Rightarrow>
   (process \<Rightarrow> 'r process_state) \<Rightarrow> process \<Rightarrow> 'r process_state" where
  "serve_request collect excluded req ps =
     (case req of (p, info) \<Rightarrow> ps(p := instrument_app collect excluded info (ps p)))"

definition metrics_page :: "(process \<Rightarrow> 'r process_state) \<Rightarrow> process \<Rightarrow> 'r" where
  "metrics_page ps p = registry (ps p)"

definition scraped ::
  "(http_info \<Rightarrow> 'r \<Rightarrow> 'r) \<Rightarrow> (string list \<Rightarrow> string \<Rightarrow> bool) \<Rightarrow> 'r \<Rightarrow> settings \<Rightarrow>
   (process \<times> http_info) list \<Rightarrow> 'r option" where
  "scraped collect excluded fresh st reqs =
     (if metrics_enabled st
      then Some (metrics_page
                   (fold (serve_request collect excluded) reqs (\<lambda>p. \<lparr>registry = fresh, timing_log = []\<rparr>))
                   Main_Process)
      else None)"

lemma registry_instrument_app:
  "registry (instrument_app collect excluded i s) = fold collect (observed excluded [i]) (registry s)"
  by (simp add: instrument_app_def instrumented_def observed_def)

lemma registry_after:
  "registry (fold (serve_request collect excluded) reqs ps p) =
     fold collect (observed excluded (map snd (filter (\<lambda>r. fst r = p) reqs))) (registry (ps p))"
proof (induction reqs arbitrary: ps)
  case (Cons r reqs)
  then show ?case
    by (cases r) (simp add: serve_request_def registry_instrument_app observed_def)
qed simp

lemma timing_log_after:
  "timing_log (fold (serve_request collect excluded) reqs ps p) =
     timing_log (ps p) @
     map timing_record
       (observed excluded (map snd (filter (\<lambda>r. fst r = p) reqs)))"
proof (induction reqs arbitrary: ps)
  case (Cons r reqs)
  then show ?case
    by (cases r) (simp add: serve_request_def instrument_app_def instrumented_def observed_def)
qed simp

text \<open>
  With one process the metrics are those of all observed requests. With several workers the main
  process serves no request, so whatever is served, the scraped metrics are those of a process that
  has just started.
\<close>

lemma scraped_exact:
  assumes "set (map fst reqs) \<subseteq> set (serving (uvicorn_workers st))"
  shows "scraped collect excluded fresh st reqs =
           (if \<not> metrics_enabled st then None
            else if uvicorn_workers st = 1 then Some (fold collect (observed excluded (map snd reqs)) fresh)
            else Some fresh)"
proof -
  have "filter (\<lambda>r. fst r = Main_Process) reqs = (if uvicorn_workers st = 1 then reqs else [])"
    using assms by (auto simp: serving_def filter_id_conv filter_empty_conv split: if_splits)
  then show ?thesis
    by (simp add: scraped_def metrics_page_def registry_after)
qed

text \<open>The workers do see their requests: their log lines are complete.\<close>

lemma worker_timing_complete:
  "timing_log (fold (serve_request collect excluded) (map (Pair p) infos) ps p) =
     timing_log (ps p) @
     map timing_record
       (observed excluded infos)"
  by (simp add: timing_log_after filter_map comp_def)

end
