(* ===== verification/Wiring.thy ===== *)
theory Wiring
  imports Application
begin

text \<open>
  The dependency wiring: the providers of \<open>app/dependencies\<close>, the constructors they call, the
  dependencies each endpoint declares, and their resolution for one request. Objects are records of
  the objects they were built from; a session, a Trino client and an account map are identified by
  a number.
\<close>

section \<open>Constructors\<close>

datatype (discs_sels) session = App_Session nat | Pii_Session nat

record sqla_unit_of_work = uow_session :: session

record user_repository = ur_session :: session

record account_map_repository =
  amr_session :: session
  amr_query_batch_size :: int

record audit_log_repository = alr_session :: session

record dynamic_route_repository = drr_session :: session

record postgres_client = pgc_session :: session

record pii_mapper = pm_mapping_cache :: nat

record auth_service =
  as_users :: user_repository
  as_uow :: sqla_unit_of_work
  as_settings :: settings

record user_service =
  us_users :: user_repository
  us_uow :: sqla_unit_of_work
  us_settings :: settings

text \<open>\<open>BaseQueryService\<close>, which the users and the Power BI service inherit\<close>

record query_service =
  qs_settings :: settings
  qs_trino :: nat
  qs_pii_mapper :: pii_mapper
  qs_uow :: sqla_unit_of_work

record audit_log_service =
  als_audit_logs :: audit_log_repository
  als_uow :: sqla_unit_of_work

record dynamic_route_service =
  drs_routes :: dynamic_route_repository
  drs_uow :: sqla_unit_of_work
  drs_trino :: nat
  drs_postgres :: "postgres_client option"
  drs_pii_mapper :: "pii_mapper option"

section \<open>Providers\<close>

definition get_unit_of_work :: "session \<Rightarrow> sqla_unit_of_work" where
  "get_unit_of_work s = \<lparr>uow_session = s\<rparr>"

definition get_user_repository :: "session \<Rightarrow> user_repository" where
  "get_user_repository s = \<lparr>ur_session = s\<rparr>"

definition get_account_map_repository :: "session \<Rightarrow> settings \<Rightarrow> exn + account_map_repository" where
  "get_account_map_repository s st =
     (if pii_mapping_snapshot_batch_size st \<le> 0 then Inl (ValueErr ''query_batch_size must be greater than zero'')
      else Inr \<lparr>amr_session = s, amr_query_batch_size = pii_mapping_snapshot_batch_size st\<rparr>)"

definition get_audit_log_repository :: "session \<Rightarrow> audit_log_repository" where
  "get_audit_log_repository s = \<lparr>alr_session = s\<rparr>"

definition get_dynamic_route_repository :: "session \<Rightarrow> dynamic_route_repository" where
  "get_dynamic_route_repository s = \<lparr>drr_session = s\<rparr>"

definition get_auth_service :: "user_repository \<Rightarrow> sqla_unit_of_work \<Rightarrow> settings \<Rightarrow> auth_service" where
  "get_auth_service r u st = \<lparr>as_users = r, as_uow = u, as_settings = st\<rparr>"

definition get_user_service :: "user_repository \<Rightarrow> sqla_unit_of_work \<Rightarrow> settings \<Rightarrow> user_service" where
  "get_user_service r u st = \<lparr>us_users = r, us_uow = u, us_settings = st\<rparr>"

definition get_postgres_client :: "session \<Rightarrow> postgres_client" where
  "get_postgres_client s = \<lparr>pgc_session = s\<rparr>"

definition get_pii_mapper :: "nat \<Rightarrow> pii_mapper" where
  "get_pii_mapper m = \<lparr>pm_mapping_cache = m\<rparr>"

definition get_power_bi_service :: "settings \<Rightarrow> nat \<Rightarrow> pii_mapper \<Rightarrow> sqla_unit_of_work \<Rightarrow> query_service" where
  "get_power_bi_service st tc pm u = \<lparr>qs_settings = st, qs_trino = tc, qs_pii_mapper = pm, qs_uow = u\<rparr>"

definition get_users_data_service :: "settings \<Rightarrow> nat \<Rightarrow> pii_mapper \<Rightarrow> sqla_unit_of_work \<Rightarrow> query_service" where
  "get_users_data_service st tc pm u = \<lparr>qs_settings = st, qs_trino = tc, qs_pii_mapper = pm, qs_uow = u\<rparr>"

definition get_audit_log_service :: "audit_log_repository \<Rightarrow> sqla_unit_of_work \<Rightarrow> audit_log_service" where
  "get_audit_log_service r u = \<lparr>als_audit_logs = r, als_uow = u\<rparr>"

definition get_dynamic_route_service ::
  "dynamic_route_repository \<Rightarrow> sqla_unit_of_work \<Rightarrow> nat \<Rightarrow> postgres_client \<Rightarrow> pii_mapper \<Rightarrow> dynamic_route_service" where
  "get_dynamic_route_service r u tc pg pm =
     \<lparr>drs_routes = r, drs_uow = u, drs_trino = tc, drs_postgres = Some pg, drs_pii_mapper = Some pm\<rparr>"

section \<open>Dependencies\<close>

datatype dependency =
    Oauth2_Scheme | Oauth2_Password_Form | Get_Settings | Get_Db_Session | Get_Pii_Db_Session | Get_Unit_Of_Work
  | Get_User_Repository | Get_Account_Map_Repository | Get_Audit_Log_Repository | Get_Dynamic_Route_Repository
  | Get_Current_User | Require_Roles "role list" | Require_Api_Permission
  | Get_Auth_Service | Get_User_Service | Get_Trino_Client | Get_Postgres_Client | Get_Account_Map
  | Get_Pii_Mapper | Get_Power_Bi_Service | Get_Users_Data_Service | Get_Audit_Log_Service
  | Get_Dynamic_Route_Service

text \<open>The parameters with \<open>Depends\<close> of each provider, in their order.\<close>

fun parameters :: "dependency \<Rightarrow> dependency list" where
  "parameters Oauth2_Scheme = []"
| "parameters Oauth2_Password_Form = []"
| "parameters Get_Settings = []"
| "parameters Get_Db_Session = []"
| "parameters Get_Pii_Db_Session = []"
| "parameters Get_Unit_Of_Work = [Get_Db_Session]"
| "parameters Get_User_Repository = [Get_Db_Session]"
| "parameters Get_Account_Map_Repository = [Get_Pii_Db_Session, Get_Settings]"
| "parameters Get_Audit_Log_Repository = [Get_Db_Session]"
| "parameters Get_Dynamic_Route_Repository = [Get_Db_Session]"
| "parameters Get_Current_User = [Oauth2_Scheme, Get_User_Repository, Get_Settings]"
| "parameters (Require_Roles rs) = [Get_Current_User]"
| "parameters Require_Api_Permission = [Get_Current_User, Get_Audit_Log_Repository, Get_Unit_Of_Work, Get_Settings]"
| "parameters Get_Auth_Service = [Get_User_Repository, Get_Unit_Of_Work, Get_Settings]"
| "parameters Get_User_Service = [Get_User_Repository, Get_Unit_Of_Work, Get_Settings]"
| "parameters Get_Trino_Client = [Get_Settings]"
| "parameters Get_Postgres_Client = [Get_Db_Session]"
| "parameters Get_Account_Map = []"
| "parameters Get_Pii_Mapper = [Get_Account_Map]"
| "parameters Get_Power_Bi_Service = [Get_Settings, Get_Trino_Client, Get_Pii_Mapper, Get_Unit_Of_Work]"
| "parameters Get_Users_Data_Service = [Get_Settings, Get_Trino_Client, Get_Pii_Mapper, Get_Unit_Of_Work]"
| "parameters Get_Audit_Log_Service = [Get_Audit_Log_Repository, Get_Unit_Of_Work]"
| "parameters Get_Dynamic_Route_Service =
     [Get_Dynamic_Route_Repository, Get_Unit_Of_Work, Get_Trino_Client, Get_Postgres_Client, Get_Pii_Mapper]"

text \<open>
  What the framework builds when a route is registered: each dependency with its own, which
  ends because no provider depends on itself.
\<close>

datatype dependant = Dependant dependency "dependant list"

fun depth :: "dependency \<Rightarrow> nat" where
  "depth Get_Unit_Of_Work = 1"
| "depth Get_User_Repository = 1"
| "depth Get_Account_Map_Repository = 1"
| "depth Get_Audit_Log_Repository = 1"
| "depth Get_Dynamic_Route_Repository = 1"
| "depth Get_Current_User = 2"
| "depth (Require_Roles rs) = 3"
| "depth Require_Api_Permission = 3"
| "depth Get_Auth_Service = 2"
| "depth Get_User_Service = 2"
| "depth Get_Trino_Client = 1"
| "depth Get_Postgres_Client = 1"
| "depth Get_Pii_Mapper = 1"
| "depth Get_Power_Bi_Service = 2"
| "depth Get_Users_Data_Service = 2"
| "depth Get_Audit_Log_Service = 2"
| "depth Get_Dynamic_Route_Service = 2"
| "depth d = 0"

lemma parameters_shallower: "e \<in> set (parameters d) \<Longrightarrow> depth e < depth d"
  by (cases d) auto

function get_dependant :: "dependency \<Rightarrow> dependant" where
  "get_dependant d = Dependant d (map get_dependant (parameters d))"
  by pat_completeness auto
termination
  by (relation "measure depth") (auto dest: parameters_shallower)

declare get_dependant.simps [simp del]

section \<open>Resolving a request\<close>

datatype (discs_sels) component =
    A_Token
  | A_Form
  | The_Settings settings
  | A_Session session
  | A_Unit_Of_Work sqla_unit_of_work
  | A_User_Repository user_repository
  | An_Account_Map_Repository account_map_repository
  | An_Audit_Log_Repository audit_log_repository
  | A_Dynamic_Route_Repository dynamic_route_repository
  | A_User user_repository
  | An_Auth_Service auth_service
  | A_User_Service user_service
  | A_Trino_Client nat
  | A_Postgres_Client postgres_client
  | An_Account_Map nat
  | A_Pii_Mapper pii_mapper
  | A_Query_Service query_service
  | An_Audit_Log_Service audit_log_service
  | A_Dynamic_Route_Service dynamic_route_service
  | Unwired

text \<open>
  The module variables of the process, the sessions a request has opened, and the cache of its
  dependencies with the order in which they were called.
\<close>

record wires =
  trino_object :: "nat option"
  map_object :: "nat option"
  next_object :: nat
  opened :: "session list"
  dependency_cache :: "(dependency \<times> component) list"
  called :: "dependency list"

definition open_session :: "(nat \<Rightarrow> session) \<Rightarrow> wires \<Rightarrow> component \<times> wires" where
  "open_session mk w =
     (A_Session (mk (next_object w)), w\<lparr>next_object := Suc (next_object w), opened := opened w @ [mk (next_object w)]\<rparr>)"

text \<open>\<open>get_trino_client\<close> and \<open>get_account_map_in_memory\<close>: made at the first use, then shared\<close>

definition trino_client_object :: "wires \<Rightarrow> component \<times> wires" where
  "trino_client_object w =
     (case trino_object w of
        Some k \<Rightarrow> (A_Trino_Client k, w)
      | None \<Rightarrow> (A_Trino_Client (next_object w),
                 w\<lparr>next_object := Suc (next_object w), trino_object := Some (next_object w)\<rparr>))"

definition account_map_object :: "wires \<Rightarrow> component \<times> wires" where
  "account_map_object w =
     (case map_object w of
        Some k \<Rightarrow> (An_Account_Map k, w)
      | None \<Rightarrow> (An_Account_Map (next_object w),
                 w\<lparr>next_object := Suc (next_object w), map_object := Some (next_object w)\<rparr>))"

text \<open>The call of a provider with the solved values of its parameters.\<close>

definition provide :: "settings \<Rightarrow> dependency \<Rightarrow> component list \<Rightarrow> wires \<Rightarrow> (exn + component) \<times> wires" where
  "provide st d xs w =
     (case d of
        Oauth2_Scheme \<Rightarrow> (case xs of [] \<Rightarrow> (Inr A_Token, w)
          | _ \<Rightarrow> (Inr Unwired, w))
      | Oauth2_Password_Form \<Rightarrow> (case xs of [] \<Rightarrow> (Inr A_Form, w)
          | _ \<Rightarrow> (Inr Unwired, w))
      | Get_Settings \<Rightarrow> (case xs of [] \<Rightarrow> (Inr (The_Settings st), w)
          | _ \<Rightarrow> (Inr Unwired, w))
      | Get_Db_Session \<Rightarrow> (case xs of [] \<Rightarrow> apfst Inr (open_session App_Session w)
          | _ \<Rightarrow> (Inr Unwired, w))
      | Get_Pii_Db_Session \<Rightarrow> (case xs of [] \<Rightarrow> apfst Inr (open_session Pii_Session w)
          | _ \<Rightarrow> (Inr Unwired, w))
      | Get_Unit_Of_Work \<Rightarrow> (case xs of [A_Session s] \<Rightarrow>
            (Inr (A_Unit_Of_Work (get_unit_of_work s)), w)
          | _ \<Rightarrow> (Inr Unwired, w))
      | Get_User_Repository \<Rightarrow> (case xs of [A_Session s] \<Rightarrow>
            (Inr (A_User_Repository (get_user_repository s)), w)
          | _ \<Rightarrow> (Inr Unwired, w))
      | Get_Account_Map_Repository \<Rightarrow> (case xs of [A_Session s, The_Settings c] \<Rightarrow>
            (map_sum id An_Account_Map_Repository (get_account_map_repository s c), w)
          | _ \<Rightarrow> (Inr Unwired, w))
      | Get_Audit_Log_Repository \<Rightarrow> (case xs of [A_Session s] \<Rightarrow>
            (Inr (An_Audit_Log_Repository (get_audit_log_repository s)), w)
          | _ \<Rightarrow> (Inr Unwired, w))
      | Get_Dynamic_Route_Repository \<Rightarrow> (case xs of [A_Session s] \<Rightarrow>
            (Inr (A_Dynamic_Route_Repository (get_dynamic_route_repository s)), w)
          | _ \<Rightarrow> (Inr Unwired, w))
      | Get_Current_User \<Rightarrow> (case xs of [A_Token, A_User_Repository r, The_Settings c] \<Rightarrow>
            (Inr (A_User r), w)
          | _ \<Rightarrow> (Inr Unwired, w))
      | Require_Roles rs \<Rightarrow> (case xs of [A_User r] \<Rightarrow> (Inr (A_User r), w)
          | _ \<Rightarrow> (Inr Unwired, w))
      | Require_Api_Permission \<Rightarrow> (case xs of [A_User r, An_Audit_Log_Repository a, A_Unit_Of_Work u, The_Settings c] \<Rightarrow>
            (Inr (A_User r), w)
          | _ \<Rightarrow> (Inr Unwired, w))
      | Get_Auth_Service \<Rightarrow> (case xs of [A_User_Repository r, A_Unit_Of_Work u, The_Settings c] \<Rightarrow>
            (Inr (An_Auth_Service (get_auth_service r u c)), w)
          | _ \<Rightarrow> (Inr Unwired, w))
      | Get_User_Service \<Rightarrow> (case xs of [A_User_Repository r, A_Unit_Of_Work u, The_Settings c] \<Rightarrow>
            (Inr (A_User_Service (get_user_service r u c)), w)
          | _ \<Rightarrow> (Inr Unwired, w))
      | Get_Trino_Client \<Rightarrow> (case xs of [The_Settings c] \<Rightarrow>
            apfst Inr (trino_client_object w)
          | _ \<Rightarrow> (Inr Unwired, w))
      | Get_Postgres_Client \<Rightarrow> (case xs of [A_Session s] \<Rightarrow>
            (Inr (A_Postgres_Client (get_postgres_client s)), w)
          | _ \<Rightarrow> (Inr Unwired, w))
      | Get_Account_Map \<Rightarrow> (case xs of [] \<Rightarrow> apfst Inr (account_map_object w)
          | _ \<Rightarrow> (Inr Unwired, w))
      | Get_Pii_Mapper \<Rightarrow> (case xs of [An_Account_Map m] \<Rightarrow>
            (Inr (A_Pii_Mapper (get_pii_mapper m)), w)
          | _ \<Rightarrow> (Inr Unwired, w))
      | Get_Power_Bi_Service \<Rightarrow> (case xs of [The_Settings c, A_Trino_Client tc, A_Pii_Mapper pm, A_Unit_Of_Work u] \<Rightarrow>
            (Inr (A_Query_Service (get_power_bi_service c tc pm u)), w)
          | _ \<Rightarrow> (Inr Unwired, w))
      | Get_Users_Data_Service \<Rightarrow> (case xs of [The_Settings c, A_Trino_Client tc, A_Pii_Mapper pm, A_Unit_Of_Work u] \<Rightarrow>
            (Inr (A_Query_Service (get_users_data_service c tc pm u)), w)
          | _ \<Rightarrow> (Inr Unwired, w))
      | Get_Audit_Log_Service \<Rightarrow> (case xs of [An_Audit_Log_Repository a, A_Unit_Of_Work u] \<Rightarrow>
            (Inr (An_Audit_Log_Service (get_audit_log_service a u)), w)
          | _ \<Rightarrow> (Inr Unwired, w))
      | Get_Dynamic_Route_Service \<Rightarrow> (case xs of [A_Dynamic_Route_Repository r, A_Unit_Of_Work u, A_Trino_Client tc, A_Postgres_Client pg, A_Pii_Mapper pm] \<Rightarrow>
            (Inr (A_Dynamic_Route_Service (get_dynamic_route_service r u tc pg pm)), w)
          | _ \<Rightarrow> (Inr Unwired, w)))"

text \<open>
  The framework solves the parameters first, then takes the value from the request's cache or calls the
  provider. \<open>refuse d\<close> is the exception the body of \<open>d\<close> raises for this request, if any; it
  ends the resolution.
\<close>

definition call_provider ::
  "settings \<Rightarrow> (dependency \<Rightarrow> exn option) \<Rightarrow> dependency \<Rightarrow> component list \<Rightarrow> wires \<Rightarrow> (exn + component) \<times> wires" where
  "call_provider st refuse d xs w =
     (case dget (dependency_cache w) d of
        Some x \<Rightarrow> (Inr x, w)
      | None \<Rightarrow>
          (let w1 = w\<lparr>called := called w @ [d]\<rparr>
           in case refuse d of
                Some e \<Rightarrow> (Inl e, w1)
              | None \<Rightarrow>
                  (case provide st d xs w1 of
                     (Inl e, w2) \<Rightarrow> (Inl e, w2)
                   | (Inr x, w2) \<Rightarrow> (Inr x, w2\<lparr>dependency_cache := (d, x) # dependency_cache w2\<rparr>))))"

fun solve :: "settings \<Rightarrow> (dependency \<Rightarrow> exn option) \<Rightarrow> dependant \<Rightarrow> wires \<Rightarrow> (exn + component) \<times> wires"
  and solve_all ::
    "settings \<Rightarrow> (dependency \<Rightarrow> exn option) \<Rightarrow> dependant list \<Rightarrow> wires \<Rightarrow> (exn + component list) \<times> wires"
where
  "solve st refuse (Dependant d ds) w =
     (case solve_all st refuse ds w of
        (Inl e, w1) \<Rightarrow> (Inl e, w1)
      | (Inr xs, w1) \<Rightarrow> call_provider st refuse d xs w1)"
| "solve_all st refuse [] w = (Inr [], w)"
| "solve_all st refuse (t # ts) w =
     (case solve st refuse t w of
        (Inl e, w1) \<Rightarrow> (Inl e, w1)
      | (Inr x, w1) \<Rightarrow>
          (case solve_all st refuse ts w1 of
             (Inl e, w2) \<Rightarrow> (Inl e, w2)
           | (Inr xs, w2) \<Rightarrow> (Inr (x # xs), w2)))"

section \<open>The endpoints\<close>

text \<open>The dependencies of the router, then the parameters of the function, in their order.\<close>

definition endpoint_dependencies :: "(string \<times> dependency list) list" where
  "endpoint_dependencies =
     [(''health_check'', [Get_Db_Session]),
      (''login'', [Get_Auth_Service]), (''token'', [Oauth2_Password_Form, Get_Auth_Service]), (''refresh_token'', [Get_Auth_Service]),
      (''get_me'', [Get_Current_User]), (''change_password'', [Get_Current_User, Get_User_Service]),
      (''create_user'', [Require_Api_Permission, Require_Roles [RoleAdmin], Get_User_Service]),
      (''list_users'', [Require_Api_Permission, Require_Roles [RoleAdmin], Get_User_Service]),
      (''update_me'', [Require_Api_Permission, Get_Current_User, Get_User_Service]),
      (''delete_me'', [Require_Api_Permission, Get_Current_User, Get_User_Service]),
      (''get_user'', [Require_Api_Permission, Require_Roles [RoleAdmin], Get_User_Service]),
      (''update_user'', [Require_Api_Permission, Require_Roles [RoleAdmin], Get_User_Service]),
      (''delete_user'', [Require_Api_Permission, Require_Roles [RoleAdmin], Get_User_Service]),
      (''list_users_data'', [Require_Api_Permission, Get_Current_User, Get_Users_Data_Service, Get_Audit_Log_Service]),
      (''get_deeplink_1'', [Require_Api_Permission, Get_Current_User, Get_Power_Bi_Service, Get_Audit_Log_Service]),
      (''get_deeplink_2'', [Require_Api_Permission, Get_Current_User, Get_Power_Bi_Service, Get_Audit_Log_Service]),
      (''create_dynamic_route'', [Require_Roles [RoleAdmin], Get_Dynamic_Route_Service, Get_Audit_Log_Service, Get_Settings]),
      (''list_dynamic_routes'', [Require_Roles [RoleAdmin], Get_Dynamic_Route_Service]),
      (''get_dynamic_route'', [Require_Roles [RoleAdmin], Get_Dynamic_Route_Service]),
      (''update_dynamic_route'', [Require_Roles [RoleAdmin], Get_Dynamic_Route_Service, Get_Audit_Log_Service, Get_Settings]),
      (''delete_dynamic_route'', [Require_Roles [RoleAdmin], Get_Dynamic_Route_Service, Get_Audit_Log_Service]),
      (''execute_dynamic_route'', [Require_Api_Permission, Get_Dynamic_Route_Service, Get_Audit_Log_Service])]"

text \<open>A request starts with an empty cache on what the process holds.\<close>

definition resolve :: "settings \<Rightarrow> (dependency \<Rightarrow> exn option) \<Rightarrow> dependency list \<Rightarrow> wires \<Rightarrow> (exn + component list) \<times> wires" where
  "resolve st refuse ds p =
     solve_all st refuse (map get_dependant ds) (p\<lparr>opened := [], dependency_cache := [], called := []\<rparr>)"

text \<open>The table has the endpoints of the routers, in the order of registration.\<close>

lemma endpoints_of_the_routers: "map fst endpoint_dependencies = map (\<lambda>(m, p, e). e) api_router"
  by code_simp

section \<open>What a component holds\<close>

definition list_option :: "'a option \<Rightarrow> 'a list" where
  "list_option x = (case x of None \<Rightarrow> [] | Some y \<Rightarrow> [y])"

fun sessions_in :: "component \<Rightarrow> session list" where
  "sessions_in (A_Session s) = [s]"
| "sessions_in (A_Unit_Of_Work u) = [uow_session u]"
| "sessions_in (A_User_Repository r) = [ur_session r]"
| "sessions_in (An_Account_Map_Repository r) = [amr_session r]"
| "sessions_in (An_Audit_Log_Repository r) = [alr_session r]"
| "sessions_in (A_Dynamic_Route_Repository r) = [drr_session r]"
| "sessions_in (A_User r) = [ur_session r]"
| "sessions_in (An_Auth_Service a) = [ur_session (as_users a), uow_session (as_uow a)]"
| "sessions_in (A_User_Service a) = [ur_session (us_users a), uow_session (us_uow a)]"
| "sessions_in (A_Postgres_Client c) = [pgc_session c]"
| "sessions_in (A_Query_Service q) = [uow_session (qs_uow q)]"
| "sessions_in (An_Audit_Log_Service a) = [alr_session (als_audit_logs a), uow_session (als_uow a)]"
| "sessions_in (A_Dynamic_Route_Service d) =
     [drr_session (drs_routes d), uow_session (drs_uow d)] @ map pgc_session (list_option (drs_postgres d))"
| "sessions_in x = []"

fun clients_in :: "component \<Rightarrow> nat list" where
  "clients_in (A_Trino_Client k) = [k]"
| "clients_in (A_Query_Service q) = [qs_trino q]"
| "clients_in (A_Dynamic_Route_Service d) = [drs_trino d]"
| "clients_in x = []"

fun maps_in :: "component \<Rightarrow> nat list" where
  "maps_in (An_Account_Map m) = [m]"
| "maps_in (A_Pii_Mapper p) = [pm_mapping_cache p]"
| "maps_in (A_Query_Service q) = [pm_mapping_cache (qs_pii_mapper q)]"
| "maps_in (A_Dynamic_Route_Service d) = map pm_mapping_cache (list_option (drs_pii_mapper d))"
| "maps_in x = []"

text \<open>Everything a component holds is a session of the request, the process's client or its map.\<close>

definition shared :: "wires \<Rightarrow> component \<Rightarrow> bool" where
  "shared w x \<longleftrightarrow> set (sessions_in x) \<subseteq> set (opened w) \<and> set (clients_in x) \<subseteq> set_option (trino_object w) \<and>
     set (maps_in x) \<subseteq> set_option (map_object w)"

text \<open>A provider returns what its annotation says.\<close>

definition fits :: "dependency \<Rightarrow> component \<Rightarrow> bool" where
  "fits d x =
     (case d of
        Oauth2_Scheme \<Rightarrow> x = A_Token
      | Oauth2_Password_Form \<Rightarrow> x = A_Form
      | Get_Settings \<Rightarrow> is_The_Settings x
      | Get_Db_Session \<Rightarrow> is_A_Session x
      | Get_Pii_Db_Session \<Rightarrow> is_A_Session x
      | Get_Unit_Of_Work \<Rightarrow> is_A_Unit_Of_Work x
      | Get_User_Repository \<Rightarrow> is_A_User_Repository x
      | Get_Account_Map_Repository \<Rightarrow> is_An_Account_Map_Repository x
      | Get_Audit_Log_Repository \<Rightarrow> is_An_Audit_Log_Repository x
      | Get_Dynamic_Route_Repository \<Rightarrow> is_A_Dynamic_Route_Repository x
      | Get_Current_User \<Rightarrow> is_A_User x
      | Require_Roles rs \<Rightarrow> is_A_User x
      | Require_Api_Permission \<Rightarrow> is_A_User x
      | Get_Auth_Service \<Rightarrow> is_An_Auth_Service x
      | Get_User_Service \<Rightarrow> is_A_User_Service x
      | Get_Trino_Client \<Rightarrow> is_A_Trino_Client x
      | Get_Postgres_Client \<Rightarrow> is_A_Postgres_Client x
      | Get_Account_Map \<Rightarrow> is_An_Account_Map x
      | Get_Pii_Mapper \<Rightarrow> is_A_Pii_Mapper x
      | Get_Power_Bi_Service \<Rightarrow> is_A_Query_Service x
      | Get_Users_Data_Service \<Rightarrow> is_A_Query_Service x
      | Get_Audit_Log_Service \<Rightarrow> is_An_Audit_Log_Service x
      | Get_Dynamic_Route_Service \<Rightarrow> is_A_Dynamic_Route_Service x)"

definition grows :: "wires \<Rightarrow> wires \<Rightarrow> bool" where
  "grows w v \<longleftrightarrow> set (opened w) \<subseteq> set (opened v) \<and>
     (trino_object w = None \<or> trino_object v = trino_object w) \<and> (map_object w = None \<or> map_object v = map_object w)"

lemma grows_refl: "grows w w" and grows_trans: "grows u v \<Longrightarrow> grows v w \<Longrightarrow> grows u w"
  by (auto simp: grows_def)

lemma shared_grows: "grows w v \<Longrightarrow> shared w x \<Longrightarrow> shared v x"
  by (auto simp: grows_def shared_def)

definition app_sessions :: "wires \<Rightarrow> nat" where
  "app_sessions w = length (filter is_App_Session (opened w))"

definition pii_sessions :: "wires \<Rightarrow> nat" where
  "pii_sessions w = length (filter (\<lambda>s. \<not> is_App_Session s) (opened w))"

lemmas provider_defs = list_option_def get_unit_of_work_def get_user_repository_def get_account_map_repository_def
  get_audit_log_repository_def get_dynamic_route_repository_def get_auth_service_def get_user_service_def
  get_postgres_client_def get_pii_mapper_def get_power_bi_service_def get_users_data_service_def
  get_audit_log_service_def get_dynamic_route_service_def

lemma provide_sound:
  assumes "list_all2 fits (parameters d) xs" "\<forall>x \<in> set xs. shared w x" "provide st d xs w = (r, v)"
  shows "grows w v \<and> dependency_cache v = dependency_cache w \<and> called v = called w \<and>
     app_sessions v = app_sessions w + (if d = Get_Db_Session then 1 else 0) \<and>
     pii_sessions v = pii_sessions w + (if d = Get_Pii_Db_Session then 1 else 0) \<and>
     (case r of Inl e \<Rightarrow> d = Get_Account_Map_Repository | Inr x \<Rightarrow> fits d x \<and> shared v x)"
  using assms
  by (cases d)
     (auto simp: provide_def fits_def list_all2_Cons1 grows_def shared_def app_sessions_def pii_sessions_def provider_defs
        open_session_def trino_client_object_def account_map_object_def
        is_The_Settings_def is_A_Session_def is_A_Unit_Of_Work_def is_A_User_Repository_def
        is_An_Audit_Log_Repository_def is_A_Dynamic_Route_Repository_def is_A_User_def is_A_Trino_Client_def
        is_A_Postgres_Client_def is_An_Account_Map_def is_A_Pii_Mapper_def
        split: option.splits if_splits)

section \<open>Facts about the resolution\<close>

text \<open>Each provider was called once and opened at most its session.\<close>

definition orderly :: "wires \<Rightarrow> bool" where
  "orderly w \<longleftrightarrow> distinct (called w) \<and>
     app_sessions w \<le> (if Get_Db_Session \<in> set (called w) then 1 else 0) \<and>
     pii_sessions w \<le> (if Get_Pii_Db_Session \<in> set (called w) then 1 else 0)"

text \<open>While nothing has been refused, what was called is cached.\<close>

definition wired :: "wires \<Rightarrow> bool" where
  "wired w \<longleftrightarrow> orderly w \<and> set (dkeys (dependency_cache w)) = set (called w) \<and>
     (\<forall>(d, x) \<in> set (dependency_cache w). fits d x \<and> shared w x)"

fun proper :: "dependant \<Rightarrow> bool" where
  "proper (Dependant d ds) \<longleftrightarrow> ds = map get_dependant (parameters d) \<and> list_all proper ds"

lemma proper_get_dependant: "proper (get_dependant d)"
proof (induction d rule: get_dependant.induct)
  case (1 d)
  then show ?case by (simp add: list_all_iff get_dependant.simps [of d])
qed

fun root_of :: "dependant \<Rightarrow> dependency" where
  "root_of (Dependant d ds) = d"

lemma root_of_get_dependant [simp]: "root_of (get_dependant d) = d"
  by (simp add: get_dependant.simps)

text \<open>The order of the calls: parameters first.\<close>

fun calls :: "dependant \<Rightarrow> dependency list" where
  "calls (Dependant d ds) = concat (map calls ds) @ [d]"

text \<open>
  Up to a refusal the calls are those listed; the refused provider is the last, and nothing that
  is listed only after it was called.
\<close>

definition refused_at :: "(dependency \<Rightarrow> exn option) \<Rightarrow> exn \<Rightarrow> dependency list \<Rightarrow> wires \<Rightarrow> wires \<Rightarrow> bool" where
  "refused_at refuse e ds w v \<longleftrightarrow>
     (\<exists>pre d post. ds = pre @ d # post \<and> d \<notin> set pre \<union> set (called w) \<and> last (called v) = d \<and>
        set (called v) = set (called w) \<union> set pre \<union> {d} \<and>
        (refuse d = Some e \<or> refuse d = None \<and> d = Get_Account_Map_Repository))"

definition solves ::
  "(dependency \<Rightarrow> exn option) \<Rightarrow> wires \<Rightarrow> dependency list \<Rightarrow> ('a \<Rightarrow> wires \<Rightarrow> bool) \<Rightarrow> (exn + 'a) \<times> wires \<Rightarrow> bool" where
  "solves refuse w ds P o1 =
     (case o1 of (r, v) \<Rightarrow> grows w v \<and>
        (case r of
           Inl e \<Rightarrow> orderly v \<and> refused_at refuse e ds w v
         | Inr x \<Rightarrow> wired v \<and> set (called v) = set (called w) \<union> set ds \<and> P x v))"

lemma solves_refused: "solves refuse w ds P (Inl e, v) \<Longrightarrow> solves refuse w (ds @ es) Q (Inl e, v)"
  unfolding solves_def refused_at_def by (simp; metis append.assoc append_Cons)

lemma solves_then:
  assumes "solves refuse w ds P (Inr x, w1)" "solves refuse w1 es Q o1"
  shows "solves refuse w (ds @ es) Q o1"
proof -
  obtain r v where o1: "o1 = (r, v)" by (cases o1)
  from assms o1 have g: "grows w v" using grows_trans by (fastforce simp: solves_def)
  have c: "set (called w1) = set (called w) \<union> set ds" using assms(1) by (simp add: solves_def)
  show ?thesis
  proof (cases r)
    case (Inl e)
    with assms(2) o1 obtain pre d post where at: "es = pre @ d # post" "d \<notin> set pre \<union> set (called w1)"
      "last (called v) = d" "set (called v) = set (called w1) \<union> set pre \<union> {d}"
      "refuse d = Some e \<or> refuse d = None \<and> d = Get_Account_Map_Repository" "orderly v"
      by (auto simp: solves_def refused_at_def)
    then have "refused_at refuse e (ds @ es) w v"
      unfolding refused_at_def using c by (intro exI [of _ "ds @ pre"] exI [of _ d] exI [of _ post]) auto
    with g at(6) o1 Inl show ?thesis by (simp add: solves_def)
  next
    case (Inr y)
    with assms(2) g c o1 show ?thesis by (auto simp: solves_def)
  qed
qed

text \<open>One call: from the cache, refused, or made.\<close>

lemma call_solves:
  assumes "wired w" "list_all2 fits (parameters d) xs" "\<forall>x \<in> set xs. shared w x"
  shows "solves refuse w [d] (\<lambda>x v. fits d x \<and> shared v x) (call_provider st refuse d xs w)"
proof (cases "dget (dependency_cache w) d")
  case (Some x)
  then have "(d, x) \<in> set (dependency_cache w)" by (rule map_of_SomeD)
  then have "fits d x" "shared w x" "d \<in> set (dkeys (dependency_cache w))"
    using assms(1) by (auto simp: wired_def image_iff) force+
  with Some assms(1) show ?thesis by (auto simp: call_provider_def solves_def grows_refl wired_def)
next
  case None
  then have new: "d \<notin> set (called w)" using assms(1) by (auto simp: wired_def map_of_eq_None_iff)
  let ?w = "w\<lparr>called := called w @ [d]\<rparr>"
  have w: "grows w ?w" "app_sessions ?w = app_sessions w" "pii_sessions ?w = pii_sessions w"
    by (simp_all add: grows_def app_sessions_def pii_sessions_def)
  have ord: "orderly ?w" using assms(1) new w by (auto simp: wired_def orderly_def)
  have here: "refused_at refuse e [d] w v" if "called v = called w @ [d]"
      "refuse d = Some e \<or> refuse d = None \<and> d = Get_Account_Map_Repository" for e v
    unfolding refused_at_def using new that by (intro exI [of _ "[]"] exI [of _ d]) auto
  have shared: "\<forall>x \<in> set xs. shared ?w x" using assms(3) shared_grows [OF w(1)] by blast
  obtain r v where run: "provide st d xs ?w = (r, v)" by force
  note sound = provide_sound [OF assms(2) shared run]
  have grow: "grows w v" using grows_trans [OF w(1)] sound by blast
  have ord': "orderly v" using assms(1) new sound w by (auto simp: orderly_def wired_def)
  let ?v = "\<lambda>x. v\<lparr>dependency_cache := (d, x) # dependency_cache v\<rparr>"
  have ex: "grows v (?v x)" "orderly (?v x)" for x
    using ord' by (auto simp: grows_def orderly_def app_sessions_def pii_sessions_def)
  show ?thesis
  proof (cases "refuse d")
    case (Some e)
    have "call_provider st refuse d xs w = (Inl e, ?w)" using None Some by (simp add: call_provider_def Let_def)
    with w(1) ord here [of ?w e] Some show ?thesis by (simp add: solves_def)
  next
    case accepted: None
    show ?thesis
    proof (cases r)
      case (Inl e)
      have "call_provider st refuse d xs w = (Inl e, v)"
        using None accepted run Inl by (simp add: call_provider_def Let_def)
      with grow ord' here [of v e] accepted sound Inl show ?thesis by (simp add: solves_def)
    next
      case (Inr x)
      have "call_provider st refuse d xs w = (Inr x, ?v x)"
        using None accepted run Inr by (simp add: call_provider_def Let_def)
      moreover have "wired (?v x)" "shared (?v x) x"
        using Inr sound ex [of x] shared_grows [OF ex(1) [of x]] shared_grows [OF grow] assms(1) by (auto simp: wired_def)
      ultimately show ?thesis
        using grows_trans [OF grow ex(1) [of x]] sound Inr by (auto simp: solves_def)
    qed
  qed
qed

lemma solve_sound:
  "wired w \<Longrightarrow> proper t \<Longrightarrow> solves refuse w (calls t) (\<lambda>x v. fits (root_of t) x \<and> shared v x) (solve st refuse t w)"
  "wired w \<Longrightarrow> list_all proper ts \<Longrightarrow>
   solves refuse w (concat (map calls ts)) (\<lambda>xs v. list_all2 fits (map root_of ts) xs \<and> (\<forall>x \<in> set xs. shared v x))
     (solve_all st refuse ts w)"
proof (induction st refuse t w and st refuse ts w rule: solve_solve_all.induct)
  case (1 st refuse d ds w)
  then have params: "solves refuse w (concat (map calls ds))
      (\<lambda>xs v. list_all2 fits (map root_of ds) xs \<and> (\<forall>x \<in> set xs. shared v x)) (solve_all st refuse ds w)"
    and ds: "map root_of ds = parameters d" by (auto simp: comp_def)
  show ?case
  proof (cases "solve_all st refuse ds w")
    case (Pair r w1)
    show ?thesis
    proof (cases r)
      case (Inl e)
      with Pair params show ?thesis by (simp add: solves_refused)
    next
      case (Inr xs)
      note first = params [unfolded Pair Inr]
      then have "wired w1" "list_all2 fits (parameters d) xs" "\<forall>x \<in> set xs. shared w1 x"
        by (simp_all add: solves_def ds [symmetric])
      from solves_then [OF first call_solves [OF this]] Pair Inr show ?thesis by simp
    qed
  qed
next
  case (2 st refuse w)
  then show ?case by (simp add: solves_def grows_refl)
next
  case (3 st refuse t ts w)
  then have one: "solves refuse w (calls t) (\<lambda>x v. fits (root_of t) x \<and> shared v x) (solve st refuse t w)" by simp
  show ?case
  proof (cases "solve st refuse t w")
    case (Pair r w1)
    show ?thesis
    proof (cases r)
      case (Inl e)
      with Pair one show ?thesis by (simp add: solves_refused)
    next
      case (Inr x)
      note first = one [unfolded Pair Inr]
      then have w1: "wired w1" "fits (root_of t) x" "shared w1 x" by (simp_all add: solves_def)
      from 3(2) [OF Pair [symmetric] Inr w1(1)] 3(4)
      have "solves refuse w1 (concat (map calls ts))
        (\<lambda>xs v. list_all2 fits (map root_of ts) xs \<and> (\<forall>x \<in> set xs. shared v x)) (solve_all st refuse ts w1)" by simp
      then have rest: "solves refuse w1 (concat (map calls ts))
        (\<lambda>xs v. list_all2 fits (map root_of (t # ts)) (x # xs) \<and> (\<forall>y \<in> set (x # xs). shared v y)) (solve_all st refuse ts w1)"
        using w1 shared_grows by (auto simp: solves_def split: sum.splits prod.splits)
      from solves_then [OF first rest] Pair Inr show ?thesis
        by (auto simp: solves_def split: sum.splits prod.splits)
    qed
  qed
qed

section \<open>Facts about the table\<close>

fun guard :: "dependency \<Rightarrow> bool" where
  "guard Oauth2_Scheme = True"
| "guard Get_Current_User = True"
| "guard (Require_Roles rs) = True"
| "guard Require_Api_Permission = True"
| "guard d = False"

fun service :: "dependency \<Rightarrow> bool" where
  "service Get_Auth_Service = True"
| "service Get_User_Service = True"
| "service Get_Power_Bi_Service = True"
| "service Get_Users_Data_Service = True"
| "service Get_Audit_Log_Service = True"
| "service Get_Dynamic_Route_Service = True"
| "service d = False"

fun guards_first :: "dependency list \<Rightarrow> bool" where
  "guards_first [] = True"
| "guards_first (d # ds) \<longleftrightarrow> (\<not> service d \<or> list_all (\<lambda>e. \<not> guard e) ds) \<and> guards_first ds"

lemma guards_first_before: "guards_first (pre @ d # post) \<Longrightarrow> guard d \<Longrightarrow> list_all (\<lambda>e. \<not> service e) pre"
  by (induction pre) auto

lemma guard_no_service: "guard d \<Longrightarrow> \<not> service d"
  by (cases d) auto

definition request_calls :: "dependency list \<Rightarrow> dependency list" where
  "request_calls ds = concat (map calls (map get_dependant ds))"

lemma table_checked:
  "list_all (\<lambda>(name, ds). Get_Pii_Db_Session \<notin> set (request_calls ds) \<and>
     Get_Account_Map_Repository \<notin> set (request_calls ds) \<and> guards_first (request_calls ds)) endpoint_dependencies"
  by code_simp

lemma table_entry:
  "(name, ds) \<in> set endpoint_dependencies \<Longrightarrow> Get_Pii_Db_Session \<notin> set (request_calls ds) \<and>
     Get_Account_Map_Repository \<notin> set (request_calls ds) \<and> guards_first (request_calls ds)"
  using table_checked by (auto simp: list_all_iff)

lemma request_solves:
  "solves refuse (p\<lparr>opened := [], dependency_cache := [], called := []\<rparr>) (request_calls ds)
     (\<lambda>xs v. list_all2 fits ds xs \<and> (\<forall>x \<in> set xs. shared v x)) (resolve st refuse ds p)"
proof -
  have "wired (p\<lparr>opened := [], dependency_cache := [], called := []\<rparr>)"
    by (simp add: wired_def orderly_def app_sessions_def pii_sessions_def)
  moreover have "list_all proper (map get_dependant ds)" by (simp add: list_all_iff proper_get_dependant)
  ultimately show ?thesis using solve_sound(2) unfolding resolve_def request_calls_def by (fastforce simp: comp_def)
qed

section \<open>Properties\<close>

text \<open>C16: one request, one session: for every endpoint, resolving its dependencies calls each provider
  at most once and opens at most one session, of the application's database and never of the PII
  database; the client and the map of the process are kept where there are any; and when nothing
  is refused, every dependency gets an object of its annotated type, in which all repositories, the
  unit of work and the PostgreSQL client are bound to that session, all Trino queries go to the
  process's client and all mappings to its map. So what a repository writes is what the unit of
  work commits.\<close>

theorem one_session_per_request:
  assumes "(name, ds) \<in> set endpoint_dependencies" and "resolve st refuse ds p = (r, w)"
  shows "distinct (called w) \<and> length (opened w) \<le> 1 \<and> list_all is_App_Session (opened w) \<and>
     (trino_object p = None \<or> trino_object w = trino_object p) \<and> (map_object p = None \<or> map_object w = map_object p) \<and>
     (case r of
        Inl e \<Rightarrow> True
      | Inr xs \<Rightarrow> list_all2 fits ds xs \<and>
          (\<forall>x \<in> set xs. set (sessions_in x) \<subseteq> set (opened w) \<and> set (clients_in x) \<subseteq> set_option (trino_object w) \<and>
             set (maps_in x) \<subseteq> set_option (map_object w)))"
proof -
  note sol = request_solves [where refuse = refuse and p = p and ds = ds and st = st, unfolded assms(2)]
  then have g: "trino_object p = None \<or> trino_object w = trino_object p" "map_object p = None \<or> map_object w = map_object p"
    by (auto simp: solves_def grows_def)
  have o: "orderly w" using sol by (auto simp: solves_def wired_def split: sum.splits)
  have "set (called w) \<subseteq> set (request_calls ds)"
    using sol by (fastforce simp: solves_def refused_at_def split: sum.splits)
  with table_entry [OF assms(1)] have "Get_Pii_Db_Session \<notin> set (called w)" by blast
  with o have count: "distinct (called w)" "app_sessions w \<le> 1" "pii_sessions w = 0"
    by (auto simp: orderly_def split: if_splits)
  have "length (opened w) = app_sessions w + pii_sessions w"
    by (simp add: app_sessions_def pii_sessions_def sum_length_filter_compl)
  moreover have "list_all is_App_Session (opened w)"
    using count(3) by (auto simp: pii_sessions_def filter_empty_conv list_all_iff)
  ultimately show ?thesis using g count sol by (auto simp: solves_def shared_def split: sum.splits)
qed

text \<open>A process whose client exists and whose map does not, and a user without the role.\<close>

definition demo_wires :: wires where
  "demo_wires = \<lparr>trino_object = Some 3, map_object = None, next_object = 7, opened = [], dependency_cache = [], called = []\<rparr>"

definition refuse_roles :: "dependency \<Rightarrow> exn option" where
  "refuse_roles d = (case d of Require_Roles rs \<Rightarrow> Some (authorization_error ''Not enough permissions'') | _ \<Rightarrow> None)"

lemma demo_resolved:
  "case resolve default_settings (\<lambda>_. None) [Require_Api_Permission, Get_Dynamic_Route_Service, Get_Audit_Log_Service] demo_wires of
     (r, w) \<Rightarrow> opened w = [App_Session 7] \<and> map_object w = Some 8"
  by code_simp

theorem one_session_per_request_witness:
  "\<exists>r w. resolve default_settings (\<lambda>_. None) [Require_Api_Permission, Get_Dynamic_Route_Service, Get_Audit_Log_Service] demo_wires =
       (r, w) \<and> distinct (called w) \<and> opened w = [App_Session 7] \<and> trino_object w = Some 3"
proof -
  let ?ds = "[Require_Api_Permission, Get_Dynamic_Route_Service, Get_Audit_Log_Service]"
  have entry: "(''execute_dynamic_route'', ?ds) \<in> set endpoint_dependencies" by (simp add: endpoint_dependencies_def)
  obtain r w where run: "resolve default_settings (\<lambda>_. None) ?ds demo_wires = (r, w)" by force
  from one_session_per_request [OF entry run] demo_resolved run show ?thesis by (auto simp: demo_wires_def split: prod.splits)
qed

text \<open>C17: nothing is built for a request that is refused: for every endpoint, when only the checks of the
  token, the role and the permission refuse, a refused request ends with the error of the check that
  refused, and no service had been made by then.\<close>

theorem guards_before_services:
  assumes "(name, ds) \<in> set endpoint_dependencies" and "resolve st refuse ds p = (Inl e, w)"
    and "\<And>d. guard d \<or> refuse d = None"
  shows "guard (last (called w)) \<and> refuse (last (called w)) = Some e \<and> list_all (\<lambda>d. \<not> service d) (called w)"
proof -
  from request_solves [where refuse = refuse and p = p and ds = ds and st = st] assms(2)
  obtain pre d post where at: "request_calls ds = pre @ d # post" "last (called w) = d"
    "set (called w) = set pre \<union> {d}" "refuse d = Some e \<or> refuse d = None \<and> d = Get_Account_Map_Repository"
    by (auto simp: solves_def refused_at_def)
  note entry = table_entry [OF assms(1)]
  have "d \<in> set (request_calls ds)" unfolding at(1) by simp
  with entry at(4) have d: "refuse d = Some e" by blast
  with assms(3) [of d] have "guard d" by simp
  moreover have "list_all (\<lambda>d. \<not> service d) pre"
    using guards_first_before [of pre d post] entry at(1) \<open>guard d\<close> by simp
  ultimately have "list_all (\<lambda>d. \<not> service d) (called w)"
    unfolding list_all_iff at(3) using guard_no_service by blast
  then show ?thesis unfolding at(2) using d \<open>guard d\<close> by blast
qed

lemma demo_refused:
  "isl (fst (resolve default_settings refuse_roles [Require_Api_Permission, Require_Roles [RoleAdmin], Get_User_Service] demo_wires))"
  by code_simp

theorem guards_before_services_witness:
  "\<exists>e w. resolve default_settings refuse_roles [Require_Api_Permission, Require_Roles [RoleAdmin], Get_User_Service] demo_wires =
       (Inl e, w) \<and> refuse_roles (last (called w)) = Some e \<and> Get_User_Service \<notin> set (called w)"
proof -
  let ?ds = "[Require_Api_Permission, Require_Roles [RoleAdmin], Get_User_Service]"
  have entry: "(''delete_user'', ?ds) \<in> set endpoint_dependencies" by (simp add: endpoint_dependencies_def)
  obtain e w where run: "resolve default_settings refuse_roles ?ds demo_wires = (Inl e, w)"
    using demo_refused by (cases "resolve default_settings refuse_roles ?ds demo_wires") (auto simp: isl_def)
  have "guard d \<or> refuse_roles d = None" for d by (cases d) (simp_all add: refuse_roles_def)
  from guards_before_services [OF entry run this] run show ?thesis by (auto simp: list_all_iff)
qed

end
