(* ===== verification/Route_Updates.thy ===== *)
theory Route_Updates
  imports Route_Execution
begin

text \<open>
  Updates of dynamic routes (\<open>DynamicRouteService.update_route\<close> over the session's change
  tracking): what an update makes of a row that another transaction has changed since it was
  loaded.
\<close>

section \<open>The row an update leaves\<close>

text \<open>
  The session sends the columns whose new value differs from the loaded one; the others keep what
  the table has by then. Between the loaded row \<open>old\<close>, the current row \<open>mid\<close> and the payload
  that is a three-way merge.
\<close>

definition pick :: "'a \<Rightarrow> 'a \<Rightarrow> 'a \<Rightarrow> 'a" where
  "pick old mid new = (if new = old then mid else new)"

definition merged_columns :: "dynamic_route \<Rightarrow> dynamic_route \<Rightarrow> dynamic_route \<Rightarrow> dynamic_route" where
  "merged_columns old mid new =
     mid\<lparr>dr_prefix := pick (dr_prefix old) (dr_prefix mid) (dr_prefix new),
         dr_path := pick (dr_path old) (dr_path mid) (dr_path new),
         dr_description := pick (dr_description old) (dr_description mid) (dr_description new),
         dr_original_sql := pick (dr_original_sql old) (dr_original_sql mid) (dr_original_sql new),
         dr_canonical_sql := pick (dr_canonical_sql old) (dr_canonical_sql mid) (dr_canonical_sql new),
         dr_parameter_definitions :=
           pick (dr_parameter_definitions old) (dr_parameter_definitions mid) (dr_parameter_definitions new),
         dr_db_type := pick (dr_db_type old) (dr_db_type mid) (dr_db_type new),
         dr_pii_type := pick (dr_pii_type old) (dr_pii_type mid) (dr_pii_type new),
         dr_response_type := pick (dr_response_type old) (dr_response_type mid) (dr_response_type new),
         dr_updated_by := pick (dr_updated_by old) (dr_updated_by mid) (dr_updated_by new)\<rparr>"

definition same_columns :: "dynamic_route \<Rightarrow> dynamic_route \<Rightarrow> bool" where
  "same_columns old new \<longleftrightarrow> merged_columns old old new = old"

definition merged_route :: "int \<Rightarrow> dynamic_route \<Rightarrow> dynamic_route \<Rightarrow> dynamic_route \<Rightarrow> dynamic_route" where
  "merged_route t old mid new =
     (if same_columns old new then mid else (merged_columns old mid new)\<lparr>dr_updated_at := t\<rparr>)"

lemma pick_same [simp]: "pick x x y = y"
  by (simp add: pick_def)

text \<open>Without a change in between, the row has the payload's columns.\<close>

lemma merged_undisturbed:
  "merged_columns old old new =
     new\<lparr>dr_id := dr_id old, dr_created_by := dr_created_by old, dr_created_at := dr_created_at old,
       dr_updated_at := dr_updated_at old\<rparr>"
  by (cases old; cases new) (simp add: merged_columns_def)

lemma fold_filter: "fold (\<lambda>g. g) (filter P gs) r = fold (\<lambda>g r. if P g then g r else r) gs r"
  by (induction gs arbitrary: r) auto

lemma assign_pick:
  "(if old\<lparr>dr_prefix := a\<rparr> \<noteq> old then m\<lparr>dr_prefix := a\<rparr> else m) = m\<lparr>dr_prefix := pick (dr_prefix old) (dr_prefix m) a\<rparr>"
  "(if old\<lparr>dr_path := a\<rparr> \<noteq> old then m\<lparr>dr_path := a\<rparr> else m) = m\<lparr>dr_path := pick (dr_path old) (dr_path m) a\<rparr>"
  "(if old\<lparr>dr_description := a\<rparr> \<noteq> old then m\<lparr>dr_description := a\<rparr> else m) =
     m\<lparr>dr_description := pick (dr_description old) (dr_description m) a\<rparr>"
  "(if old\<lparr>dr_original_sql := a\<rparr> \<noteq> old then m\<lparr>dr_original_sql := a\<rparr> else m) =
     m\<lparr>dr_original_sql := pick (dr_original_sql old) (dr_original_sql m) a\<rparr>"
  "(if old\<lparr>dr_canonical_sql := a\<rparr> \<noteq> old then m\<lparr>dr_canonical_sql := a\<rparr> else m) =
     m\<lparr>dr_canonical_sql := pick (dr_canonical_sql old) (dr_canonical_sql m) a\<rparr>"
  "(if old\<lparr>dr_parameter_definitions := ps\<rparr> \<noteq> old then m\<lparr>dr_parameter_definitions := ps\<rparr> else m) =
     m\<lparr>dr_parameter_definitions := pick (dr_parameter_definitions old) (dr_parameter_definitions m) ps\<rparr>"
  "(if old\<lparr>dr_db_type := b\<rparr> \<noteq> old then m\<lparr>dr_db_type := b\<rparr> else m) = m\<lparr>dr_db_type := pick (dr_db_type old) (dr_db_type m) b\<rparr>"
  "(if old\<lparr>dr_pii_type := c\<rparr> \<noteq> old then m\<lparr>dr_pii_type := c\<rparr> else m) = m\<lparr>dr_pii_type := pick (dr_pii_type old) (dr_pii_type m) c\<rparr>"
  "(if old\<lparr>dr_response_type := d\<rparr> \<noteq> old then m\<lparr>dr_response_type := d\<rparr> else m) =
     m\<lparr>dr_response_type := pick (dr_response_type old) (dr_response_type m) d\<rparr>"
  "(if old\<lparr>dr_updated_by := u\<rparr> \<noteq> old then m\<lparr>dr_updated_by := u\<rparr> else m) =
     m\<lparr>dr_updated_by := pick (dr_updated_by old) (dr_updated_by m) u\<rparr>"
  by (cases old; cases m; auto simp: pick_def)+

lemma fold_assignments:
  "fold (\<lambda>g. g) (filter (\<lambda>g. g old \<noteq> old) (route_assignments dc w canonical actor)) mid =
     merged_columns old mid (new_route dc i w canonical actor)"
  unfolding fold_filter route_assignments_def
  by (simp only: fold_simps assign_pick) (simp add: merged_columns_def new_route_def)

lemma no_change_same:
  assumes "filter (\<lambda>g. g old \<noteq> old) (route_assignments dc w canonical actor) = []"
  shows "same_columns old (new_route dc i w canonical actor)"
  using fold_assignments [of old dc w canonical actor old i] assms by (simp add: same_columns_def)

lemma change_not_same:
  assumes "filter (\<lambda>g. g old \<noteq> old) (route_assignments dc w canonical actor) \<noteq> []"
  shows "\<not> same_columns old (new_route dc i w canonical actor)"
proof
  assume "same_columns old (new_route dc i w canonical actor)"
  then have "merged_columns old old (new_route dc i w canonical actor) = old" by (simp add: same_columns_def)
  then have "g old = old" if "g \<in> set (route_assignments dc w canonical actor)" for g
    using that unfolding merged_undisturbed by (cases old) (auto simp: route_assignments_def new_route_def)
  with assms show False by (auto simp: filter_empty_conv)
qed

section \<open>The stages of an update\<close>

text \<open>Nothing but the row \<open>i\<close> of the routes differs.\<close>

definition only_route_changed :: "uid \<Rightarrow> db \<Rightarrow> db \<Rightarrow> bool" where
  "only_route_changed i d e \<longleftrightarrow> users e = users d \<and> audit_logs e = audit_logs d \<and>
     filter (\<lambda>q. dr_id q \<noteq> i) (routes e) = filter (\<lambda>q. dr_id q \<noteq> i) (routes d)"

lemma find_replace_row:
  assumes "\<And>r. dr_id (f r) = dr_id r"
  shows "find (\<lambda>r. dr_id r = i) (replace_row (\<lambda>r. dr_id r = i) f rs) = map_option f (find (\<lambda>r. dr_id r = i) rs)"
  by (induction rs) (auto simp: replace_row_def assms)

lemma other_rows_replace_row:
  assumes "\<And>r. dr_id (f r) = dr_id r"
  shows "filter (\<lambda>q. dr_id q \<noteq> i) (replace_row (\<lambda>r. dr_id r = i) f rs) = filter (\<lambda>q. dr_id q \<noteq> i) rs"
  by (induction rs) (auto simp: replace_row_def assms)

lemma dr_id_merged [simp]: "dr_id (merged_columns old mid new) = dr_id mid"
  by (simp add: merged_columns_def)

lemma atomically_Inr:
  "atomically commit rollback m err s = (Inr r, t) \<longleftrightarrow>
   (\<exists>s'. m s = (Inr r, s') \<and> t = s'\<lparr>committed := working s', dirty := False\<rparr>)"
  by (cases "m s"; cases "fst (m s)")
     (auto simp: atomically_def handle_def seq_def raise_def rollback_def commit_def)

lemma update_route_row_outcome:
  assumes "clean s"
    and "atomically commit rollback (update_route_row old (route_assignments dc w canonical actor)) err s = (Inr r, t)"
  defines "d \<equiv> committed (let_others s)"
  shows "\<exists>mid. find_route (dr_id old) d = Some mid \<and>
     r = merged_route (now s) old mid (new_route dc i w canonical actor) \<and>
     find_route (dr_id old) (committed t) = Some r \<and> only_route_changed (dr_id old) d (committed t)"
proof (cases "filter (\<lambda>g. g old \<noteq> old) (route_assignments dc w canonical actor) = []")
  case True
  have same: "working (let_others s) = committed (let_others s)" by (intro clean_working clean_let_others assms(1))
  show ?thesis
    using assms(2) no_change_same [OF True] same unfolding update_route_row_def True
    by (cases "find_route (dr_id old) d")
       (auto simp: atomically_Inr seq_def refresh_def select_def Let_def d_def merged_route_def
          only_route_changed_def)
next
  case False
  let ?new = "new_route dc i w canonical actor"
  let ?f = "\<lambda>r. (merged_columns old r ?new)\<lparr>dr_updated_at := now s\<rparr>"
  let ?e = "d\<lparr>routes := replace_row (\<lambda>r. dr_id r = dr_id old) ?f (routes d)\<rparr>"
  have same: "working (let_others s) = d" by (simp add: d_def clean_working [OF clean_let_others [OF assms(1)]])
  have found: "find_route (dr_id old) ?e = map_option ?f (find_route (dr_id old) d)"
    by (simp add: find_route_def find_replace_row)
  have others: "only_route_changed (dr_id old) d ?e" by (simp add: only_route_changed_def other_rows_replace_row)
  have quiet: "let_others (x\<lparr>working := e, dirty := True\<rparr>) = x\<lparr>working := e, dirty := True\<rparr>" for x :: store and e
    by (simp add: let_others_def)
  have row: "fold (\<lambda>g. g) (filter (\<lambda>g. g old \<noteq> old) (route_assignments dc w canonical actor)) m = merged_columns old m ?new" for m
    by (rule fold_assignments)
  obtain mid where mid: "find_route (dr_id old) d = Some mid" "r = ?f mid" "committed t = ?e"
    using assms(2) False same found unfolding update_route_row_def row Let_def
    by (cases "find_route (dr_id old) d")
       (auto simp: atomically_Inr seq_def flush_def refresh_def select_def Let_def quiet split: if_splits)
  then show ?thesis
    using change_not_same [OF False] found others by (simp add: merged_route_def)
qed

lemma find_route_quiet:
  assumes "clean s" "get_route i s = (Inr r, t)"
  shows "find_route i (committed t) = Some r \<and> clean t \<and> only_others s t"
  using route_by_id.lookup_find [OF clean_store_ok [OF assms(1)], of i] assms(2)
    reads_onlyD [OF reads_only_get_route assms] clean_working
  by (auto simp: get_route_def seq_def find_route_def split: option.splits)

lemma atomically_seq_Inr:
  assumes "atomically commit rollback (seq m k) err s = (Inr r, t)"
  obtains x s' where "m s = (Inr x, s')" "atomically commit rollback (k x) err s' = (Inr r, t)"
  using assms unfolding atomically_Inr by (blast elim: seq_InrE)

section \<open>Properties\<close>

text \<open>C10: an accepted update merges: the row it leaves and answers with has the payload's value, the
  canonical statement and the author in every column in which those differ from the row that was
  loaded, and in the others what other transactions left there in the meantime; the identity and the
  creation of the row stay, and no other row changes. So between two concurrent updates a row can
  end with the statement of one and the parameter definitions of the other, as in the witness.\<close>

theorem update_route_merges:
  assumes "clean s" and "update_route env i w actor s = (Inr r, t)"
  shows "\<exists>v s1 old s2 mid.
     validate (env_sqlglot env) (db_type_value (rw_db_type w)) (rw_sql w) = Inr v \<and>
     set (parameter_names v) = set (dkeys (rw_params w)) \<and>
     only_others s s1 \<and> find_route i (committed s1) = Some old \<and>
     only_others s1 s2 \<and> find_route i (committed s2) = Some mid \<and>
     r = merged_route (now s) old mid (new_route (env_codec env) i w (canonical_sql v) (user_id actor)) \<and>
     find_route i (committed t) = Some r \<and> only_route_changed i (committed s2) (committed t)"
proof -
  from assms(2) obtain old s1 where load: "get_route i s = (Inr old, s1)"
    and rest: "seq (embed (validate (env_sqlglot env) (db_type_value (rw_db_type w)) (rw_sql w))) (\<lambda>v.
     seq (embed (validate_parameter_contract (parameter_names v) (rw_params w))) (\<lambda>_.
     seq (get_by_route (rw_prefix w) (rw_path w)) (\<lambda>collision.
     if (case collision of None \<Rightarrow> False | Some c \<Rightarrow> dr_id c \<noteq> dr_id old) then raise route_exists_error
     else atomically commit rollback
            (seq (run_lab_test_if_requested env w (canonical_sql v)) (\<lambda>_.
             update_route_row old (route_assignments (env_codec env) w (canonical_sql v) (user_id actor))))
            route_error))) s1 = (Inr r, t)"
    unfolding update_route_def by (rule seq_InrE)
  from find_route_quiet [OF assms(1) load]
  have s1: "find_route i (committed s1) = Some old" "clean s1" "only_others s s1" by auto
  have i: "dr_id old = i" using s1(1) by (auto simp: find_route_def find_Some_iff)
  from rest obtain v s1' c s1'' found s2 where
    v: "validate (env_sqlglot env) (db_type_value (rw_db_type w)) (rw_sql w) = Inr v"
    and names: "validate_parameter_contract (parameter_names v) (rw_params w) = Inr c"
    and look: "get_by_route (rw_prefix w) (rw_path w) s1 = (Inr found, s2)"
    and work: "atomically commit rollback
            (seq (run_lab_test_if_requested env w (canonical_sql v)) (\<lambda>_.
             update_route_row old (route_assignments (env_codec env) w (canonical_sql v) (user_id actor))))
            route_error s2 = (Inr r, t)"
    by (elim seq_InrE) (auto simp: embed_def raise_def split: if_splits)
  have s2: "clean s2" "only_others s1 s2"
    using reads_onlyD [OF reads_only_lookups(7) s1(2) look] by auto
  from work obtain x s3 where lab: "run_lab_test_if_requested env w (canonical_sql v) s2 = (Inr x, s3)"
    and row: "atomically commit rollback
      (update_route_row old (route_assignments (env_codec env) w (canonical_sql v) (user_id actor))) route_error s3 = (Inr r, t)"
    by (rule atomically_seq_Inr)
  have s3: "clean s3" "only_others s1 s3"
    using reads_onlyD [OF reads_only_lab_test s2(1) lab] only_others_trans [OF s2(2)] by auto
  have "now s3 = now s" using s1(3) s3(2) by (simp add: only_others_def)
  moreover have "only_others s1 (let_others s3)"
    by (rule only_others_trans [OF s3(2) only_others_let_others [OF s3(1)]])
  moreover have "set (parameter_names v) = set (dkeys (rw_params w))"
    using names by (simp add: validate_parameter_contract_iff)
  ultimately show ?thesis
    using update_route_row_outcome [OF s3(1) row, of i] s1 v by (auto simp: i)
qed

text \<open>
  Two administrators load the same route. One renames the output column of the statement, the
  other renames the parameter, and is done first.
\<close>

definition relabelled_write :: route_write where
  "relabelled_write = (demo_write Data)\<lparr>rw_sql := ''SELECT :id AS n''\<rparr>"

definition renamed_write :: route_write where
  "renamed_write = (demo_write Data)\<lparr>rw_sql := ''SELECT :key'',
     rw_params := [(''key'', \<lparr>ptype = TInteger, required = True, default = PNone, pdescription = []\<rparr>)]\<rparr>"

definition demo_route :: dynamic_route where
  "demo_route = new_route demo_codec 5 (demo_write Data) ''SELECT :id'' (user_id alice)"

definition renaming :: "db \<Rightarrow> db" where
  "renaming d = committed (snd (update_route demo_env 5 renamed_write alice
     \<lparr>committed = d, working = d, dirty = False, others = [], now = 150, seen = d\<rparr>))"

definition meeting_store :: store where
  "meeting_store = (let d = insert_route demo_route demo_db in
     \<lparr>committed = d, working = d, dirty = False, others = [\<lambda>d. d, renaming], now = 200, seen = d\<rparr>)"

lemma keeps_update_route: "keeps store_ok (update_route env i w actor)"
  unfolding update_route_def get_route_def get_route_by_id_def get_by_route_def atomically_def
    run_lab_test_if_requested_def client_execute_def update_route_row_def Let_def
  by (intro keeps_intros; cases "rw_db_type w"; simp; intro keeps_intros)

lemma meeting_clean: "clean meeting_store"
proof -
  have "good_db (renaming d)" if "good_db d" for d
  proof -
    have "store_ok \<lparr>committed = d, working = d, dirty = False, others = [], now = 150, seen = d\<rparr>"
      using that by (simp add: store_ok_def)
    from keepsD [OF keeps_update_route this, of demo_env 5 renamed_write alice]
    show ?thesis unfolding store_ok_def renaming_def by blast
  qed
  moreover have "good_db (insert_route demo_route demo_db)" by code_simp
  ultimately show ?thesis by (simp add: clean_def store_ok_def meeting_store_def Let_def)
qed

lemma meeting_outcome:
  "case update_route demo_env 5 relabelled_write alice meeting_store of (r, t) \<Rightarrow>
     (case r of Inl e \<Rightarrow> False | Inr q \<Rightarrow> dr_canonical_sql q = ''SELECT :id AS n'' \<and>
        dr_parameter_definitions q = serialize_definitions demo_codec (rw_params renamed_write))"
  by code_simp

text \<open>The row that results is refused whenever it is executed.\<close>

lemma meeting_refused:
  "case execute_route demo_env ''sales'' ''daily'' [(''id'', ''7'')]
      (snd (update_route demo_env 5 relabelled_write alice meeting_store)) of (r, t) \<Rightarrow>
     (case r of Inl e \<Rightarrow> rsp_status (handle_exception None e) = 422 | Inr x \<Rightarrow> False)"
  by code_simp

theorem update_route_merges_witness:
  "\<exists>r t. update_route demo_env 5 relabelled_write alice meeting_store = (Inr r, t) \<and>
     find_route 5 (committed t) = Some r \<and> dr_canonical_sql r = ''SELECT :id AS n'' \<and>
     dr_parameter_definitions r = serialize_definitions demo_codec (rw_params renamed_write)"
proof -
  from meeting_outcome obtain r t where run: "update_route demo_env 5 relabelled_write alice meeting_store = (Inr r, t)"
    and cols: "dr_canonical_sql r = ''SELECT :id AS n''"
      "dr_parameter_definitions r = serialize_definitions demo_codec (rw_params renamed_write)"
    by (auto split: prod.splits sum.splits)
  from update_route_merges [OF meeting_clean run] have "find_route 5 (committed t) = Some r" by blast
  with run cols show ?thesis by blast
qed

end
