(* ===== verification/Bootstrap.thy ===== *)
theory Bootstrap
  imports User_Service
begin

text \<open>
  The script that makes sure there is an administrator (\<open>scripts/create_initial_admin.py\<close>). The
  random password is an argument; what the script prints is its result.
\<close>

section \<open>The script\<close>

definition DEFAULT_ADMIN_EMAIL :: string where
  "DEFAULT_ADMIN_EMAIL = ''admin@example.com''"

definition DEFAULT_ADMIN_USERNAME :: string where
  "DEFAULT_ADMIN_USERNAME = ''admin''"

datatype admin_init = Skipped "string option" | Created user | Promoted user

text \<open>A model the script builds itself: a rejected value is a validation error.\<close>

definition model_of :: "'a option \<Rightarrow> 'a dbp" where
  "model_of p = (case p of None \<Rightarrow> raise (ModelValidationErr []) | Some x \<Rightarrow> ret x)"

definition create_admin ::
  "crypto \<Rightarrow> settings \<Rightarrow> (string \<Rightarrow> string option) \<Rightarrow> nat \<Rightarrow> uid \<Rightarrow> string \<Rightarrow> admin_init dbp" where
  "create_admin cr st check seed new_id password =
     seq (model_of (user_create_schema check (Some DEFAULT_ADMIN_EMAIL) DEFAULT_ADMIN_USERNAME password RoleAdmin)) (\<lambda>p.
     seq (create_user cr st seed new_id p) (\<lambda>admin. ret (Created admin)))"

definition promote_user ::
  "crypto \<Rightarrow> settings \<Rightarrow> (string \<Rightarrow> string option) \<Rightarrow> nat \<Rightarrow> string \<Rightarrow> user \<Rightarrow> admin_init dbp" where
  "promote_user cr st check seed password existing =
     seq (model_of (user_admin_update_schema check None None (Some (Some password)) (Some (Some RoleAdmin)))) (\<lambda>p.
     seq (update_user cr st seed (user_id existing) p) (\<lambda>admin. ret (Promoted admin)))"

definition default_user :: "user option dbp" where
  "default_user =
     seq (get_user_by_email DEFAULT_ADMIN_EMAIL) (\<lambda>existing. case existing of
       None \<Rightarrow> get_user_by_username DEFAULT_ADMIN_USERNAME
     | Some u \<Rightarrow> ret (Some u))"

text \<open>Leaving the session block closes the session: what was not committed is dropped.\<close>

definition create_initial_admin ::
  "crypto \<Rightarrow> settings \<Rightarrow> (string \<Rightarrow> string option) \<Rightarrow> nat \<Rightarrow> uid \<Rightarrow> string \<Rightarrow> admin_init dbp" where
  "create_initial_admin cr st check seed new_id password s =
     (case seq get_admin_user (\<lambda>existing_admin. case existing_admin of
        Some u \<Rightarrow> ret (Skipped (email u))
      | None \<Rightarrow> seq default_user (\<lambda>existing. case existing of
          None \<Rightarrow> create_admin cr st check seed new_id password
        | Some u \<Rightarrow> promote_user cr st check seed password u)) s of
      (r, t) \<Rightarrow> (r, close_session t))"

section \<open>Facts about the look-ups\<close>

definition admins :: "db \<Rightarrow> user list" where
  "admins d = filter (\<lambda>u. user_role u = RoleAdmin) (users d)"

lemma get_admin_user_quiet:
  assumes "clean s" "others s = []"
  shows "get_admin_user s = (Inr (case admins (committed s) of [] \<Rightarrow> None | u # us \<Rightarrow> Some u), s)"
  using clean_working [OF assms(1)] assms(2)
  by (simp add: get_admin_user_def seq_def select_def Let_def scalar_one_or_none_def admins_def page_def
      split: list.splits)

definition default_candidate :: "db \<Rightarrow> user option" where
  "default_candidate d =
     (case find (\<lambda>u. email u = Some DEFAULT_ADMIN_EMAIL) (users d) of
        Some u \<Rightarrow> Some u
      | None \<Rightarrow> find (\<lambda>u. username u = DEFAULT_ADMIN_USERNAME) (users d))"

lemma default_lower [simp]:
  "py_lower DEFAULT_ADMIN_EMAIL = DEFAULT_ADMIN_EMAIL" "py_lower DEFAULT_ADMIN_USERNAME = DEFAULT_ADMIN_USERNAME"
  by (simp_all add: DEFAULT_ADMIN_EMAIL_def DEFAULT_ADMIN_USERNAME_def py_lower_def lower_char_def)

lemma default_user_quiet:
  assumes "clean s" "others s = []"
  shows "default_user s = (Inr (default_candidate (committed s)), s)"
  using user_by_email.lookup_find [OF clean_store_ok [OF assms(1)], of DEFAULT_ADMIN_EMAIL]
    user_by_username.lookup_find [OF clean_store_ok [OF assms(1)], of DEFAULT_ADMIN_USERNAME]
    clean_working [OF assms(1)] assms(2)
  by (simp add: default_user_def default_candidate_def seq_def split: option.splits)

lemma default_candidate_in: "default_candidate d = Some u \<Longrightarrow> u \<in> set (users d)"
  by (auto simp: default_candidate_def dest: find_Some_D split: option.splits)

lemma default_candidate_None:
  "default_candidate d = None \<Longrightarrow>
   Some DEFAULT_ADMIN_EMAIL \<notin> email ` set (users d) \<and> DEFAULT_ADMIN_USERNAME \<notin> username ` set (users d)"
  by (auto simp: default_candidate_def find_None_iff split: option.splits)

section \<open>Facts about the promotion\<close>

definition promoted :: "int \<Rightarrow> string \<Rightarrow> user \<Rightarrow> user" where
  "promoted t h u = u\<lparr>user_role := RoleAdmin, hashed_password := h, user_updated_at := t\<rparr>"

definition replace_user :: "user \<Rightarrow> db \<Rightarrow> db" where
  "replace_user v d = d\<lparr>users := replace_row (\<lambda>r. user_id r = user_id v) (\<lambda>_. v) (users d)\<rparr>"

lemma promoted_simps [simp]:
  "user_id (promoted t h u) = user_id u" "email (promoted t h u) = email u" "username (promoted t h u) = username u"
  "user_role (promoted t h u) = RoleAdmin" "hashed_password (promoted t h u) = h"
  "user_updated_at (promoted t h u) = t"
  by (simp_all add: promoted_def)

lemma replace_row_same:
  "distinct (map user_id us) \<Longrightarrow> u \<in> set us \<Longrightarrow> replace_row (\<lambda>r. user_id r = user_id u) f us =
     replace_row (\<lambda>r. user_id r = user_id u) (\<lambda>_. f u) us"
  by (auto simp: replace_row_def dest: distinct_map_key)

lemma replace_row_keys:
  "distinct (map user_id us) \<Longrightarrow> u \<in> set us \<Longrightarrow> user_id v = user_id u \<Longrightarrow> key v = key u \<Longrightarrow>
   map key (replace_row (\<lambda>r. user_id r = user_id v) (\<lambda>_. v) us) = map key us"
  by (auto simp: replace_row_def dest: distinct_map_key)

lemma promoted_good:
  assumes "good_db d" "u \<in> set (users d)" "length h \<le> 255"
  shows "good_db (replace_user (promoted t h u) d)"
proof -
  let ?us = "users (replace_user (promoted t h u) d)"
  have dist: "distinct (map user_id (users d))" using assms(1) by (simp add: good_db_def db_ok_defs)
  have keys: "map user_id ?us = map user_id (users d)" "map username ?us = map username (users d)"
      "map email ?us = map email (users d)"
    using replace_row_keys [OF dist assms(2), of "promoted t h u" user_id]
      replace_row_keys [OF dist assms(2), of "promoted t h u" username]
      replace_row_keys [OF dist assms(2), of "promoted t h u" email]
    by (simp_all add: replace_user_def)
  moreover have "user_id ` set ?us = user_id ` set (users d)" using keys(1) by (metis set_map)
  ultimately have "db_ok (replace_user (promoted t h u) d)"
    using assms(1) by (simp add: good_db_def db_ok_defs) (simp add: replace_user_def)
  moreover have "list_all user_fits ?us"
    using assms by (auto simp: replace_user_def replace_row_def good_db_def all_fit_def list_all_iff user_fits_def)
  ultimately show ?thesis using assms(1) by (simp add: good_db_def all_fit_def) (simp add: replace_user_def)
qed

lemma find_replaced:
  "u \<in> set us \<Longrightarrow> user_id v = user_id u \<Longrightarrow>
   find (\<lambda>r. user_id r = user_id v) (replace_row (\<lambda>r. user_id r = user_id v) (\<lambda>_. v) us) = Some v"
  by (induction us) (auto simp: replace_row_def)

text \<open>The role always changes, for there was no administrator; the password may be the same.\<close>

lemma promotion_commit:
  assumes "clean s" "others s = []" "u \<in> set (users (committed s))" "user_role u \<noteq> RoleAdmin" "length h \<le> 255"
  shows "committing (update_user_row u [SetRole (Some RoleAdmin), SetHashedPassword h]) s =
     (let v = promoted (now s) h u; d = replace_user v (committed s) in
      (Inr v, s\<lparr>working := d, committed := d\<rparr>))"
proof -
  let ?d = "replace_user (promoted (now s) h u) (committed s)"
  let ?cs = "filter (changes_user u) [SetRole (Some RoleAdmin), SetHashedPassword h]"
  have role: "changes_user u (SetRole (Some RoleAdmin))"
    using assms(4) by (cases u) (auto simp: changes_user_def)
  have same: "\<not> changes_user u (SetHashedPassword h) \<longleftrightarrow> hashed_password u = h"
    by (cases u) (auto simp: changes_user_def)
  have cs: "?cs \<noteq> []" "apply_values ?cs u \<noteq> None"
    "(the (apply_values ?cs u))\<lparr>user_updated_at := now s\<rparr> = promoted (now s) h u"
    using role same by (auto simp: promoted_def)
  have good: "good_db (committed s)" by (rule clean_good [OF assms(1)])
  then have ok: "distinct (map user_id (users (committed s)))" "users_ok (users (committed s))"
    by (simp_all add: good_db_def db_ok_defs)
  have d: "(committed s)\<lparr>users := replace_row (\<lambda>r. user_id r = user_id u)
      (\<lambda>r. (the (apply_values ?cs r))\<lparr>user_updated_at := now s\<rparr>) (users (committed s))\<rparr> = ?d"
    using replace_row_same [OF ok(1) assms(3), of "\<lambda>r. (the (apply_values ?cs r))\<lparr>user_updated_at := now s\<rparr>"] cs(3)
    by (simp add: replace_user_def)
  have hit: "find_user (user_id u) (committed s) \<noteq> None" using find_user_unique [OF ok(2) assms(3)] by simp
  have look: "find_user (user_id u) ?d = Some (promoted (now s) h u)"
    using find_replaced [OF assms(3), of "promoted (now s) h u"] by (simp add: find_user_def replace_user_def)
  have "good_db ?d" by (rule promoted_good [OF good assms(3,5)])
  then have flush: "flush (\<lambda>d. find_user (user_id u) d \<noteq> None) (\<lambda>d. d\<lparr>users := replace_row (\<lambda>r. user_id r = user_id u)
        (\<lambda>r. (the (apply_values ?cs r))\<lparr>user_updated_at := now s\<rparr>) (users d)\<rparr>) s =
      (Inr (), s\<lparr>working := ?d, dirty := True\<rparr>)"
    using assms(2) clean_working [OF assms(1)] hit d by (simp add: flush_def Let_def good_db_def)
  have "update_user_row u [SetRole (Some RoleAdmin), SetHashedPassword h] s =
      (Inr (promoted (now s) h u), s\<lparr>working := ?d, dirty := True\<rparr>)"
    unfolding update_user_row_def Let_def using cs(1,2) flush look
    by (simp add: seq_def refresh_def select_def Let_def del: filter.simps)
  moreover have "\<not> dirty s" using assms(1) by (simp add: clean_def)
  ultimately show ?thesis by (simp add: committing_def seq_def commit_def Let_def)
qed


section \<open>Properties\<close>

lemma create_admin_quiet:
  assumes "clean s" "others s = []" "default_candidate (committed s) = None"
    and "new_id \<notin> user_id ` set (users (committed s))" "12 \<le> length password" "length password \<le> 128"
    and "check DEFAULT_ADMIN_EMAIL = Some DEFAULT_ADMIN_EMAIL"
    and "hash_password cr seed password (password_bcrypt_rounds st) = Inr h" "length h \<le> 255"
  shows "\<exists>u. create_admin cr st check seed new_id password s =
     (Inr (Created u), s\<lparr>working := insert_user u (committed s), committed := insert_user u (committed s)\<rparr>) \<and>
     user_id u = new_id \<and> user_role u = RoleAdmin \<and> hashed_password u = h \<and>
     username u = DEFAULT_ADMIN_USERNAME \<and> email u = Some DEFAULT_ADMIN_EMAIL"
proof -
  let ?p = "\<lparr>uc_email = Some DEFAULT_ADMIN_EMAIL, uc_username = DEFAULT_ADMIN_USERNAME, uc_password = password,
    uc_role = RoleAdmin\<rparr>"
  have name: "username_ok DEFAULT_ADMIN_USERNAME"
    by (simp add: username_ok_def) (simp add: DEFAULT_ADMIN_USERNAME_def is_slug_def slug_char_def is_ascii_letter_def)
  have schema: "user_create_schema check (Some DEFAULT_ADMIN_EMAIL) DEFAULT_ADMIN_USERNAME password RoleAdmin = Some ?p"
    using assms(5,6,7) username_field_fix [OF name]
    by (simp add: user_create_schema_def email_field_def normalize_email_def password_field_def)
  have ok: "payload_ok ?p" using name assms(5)
    by (simp add: payload_ok_def normalize_email_def within_def) (simp add: DEFAULT_ADMIN_EMAIL_def)
  let ?u = "stamped (now s) (new_user new_id ?p h RoleAdmin)"
  have "create_user cr st seed new_id ?p s =
      (Inr ?u, s\<lparr>working := insert_user ?u (committed s), committed := insert_user ?u (committed s)\<rparr>)"
    using create_user_exact_quiet [OF assms(1,2) ok assms(4) _ assms(9), of cr seed st] assms(8)
      default_candidate_None [OF assms(3)]
    by (simp add: Let_def)
  then have "create_admin cr st check seed new_id password s =
      (Inr (Created ?u), s\<lparr>working := insert_user ?u (committed s), committed := insert_user ?u (committed s)\<rparr>)"
    by (simp add: create_admin_def model_of_def schema seq_def)
  moreover have "user_id ?u = new_id" "user_role ?u = RoleAdmin" "hashed_password ?u = h"
    "username ?u = DEFAULT_ADMIN_USERNAME" "email ?u = Some DEFAULT_ADMIN_EMAIL"
    by (simp_all add: stamped_def new_user_def)
  ultimately show ?thesis by blast
qed

lemma promote_user_quiet:
  assumes "clean s" "others s = []" "u \<in> set (users (committed s))" "user_role u \<noteq> RoleAdmin"
    and "12 \<le> length password" "length password \<le> 128"
    and "hash_password cr seed password (password_bcrypt_rounds st) = Inr h" "length h \<le> 255"
  shows "promote_user cr st check seed password u s =
     (let v = promoted (now s) h u; d = replace_user v (committed s) in
      (Inr (Promoted v), s\<lparr>working := d, committed := d\<rparr>))"
proof -
  have "users_ok (users (committed s))" using clean_good [OF assms(1)] by (simp add: good_db_def db_ok_def)
  from find_user_unique [OF this assms(3)]
  have look: "get_user_by_id (user_id u) s = (Inr (Some u), s)"
    using user_by_id.lookup_find [OF clean_store_ok [OF assms(1)], of "user_id u"] clean_working [OF assms(1)] assms(2)
    by (simp add: find_user_def)
  show ?thesis
    using assms(5,6,7) look promotion_commit [OF assms(1-4,8)]
    by (simp add: promote_user_def user_admin_update_schema_def nullable_def password_field_def model_of_def seq_def
        update_user_def flatten_option_def ensure_unique_identity_def ensure_email_def ensure_username_def
        admin_updates_def conflict_on_integrity_def handle_def Let_def)
qed

text \<open>C29: after the script there is an administrator, and the script does no more than that takes. With an
  administrator it changes nothing. Without one it adds exactly the default administrator, or,
  when a user has the default e-mail or else the default username, changes exactly that user's
  role, password and time stamp and keeps the name and address; the password it prints is the one
  that was hashed.\<close>

theorem initial_admin_established:
  assumes "clean s" "others s = []" "new_id \<notin> user_id ` set (users (committed s))"
    and "12 \<le> length password" "length password \<le> 128" "check DEFAULT_ADMIN_EMAIL = Some DEFAULT_ADMIN_EMAIL"
    and "hash_password cr seed password (password_bcrypt_rounds st) = Inr h" "length h \<le> 255"
    and "create_initial_admin cr st check seed new_id password s = (r, t)"
  shows "admins (committed t) \<noteq> [] \<and> good_db (committed t) \<and>
     (case r of
        Inl e \<Rightarrow> False
      | Inr (Skipped e) \<Rightarrow> admins (committed s) \<noteq> [] \<and> t = s
      | Inr (Created u) \<Rightarrow> admins (committed s) = [] \<and> default_candidate (committed s) = None \<and>
          committed t = insert_user u (committed s) \<and> user_role u = RoleAdmin \<and> hashed_password u = h \<and>
          username u = DEFAULT_ADMIN_USERNAME \<and> email u = Some DEFAULT_ADMIN_EMAIL
      | Inr (Promoted v) \<Rightarrow> admins (committed s) = [] \<and>
          (\<exists>u. default_candidate (committed s) = Some u \<and> v = promoted (now s) h u \<and>
               committed t = replace_user v (committed s)))"
proof (cases "admins (committed s)")
  case (Cons a as)
  have "close_session s = s" using assms(1) clean_working [OF assms(1)] by (simp add: close_session_def clean_def)
  with assms(9) Cons get_admin_user_quiet [OF assms(1,2)] clean_good [OF assms(1)] show ?thesis
    by (auto simp: create_initial_admin_def seq_def)
next
  case Nil
  show ?thesis
  proof (cases "default_candidate (committed s)")
    case None
    from create_admin_quiet [where check = check and st = st, OF assms(1,2) None assms(3-8)] obtain u where
      run: "create_admin cr st check seed new_id password s =
        (Inr (Created u), s\<lparr>working := insert_user u (committed s), committed := insert_user u (committed s)\<rparr>)"
      and u: "user_id u = new_id" "user_role u = RoleAdmin" "hashed_password u = h"
        "username u = DEFAULT_ADMIN_USERNAME" "email u = Some DEFAULT_ADMIN_EMAIL" by blast
    have "fresh_user u (committed s)"
      using default_candidate_None [OF None] assms(3) u by (simp add: fresh_user_def)
    moreover have "user_fits u"
      using u assms(8) by (simp add: user_fits_def within_def) (simp add: DEFAULT_ADMIN_EMAIL_def DEFAULT_ADMIN_USERNAME_def)
    ultimately have "good_db (insert_user u (committed s))" by (rule good_insert_user [OF clean_good [OF assms(1)]])
    with assms(9) Nil None run u get_admin_user_quiet [OF assms(1,2)] default_user_quiet [OF assms(1,2)] show ?thesis
      by (auto simp: create_initial_admin_def seq_def close_session_def admins_def insert_user_def)
  next
    case (Some u)
    have mem: "u \<in> set (users (committed s))" by (rule default_candidate_in [OF Some])
    with Nil have role: "user_role u \<noteq> RoleAdmin" by (auto simp: admins_def filter_empty_conv)
    let ?v = "promoted (now s) h u"
    have "?v \<in> set (users (replace_user ?v (committed s)))"
      using mem by (force simp: replace_user_def replace_row_def)
    then have "?v \<in> set (admins (replace_user ?v (committed s)))" by (simp add: admins_def)
    then have "admins (replace_user ?v (committed s)) \<noteq> []" by (rule list.set_cases) simp_all
    with assms(9) Nil Some promote_user_quiet [OF assms(1,2) mem role assms(4,5,7,8)]
      get_admin_user_quiet [OF assms(1,2)] default_user_quiet [OF assms(1,2)] promoted_good [OF clean_good [OF assms(1)] mem assms(8)]
    show ?thesis by (auto simp: create_initial_admin_def seq_def close_session_def Let_def)
  qed
qed

definition plain_db :: db where
  "plain_db = \<lparr>users = [
      \<lparr>user_id = 1, email = Some ''root@example.com'', username = ''admin'', hashed_password = ''old'',
       user_role = RoleUser, user_created_at = 1, user_updated_at = 1\<rparr>],
    routes = [], audit_logs = []\<rparr>"

definition plain_store :: store where
  "plain_store = \<lparr>committed = plain_db, working = plain_db, dirty = False, others = [], now = 100, seen = plain_db\<rparr>"

lemma plain_clean: "clean plain_store"
  by (simp add: plain_store_def plain_db_def clean_def store_ok_def good_db_def db_ok_defs all_fit_def user_fits_def within_def)

theorem initial_admin_established_witness:
  "\<exists>v t. create_initial_admin demo_crypto default_settings Some 0 9 ''a long password'' plain_store = (Inr (Promoted v), t) \<and>
     username v = ''admin'' \<and> length (users (committed t)) = 1"
proof -
  obtain r t where run: "create_initial_admin demo_crypto default_settings Some 0 9 ''a long password'' plain_store = (r, t)"
    by force
  have facts: "others plain_store = []" "9 \<notin> user_id ` set (users (committed plain_store))"
    "admins (committed plain_store) = []" "default_candidate (committed plain_store) \<noteq> None"
    "length (users (committed plain_store)) = 1" "list_all (\<lambda>u. username u = ''admin'') (users (committed plain_store))"
    by (simp_all add: plain_store_def plain_db_def admins_def default_candidate_def DEFAULT_ADMIN_USERNAME_def)
  note res = initial_admin_established [OF plain_clean facts(1,2) _ _ _ demo_hash _ run]
  have "length (prepare_password ''a long password'') \<le> 255" using prepare_password_shape [of "''a long password''"] by simp
  with res facts(3,4) obtain v u where v: "r = Inr (Promoted v)" "default_candidate (committed plain_store) = Some u"
    "v = promoted (now plain_store) (prepare_password ''a long password'') u" "committed t = replace_user v (committed plain_store)"
    by (auto split: sum.splits admin_init.splits)
  then have "username v = ''admin''" using default_candidate_in [OF v(2)] facts(6) by (auto simp: list_all_iff)
  moreover have "length (users (committed t)) = 1" using v(4) facts(5) by (simp add: replace_user_def replace_row_def)
  ultimately show ?thesis using run v(1) by blast
qed

end
