(* ===== verification/System.thy ===== *)
theory System
  imports Logging Bootstrap
begin

text \<open>
  The application as one system: every endpoint behind one function from requests, and the database
  states that any interleaving of requests reaches.
\<close>

section \<open>Requests\<close>

text \<open>
  What the requests share: the code outside the repository, the settings, and today's date.
\<close>

record 'n world =
  w_env :: "'n route_env"
  w_crypto :: crypto
  w_settings :: settings
  w_email :: "string \<Rightarrow> string option"
  w_registered :: "registered_route list"
  w_trino_text :: "string \<Rightarrow> exn + row list"
  w_trino :: "select_stmt \<Rightarrow> exn + row list"
  w_today :: pydate

text \<open>
  A request has the endpoint the router chose, the raw values of its body and the token of its
  authorization header; \<open>No_Token\<close> is a request for a protected endpoint without such a header, which
  \<open>OAuth2PasswordBearer\<close> refuses. A path parameter that is no UUID is \<open>None\<close>.
\<close>

datatype request =
    Health_Check
  | No_Token
  | Login_Request string string
  | Token_Request string string
  | Refresh_Request string
  | Get_Me string
  | Change_Password string string string
  | Create_User http_request string "string option" string string role
  | List_Users http_request string int int
  | Update_Me http_request string "string option option"
  | Delete_Me http_request string
  | Get_User http_request string "uid option"
  | Update_User http_request string "uid option" "string option option" "string option option" "string option option"
      "role option option"
  | Delete_User http_request string "uid option"
  | List_Users_Data http_request string int int
  | Get_Deeplink_1 http_request string power_bi_query
  | Get_Deeplink_2 http_request string power_bi_query
  | Create_Dynamic_Route string route_write
  | List_Dynamic_Routes string
  | Get_Dynamic_Route string "uid option"
  | Update_Dynamic_Route string "uid option" route_write
  | Delete_Dynamic_Route string "uid option"
  | Execute_Dynamic_Route http_request string string string

datatype answer =
    Status_Text string
  | Token_Pair token_pair
  | One_User user
  | Many_Users "user list"
  | No_Content
  | Data_Rows rows_result
  | Route_Rows route_result
  | One_Route route_response
  | Many_Routes "route_response list" nat

section \<open>Serving a request\<close>

definition answered :: "('a \<Rightarrow> answer) \<Rightarrow> 'a dbp \<Rightarrow> answer dbp" where
  "answered f m = seq m (\<lambda>x. ret (f x))"

text \<open>The background task runs when the response is out; its failure changes no response.\<close>

definition run_task :: "unit dbp option \<Rightarrow> store \<Rightarrow> store" where
  "run_task task s = (case task of None \<Rightarrow> s | Some m \<Rightarrow> close_session (snd (m s)))"

definition with_task :: "('a \<Rightarrow> answer) \<Rightarrow> ('a \<times> unit dbp option) dbp \<Rightarrow> answer dbp" where
  "with_task f m s =
     (case m s of (r, t) \<Rightarrow> (case r of Inl e \<Rightarrow> (Inl e, t) | Inr (x, task) \<Rightarrow> (Inr (f x), run_task task t)))"

definition or_invalid :: "'p option \<Rightarrow> validation_issue list + 'p" where
  "or_invalid p = (case p of None \<Rightarrow> Inl [] | Some x \<Rightarrow> Inr x)"

definition both_valid :: "'p option \<Rightarrow> 'q option \<Rightarrow> ('p \<times> 'q) option" where
  "both_valid p q = Option.bind p (\<lambda>x. map_option (Pair x) q)"

text \<open>\<open>Query(ge=..., le=...)\<close> of the user list; an empty refresh token is refused.\<close>

definition list_range :: "int \<Rightarrow> int \<Rightarrow> (nat \<times> nat) option" where
  "list_range limit offset =
     (if 1 \<le> limit \<and> limit \<le> 1000 \<and> 0 \<le> offset then Some (nat limit, nat offset) else None)"

definition refresh_schema :: "string \<Rightarrow> string option" where
  "refresh_schema tok = (if 1 \<le> length tok then Some tok else None)"

text \<open>An endpoint for administrators with an identifier in its path.\<close>

definition with_id :: "(uid \<Rightarrow> 'a dbp) \<Rightarrow> 'a dbp \<Rightarrow> uid option \<Rightarrow> 'a dbp" where
  "with_id k bad i = (case i of None \<Rightarrow> bad | Some x \<Rightarrow> k x)"

definition reject_admin :: "'n world \<Rightarrow> draw \<Rightarrow> string \<Rightarrow> 'a dbp" where
  "reject_admin w dw tok = admin_session (w_crypto w) (w_settings w) dw tok (\<lambda>_. raise (RequestValidationErr []))"

fun handle_request :: "'n world \<Rightarrow> draw \<Rightarrow> request \<Rightarrow> answer dbp" where
  "handle_request w dw Health_Check = answered Status_Text health_check"
| "handle_request w dw No_Token = raise (HttpErr 401)"
| "handle_request w dw (Login_Request n p) =
     answered Token_Pair (login_endpoint (w_crypto w) (w_settings w) dw (or_invalid (login_schema n p)))"
| "handle_request w dw (Token_Request n p) =
     answered Token_Pair (token_endpoint (w_crypto w) (w_settings w) dw n p)"
| "handle_request w dw (Refresh_Request rt) =
     answered Token_Pair (refresh_endpoint (w_crypto w) (w_settings w) dw (or_invalid (refresh_schema rt)))"
| "handle_request w dw (Get_Me tok) = answered One_User (me_endpoint (w_crypto w) (w_settings w) dw tok)"
| "handle_request w dw (Change_Password tok c n) =
     answered (\<lambda>_. No_Content)
       (change_password_endpoint (w_crypto w) (w_settings w) dw tok (or_invalid (change_password_schema c n)))"
| "handle_request w dw (Create_User rq tok e n p r) =
     answered One_User (create_user_endpoint (w_crypto w) (w_settings w) dw rq tok
       (or_invalid (user_create_schema (w_email w) e n p r)))"
| "handle_request w dw (List_Users rq tok limit offset) =
     answered Many_Users (list_users_endpoint (w_crypto w) (w_settings w) dw rq tok (or_invalid (list_range limit offset)))"
| "handle_request w dw (Update_Me rq tok n) =
     answered One_User (update_me_endpoint (w_crypto w) (w_settings w) dw rq tok (or_invalid (user_update_schema n)))"
| "handle_request w dw (Delete_Me rq tok) =
     answered (\<lambda>_. No_Content) (delete_me_endpoint (w_crypto w) (w_settings w) dw rq tok)"
| "handle_request w dw (Get_User rq tok i) =
     answered One_User (get_user_endpoint (w_crypto w) (w_settings w) dw rq tok (or_invalid i))"
| "handle_request w dw (Update_User rq tok i e n p r) =
     answered One_User (update_user_endpoint (w_crypto w) (w_settings w) dw rq tok
       (or_invalid (both_valid i (user_admin_update_schema (w_email w) e n p r))))"
| "handle_request w dw (Delete_User rq tok i) =
     answered (\<lambda>_. No_Content) (delete_user_endpoint (w_crypto w) (w_settings w) dw rq tok (or_invalid i))"
| "handle_request w dw (List_Users_Data rq tok limit offset) =
     with_task Data_Rows (list_users_data_endpoint (w_trino_text w) (env_cache (w_env w)) (w_crypto w) (w_settings w)
       dw rq tok limit offset)"
| "handle_request w dw (Get_Deeplink_1 rq tok q) =
     with_task Data_Rows (get_deeplink_1 (w_trino w) (env_cache (w_env w)) (w_crypto w) (w_settings w) dw rq tok
       (w_today w) q)"
| "handle_request w dw (Get_Deeplink_2 rq tok q) =
     with_task Data_Rows (get_deeplink_2 (w_trino w) (env_cache (w_env w)) (w_crypto w) (w_settings w) dw rq tok
       (w_today w) q)"
| "handle_request w dw (Create_Dynamic_Route tok raw) =
     answered One_Route (create_dynamic_route_endpoint (w_env w) (w_crypto w) (w_settings w) dw (w_registered w) tok
       (route_write_schema raw))"
| "handle_request w dw (List_Dynamic_Routes tok) =
     answered (\<lambda>(rs, n). Many_Routes rs n)
       (list_dynamic_routes_endpoint (env_codec (w_env w)) (w_crypto w) (w_settings w) dw tok)"
| "handle_request w dw (Get_Dynamic_Route tok i) =
     answered One_Route (with_id (get_dynamic_route_endpoint (env_codec (w_env w)) (w_crypto w) (w_settings w) dw tok)
       (reject_admin w dw tok) i)"
| "handle_request w dw (Update_Dynamic_Route tok i raw) =
     answered One_Route (with_id (\<lambda>x. update_dynamic_route_endpoint (w_env w) (w_crypto w) (w_settings w) dw
       (w_registered w) tok x (route_write_schema raw)) (reject_admin w dw tok) i)"
| "handle_request w dw (Delete_Dynamic_Route tok i) =
     answered (\<lambda>_. No_Content) (with_id (delete_dynamic_route_endpoint (w_crypto w) (w_settings w) dw tok)
       (reject_admin w dw tok) i)"
| "handle_request w dw (Execute_Dynamic_Route rq tok pre path) =
     with_task Route_Rows (execute_dynamic_route_endpoint (w_env w) (w_crypto w) (w_settings w) dw rq tok pre path)"

text \<open>The token a request carries.\<close>

fun request_token :: "request \<Rightarrow> string option" where
  "request_token Health_Check = None"
| "request_token No_Token = None"
| "request_token (Login_Request n p) = None"
| "request_token (Token_Request n p) = None"
| "request_token (Refresh_Request rt) = None"
| "request_token (Get_Me tok) = Some tok"
| "request_token (Change_Password tok c n) = Some tok"
| "request_token (Create_User rq tok e n p r) = Some tok"
| "request_token (List_Users rq tok limit offset) = Some tok"
| "request_token (Update_Me rq tok n) = Some tok"
| "request_token (Delete_Me rq tok) = Some tok"
| "request_token (Get_User rq tok i) = Some tok"
| "request_token (Update_User rq tok i e n p r) = Some tok"
| "request_token (Delete_User rq tok i) = Some tok"
| "request_token (List_Users_Data rq tok limit offset) = Some tok"
| "request_token (Get_Deeplink_1 rq tok q) = Some tok"
| "request_token (Get_Deeplink_2 rq tok q) = Some tok"
| "request_token (Create_Dynamic_Route tok raw) = Some tok"
| "request_token (List_Dynamic_Routes tok) = Some tok"
| "request_token (Get_Dynamic_Route tok i) = Some tok"
| "request_token (Update_Dynamic_Route tok i raw) = Some tok"
| "request_token (Delete_Dynamic_Route tok i) = Some tok"
| "request_token (Execute_Dynamic_Route rq tok pre path) = Some tok"

section \<open>Interleaved programs\<close>

text \<open>
  A program is a request or a run of the script that makes the first administrator. It starts a
  session on the committed database.
\<close>

definition session_on :: "db \<Rightarrow> (db \<Rightarrow> db) list \<Rightarrow> int \<Rightarrow> store" where
  "session_on d fs t = \<lparr>committed = d, working = d, dirty = False, others = fs, now = t, seen = d\<rparr>"

definition empty_db :: db where
  "empty_db = \<lparr>users = [], routes = [], audit_logs = []\<rparr>"

datatype program = Serve draw request int | Make_Admin nat uid string int

fun run_program :: "'n world \<Rightarrow> program \<Rightarrow> unit dbp" where
  "run_program w (Serve dw q t) = seq (handle_request w dw q) (\<lambda>_. ret ())"
| "run_program w (Make_Admin salt new_id pw t) =
     seq (create_initial_admin (w_crypto w) (w_settings w) (w_email w) salt new_id pw) (\<lambda>_. ret ())"

fun program_time :: "program \<Rightarrow> int" where
  "program_time (Serve dw q t) = t"
| "program_time (Make_Admin salt new_id pw t) = t"

text \<open>
  Programs take turns. A turn begins with a statement outside of a transaction that has written and
  ends where the next one would begin, so what a session sees in its first turn, its second and so
  on is all that the others can do to it. A running program is given by the database it started on
  and those it saw at its turns: running it on these, with one turn more that changes nothing,
  shows whether it has another turn and what is committed by then.
\<close>

record running =
  rn_program :: program
  rn_start :: db
  rn_turns :: "db list"

definition probed :: "'n world \<Rightarrow> running \<Rightarrow> store" where
  "probed w r = snd (run_program w (rn_program r)
     (session_on (rn_start r) (map (\<lambda>d _. d) (rn_turns r) @ [\<lambda>d. d]) (program_time (rn_program r))))"

definition waiting :: "'n world \<Rightarrow> running \<Rightarrow> bool" where
  "waiting w r \<longleftrightarrow> others (probed w r) = []"

definition left_by :: "'n world \<Rightarrow> running \<Rightarrow> db" where
  "left_by w r = (if waiting w r then seen (probed w r) else committed (probed w r))"

definition take_turn :: "db \<Rightarrow> running \<Rightarrow> running" where
  "take_turn d r = r\<lparr>rn_turns := rn_turns r @ [d]\<rparr>"

text \<open>
  The databases that programs admitted by \<open>P\<close> lead to from \<open>d0\<close>. Any number of them may run at a
  time; any of them may have the next turn; one that gets none any more was stopped. A program may
  also have all its turns in a row.
\<close>

inductive interleaved :: "'n world \<Rightarrow> (program \<Rightarrow> bool) \<Rightarrow> db \<Rightarrow> db \<Rightarrow> running list \<Rightarrow> bool" for w P d0 where
  Begin: "interleaved w P d0 d0 []"
| Arrive: "interleaved w P d0 d rs \<Longrightarrow> P p \<Longrightarrow>
    interleaved w P d0 d (rs @ [\<lparr>rn_program = p, rn_start = d, rn_turns = []\<rparr>])"
| Turn: "interleaved w P d0 d rs \<Longrightarrow> i < length rs \<Longrightarrow> waiting w (rs ! i) \<Longrightarrow>
    interleaved w P d0 (left_by w (take_turn d (rs ! i))) (rs[i := take_turn d (rs ! i)])"
| Alone: "interleaved w P d0 d rs \<Longrightarrow> P p \<Longrightarrow>
    interleaved w P d0 (committed (snd (run_program w p (session_on d [] (program_time p))))) rs"

end
