(* ===== verification/System_Invariants.thy ===== *)
theory System_Invariants
  imports System
begin

text \<open>
  Invariants of the database under every request: what each operation needs to keep a property of
  the rows, shared by the properties of the system that follow.
\<close>

section \<open>A property of the rows in a session\<close>

text \<open>
  The property holds of what is committed and of what the transaction sees, and the other
  transactions keep it.
\<close>

definition session_inv :: "(db \<Rightarrow> bool) \<Rightarrow> store \<Rightarrow> bool" where
  "session_inv J s \<longleftrightarrow> J (committed s) \<and> J (working s) \<and> J (seen s) \<and> (\<not> dirty s \<longrightarrow> working s = committed s) \<and>
     (\<forall>f \<in> set (others s). \<forall>d. J d \<longrightarrow> J (f d))"

lemma session_inv_let_others: "session_inv J s \<Longrightarrow> session_inv J (let_others s)"
  by (auto simp: session_inv_def let_others_def split: list.splits)

lemma session_inv_start:
  "J d \<Longrightarrow> (\<And>f e. f \<in> set fs \<Longrightarrow> J e \<Longrightarrow> J (f e)) \<Longrightarrow> session_inv J (session_on d fs t)"
  by (simp add: session_inv_def session_on_def)

lemma session_inv_committed: "session_inv J s \<Longrightarrow> J (committed s)"
  by (simp add: session_inv_def)

text \<open>A procedure that keeps the invariant of a session keeps the property from commit to commit.\<close>

lemma session_inv_run:
  assumes "keeps (session_inv J) m" "J d" "\<And>f e. f \<in> set fs \<Longrightarrow> J e \<Longrightarrow> J (f e)"
  shows "J (committed (snd (m (session_on d fs t))))"
proof (rule session_inv_committed [of J])
  have "session_inv J (session_on d fs t)" using assms(2,3) by (rule session_inv_start)
  then show "session_inv J (snd (m (session_on d fs t)))" by (rule keepsD [OF assms(1)])
qed

text \<open>
  A property that every admitted program keeps in its session holds of every database the
  interleaved programs lead to: what each of them saw has the property, so what it leaves has it.
\<close>

lemma interleaved_invariant:
  assumes "interleaved w P d0 d rs" "J d0" "\<And>p. P p \<Longrightarrow> keeps (session_inv J) (run_program w p)"
  shows "J d \<and> (\<forall>r \<in> set rs. P (rn_program r) \<and> J (rn_start r) \<and> (\<forall>e \<in> set (rn_turns r). J e))"
  using assms(1)
proof induction
  case (Turn d rs i)
  define r where "r = take_turn d (rs ! i)"
  have r: "P (rn_program r)" "J (rn_start r)" "\<forall>e \<in> set (rn_turns r). J e"
    using Turn.IH nth_mem [OF Turn.hyps(2)] by (auto simp: r_def take_turn_def)
  have "session_inv J (session_on (rn_start r) (map (\<lambda>d _. d) (rn_turns r) @ [\<lambda>d. d]) (program_time (rn_program r)))"
    using r(2,3) by (intro session_inv_start) auto
  then have "session_inv J (probed w r)"
    unfolding probed_def by (rule keepsD [OF assms(3) [OF r(1)]])
  then have "J (left_by w r)" by (simp add: left_by_def session_inv_def)
  with Turn.IH r show ?case by (auto simp: r_def dest!: subsetD [OF set_update_subset_insert])
next
  case (Alone d rs p)
  from Alone.IH have "J d" by simp
  from session_inv_run [OF assms(3) [OF Alone.hyps(2)] this, of "[]"] Alone.IH show ?case by simp
qed (use assms(2) in auto)

lemma inv_select [keeps_intros]: "keeps (session_inv J) (select q)"
  by (simp add: keeps_def select_def Let_def session_inv_let_others)

lemma inv_commit [keeps_intros]: "keeps (session_inv J) commit"
  by (simp add: keeps_def commit_def session_inv_def)

lemma inv_rollback [keeps_intros]: "keeps (session_inv J) rollback"
  by (simp add: keeps_def rollback_def session_inv_def)

lemma inv_flush:
  assumes "\<And>d. J d \<Longrightarrow> hit d \<Longrightarrow> good_db (change d) \<Longrightarrow> J (change d)"
  shows "keeps (session_inv J) (flush hit change)"
proof (rule keepsI)
  fix s assume "session_inv J s"
  then have "session_inv J (let_others s)" by (rule session_inv_let_others)
  then show "session_inv J (snd (flush hit change s))"
    using assms by (auto simp: flush_def Let_def session_inv_def good_db_def)
qed

lemma inv_close: "session_inv J s \<Longrightarrow> session_inv J (close_session s)"
  by (simp add: session_inv_def close_session_def)

lemma inv_with_session [keeps_intros]:
  assumes "keeps (session_inv J) m"
  shows "keeps (session_inv J) (with_session m)"
proof (rule keepsI)
  fix s assume "session_inv J s"
  moreover have "keeps (session_inv J) (handle m (\<lambda>e. seq rollback (\<lambda>_. raise e)))"
    by (intro keeps_intros assms)
  ultimately show "session_inv J (snd (with_session m s))"
    using inv_close by (auto simp: with_session_def keeps_def split: prod.splits)
qed

lemma keeps_case_sum [keeps_intros]:
  "(\<And>x. r = Inl x \<Longrightarrow> keeps I (f x)) \<Longrightarrow> (\<And>y. r = Inr y \<Longrightarrow> keeps I (g y)) \<Longrightarrow>
   keeps I (case r of Inl x \<Rightarrow> f x | Inr y \<Rightarrow> g y)"
  by (cases r) auto

text \<open>What follows a computed value may use how it was computed.\<close>

lemma keeps_embed_seq: "(\<And>x. r = Inr x \<Longrightarrow> keeps I (k x)) \<Longrightarrow> keeps I (seq (embed r) k)"
  by (cases r) (auto simp: keeps_def seq_def)

text \<open>Whether the values can be assigned does not depend on the row.\<close>

lemma apply_values_row: "apply_values vs u = None \<Longrightarrow> apply_values vs v = None"
proof (induction vs arbitrary: u v)
  case (Cons x vs)
  then show ?case by (cases x) (auto split: Option.bind_splits option.splits)
qed simp

section \<open>Reading operations\<close>

lemma inv_refresh [keeps_intros]: "keeps (session_inv J) (refresh q)"
  unfolding refresh_def by (intro keeps_intros)

lemma inv_users_where [keeps_intros]: "keeps (session_inv J) (users_where P)"
  unfolding users_where_def by (intro keeps_intros)

lemma inv_lookups [keeps_intros]:
  "keeps (session_inv J) (get_user_by_id i)" "keeps (session_inv J) (get_user_by_email e)"
  "keeps (session_inv J) (get_user_by_username n)" "keeps (session_inv J) get_admin_user"
  "keeps (session_inv J) (repo_list_users limit offset)"
  "keeps (session_inv J) (get_route_by_id i)" "keeps (session_inv J) (get_by_route p q)"
  "keeps (session_inv J) list_all_routes"
  unfolding get_user_by_id_def get_user_by_email_def get_user_by_username_def get_admin_user_def
    repo_list_users_def get_route_by_id_def get_by_route_def list_all_routes_def
  by (intro keeps_intros)+

lemma inv_user_queries [keeps_intros]:
  "keeps (session_inv J) (ensure_unique_identity em un cur)"
  "keeps (session_inv J) (get_user i)" "keeps (session_inv J) (list_users limit offset)"
  unfolding ensure_unique_identity_def ensure_email_def ensure_username_def get_user_def list_users_def
  by (intro keeps_intros)+

lemma inv_authentication [keeps_intros]:
  "keeps (session_inv J) (login cr st dw p)" "keeps (session_inv J) (refresh_pair cr st dw tok)"
  "keeps (session_inv J) (get_current_user cr st dw tok)" "keeps (session_inv J) (require_roles rs u)"
  unfolding login_def refresh_pair_def get_current_user_def require_roles_def
  by (intro keeps_intros)+

lemma inv_client_execute [keeps_intros]: "keeps (session_inv J) (client_execute qc k dbt stmt ps)"
  unfolding client_execute_def by (cases dbt) (auto intro: keeps_intros)

lemma inv_lab_test [keeps_intros]: "keeps (session_inv J) (run_lab_test_if_requested env w canonical)"
  unfolding run_lab_test_if_requested_def by (intro keeps_intros)

lemma inv_route_queries [keeps_intros]:
  "keeps (session_inv J) (get_route i)" "keeps (session_inv J) list_routes"
  unfolding get_route_def list_routes_def by (intro keeps_intros)+

lemma inv_run_paginated [keeps_intros]:
  "keeps (session_inv J) (run_paginated env route canonical defs ps pg sz)"
  unfolding run_paginated_def by (intro keeps_intros)

lemma inv_execute_route [keeps_intros]: "keeps (session_inv J) (execute_route env pre path raw)"
  unfolding execute_route_def by (intro keeps_intros)

section \<open>Combinators of the endpoints\<close>

lemma keeps_answered [keeps_intros]: "keeps I m \<Longrightarrow> keeps I (answered f m)"
  unfolding answered_def by (intro keeps_intros)

lemma keeps_with_payload [keeps_intros]:
  "(\<And>x. p = Inr x \<Longrightarrow> keeps I (k x)) \<Longrightarrow> keeps I (with_payload p k)"
  unfolding with_payload_def by (intro keeps_intros)

lemma keeps_with_id [keeps_intros]:
  "(\<And>x. i = Some x \<Longrightarrow> keeps I (k x)) \<Longrightarrow> keeps I bad \<Longrightarrow> keeps I (with_id k bad i)"
  unfolding with_id_def by (intro keeps_intros)

lemma inv_admin_only [keeps_intros]:
  "(\<And>u. keeps (session_inv J) (k u)) \<Longrightarrow> keeps (session_inv J) (admin_only k u)"
  unfolding admin_only_def by (intro keeps_intros)

lemma inv_admin_session [keeps_intros]:
  "(\<And>u. keeps (session_inv J) (k u)) \<Longrightarrow> keeps (session_inv J) (admin_session cr st dw tok k)"
  unfolding admin_session_def by (intro keeps_intros)

lemma inv_reject_admin [keeps_intros]: "keeps (session_inv J) (reject_admin w dw tok)"
  unfolding reject_admin_def by (intro keeps_intros)

lemma inv_with_task:
  assumes "keeps (session_inv J) m"
    and "\<And>s x task t. m s = (Inr (x, Some task), t) \<Longrightarrow> keeps (session_inv J) task"
  shows "keeps (session_inv J) (with_task f m)"
proof (rule keepsI)
  fix s assume s: "session_inv J s"
  obtain r t where m: "m s = (r, t)" by (cases "m s")
  have t: "session_inv J t" using keepsD [OF assms(1) s] m by simp
  show "session_inv J (snd (with_task f m s))"
  proof (cases r)
    case (Inl e)
    with m t show ?thesis by (simp add: with_task_def)
  next
    case (Inr y)
    then obtain x task where y: "r = Inr (x, task)" by (cases y) auto
    show ?thesis
    proof (cases task)
      case None
      with m t y show ?thesis by (simp add: with_task_def run_task_def)
    next
      case (Some task')
      then have "keeps (session_inv J) task'" using assms(2) m y by simp
      then show ?thesis using m t y Some by (simp add: with_task_def run_task_def inv_close keepsD)
    qed
  qed
qed

section \<open>Invariants that audit entries keep\<close>

text \<open>
  Every decision and every missing mapping leaves an entry in the audit log, also where a request
  only reads. A property of the database that entries keep is therefore kept by all requests but
  those that change users or routes.
\<close>

fun reading :: "request \<Rightarrow> bool" where
  "reading (Change_Password tok c n) = False"
| "reading (Create_User rq tok e n p r) = False"
| "reading (Update_Me rq tok n) = False"
| "reading (Delete_Me rq tok) = False"
| "reading (Update_User rq tok i e n p r) = False"
| "reading (Delete_User rq tok i) = False"
| "reading (Create_Dynamic_Route tok raw) = False"
| "reading (Update_Dynamic_Route tok i raw) = False"
| "reading (Delete_Dynamic_Route tok i) = False"
| "reading q = True"

locale audit_invariant =
  fixes J :: "db \<Rightarrow> bool"
  assumes insert_audit: "J d \<Longrightarrow> good_db (insert_audit a d) \<Longrightarrow> J (insert_audit a d)"
begin

lemma create_audit [keeps_intros]: "keeps (session_inv J) (create_audit_row a)"
  unfolding create_audit_row_def add_row_def by (intro keeps_intros inv_flush) (rule insert_audit)

lemma permission [keeps_intros]: "keeps (session_inv J) (require_api_permission st dw rq u)"
  unfolding require_api_permission_def write_api_permission_audit_log_def by (intro keeps_intros)

lemma audit_service [keeps_intros]:
  "keeps (session_inv J) (audit_missing_mappings dw u route ps ms)"
  "keeps (session_inv J) (audit_dynamic_route_action dw u action i pre path allowed ec)"
  unfolding audit_missing_mappings_def audit_dynamic_route_action_def by (intro keeps_intros)+

lemma router [keeps_intros]:
  "(\<And>u. keeps (session_inv J) (k u)) \<Longrightarrow> keeps (session_inv J) (users_router cr st dw rq tok k)"
  unfolding users_router_def by (intro keeps_intros)

lemma audited_writes [keeps_intros]:
  "keeps (session_inv J) m \<Longrightarrow> keeps (session_inv J) (audited_write dc dw admin action i w m)"
  unfolding audited_write_def by (intro keeps_intros)

lemma list_data [keeps_intros]:
  "keeps (session_inv J) (list_users_data_endpoint trino cache cr st dw rq tok limit offset)"
  unfolding list_users_data_endpoint_def by (intro keeps_intros)

lemma deeplink [keeps_intros]: "keeps (session_inv J) (deeplink_endpoint route service trino cache cr st dw rq tok today q)"
  unfolding deeplink_endpoint_def by (intro keeps_intros)

lemma execute [keeps_intros]: "keeps (session_inv J) (execute_dynamic_route_endpoint env cr st dw rq tok pre path)"
  unfolding execute_dynamic_route_endpoint_def by (intro keeps_intros)

lemma data_task: "data_task dw u route ps ms = Some task \<Longrightarrow> keeps (session_inv J) task"
  by (auto simp: data_task_def intro: audit_service split: if_splits)

lemma missing_task: "missing_task dw u pre path query res = Some task \<Longrightarrow> keeps (session_inv J) task"
  by (auto simp: missing_task_def intro: audit_service split: if_splits)

lemma list_data_task:
  assumes "list_users_data_endpoint trino cache cr st dw rq tok limit offset s = (Inr (x, Some task), t)"
  shows "keeps (session_inv J) task"
  using assms unfolding list_users_data_endpoint_def users_router_def
  by (auto elim!: with_session_InrE seq_InrE dest!: data_task split: if_splits)

lemma deeplink_task:
  assumes "deeplink_endpoint route service trino cache cr st dw rq tok today q s = (Inr (x, Some task), t)"
  shows "keeps (session_inv J) task"
  using assms unfolding deeplink_endpoint_def users_router_def
  by (auto elim!: with_session_InrE seq_InrE dest!: data_task split: if_splits option.splits)

lemma execute_task:
  assumes "execute_dynamic_route_endpoint env cr st dw rq tok pre path s = (Inr (x, Some task), t)"
  shows "keeps (session_inv J) task"
  using assms unfolding execute_dynamic_route_endpoint_def
  by (auto elim!: with_session_InrE seq_InrE dest!: missing_task)

lemma reading_request: "reading q \<Longrightarrow> keeps (session_inv J) (handle_request w dw q)"
  by (cases q)
     (auto simp: health_check_def login_endpoint_def token_endpoint_def refresh_endpoint_def me_endpoint_def
        list_users_endpoint_def get_user_endpoint_def get_deeplink_1_def get_deeplink_2_def
        list_dynamic_routes_endpoint_def get_dynamic_route_endpoint_def
        intro!: keeps_intros inv_with_task dest: list_data_task deeplink_task execute_task)

end

section \<open>A concrete installation\<close>

definition demo_world :: "string world" where
  "demo_world = \<lparr>w_env = demo_env, w_crypto = demo_crypto, w_settings = default_settings, w_email = Some,
     w_registered = [], w_trino_text = (\<lambda>_. Inr []), w_trino = (\<lambda>_. Inr []), w_today = Date 2024 5 6\<rparr>"

end
