(* ===== verification/Reachable.thy ===== *)
theory Reachable
  imports System_Invariants
begin

text \<open>
  What holds of every database the requests and the administrator script reach, however their
  statements interleave; and a joint property of a row's columns that concurrent updates break.
\<close>

section \<open>Sound rows\<close>

definition user_normal :: "user \<Rightarrow> bool" where
  "user_normal u \<longleftrightarrow> username_ok (username u) \<and> normalize_email (email u) = email u"

text \<open>Each column by itself is what some accepted payload had.\<close>

definition route_sound :: "'n route_env \<Rightarrow> dynamic_route \<Rightarrow> bool" where
  "route_sound env r \<longleftrightarrow>
     validate_prefix (dr_prefix r) \<and> py_lower (dr_prefix r) = dr_prefix r \<and> validate_path (dr_path r) \<and>
     list_all safe_char (dr_original_sql r) \<and>
     (accepts_text (env_sqlglot env) ''trino'' (dr_canonical_sql r) \<or>
      accepts_text (env_sqlglot env) ''postgres'' (dr_canonical_sql r)) \<and>
     (\<exists>ps. dr_parameter_definitions r = serialize_definitions (env_codec env) ps \<and>
        list_all (\<lambda>(n, d). is_identifier n \<and> validate_default d = Inr d) ps)"

definition sound_db :: "'n route_env \<Rightarrow> db \<Rightarrow> bool" where
  "sound_db env d \<longleftrightarrow> good_db d \<and> list_all user_normal (users d) \<and> list_all (route_sound env) (routes d)"

lemma sound_dbI:
  "good_db d \<Longrightarrow> list_all user_normal (users d) \<Longrightarrow> list_all (route_sound env) (routes d) \<Longrightarrow> sound_db env d"
  by (simp add: sound_db_def)

interpretation sound: audit_invariant "sound_db env" for env :: "'n route_env"
  by unfold_locales (simp add: sound_db_def insert_audit_def)

section \<open>Users stay normal\<close>

lemma sound_add_user:
  "user_normal u \<Longrightarrow> keeps (session_inv (sound_db env)) (create_user_row u)"
  unfolding create_user_row_def add_row_def Let_def
  by (intro keeps_intros inv_flush) (simp add: sound_db_def insert_user_def user_normal_def)

fun value_normal :: "user_value \<Rightarrow> bool" where
  "value_normal (SetEmail e) \<longleftrightarrow> normalize_email e = e"
| "value_normal (SetUsername n) \<longleftrightarrow> (case n of None \<Rightarrow> True | Some m \<Rightarrow> username_ok m)"
| "value_normal v \<longleftrightarrow> True"

lemma apply_values_normal:
  "apply_values vs u = Some v \<Longrightarrow> list_all value_normal vs \<Longrightarrow> user_normal u \<Longrightarrow> user_normal v"
proof (induction vs arbitrary: u)
  case (Cons x vs)
  then show ?case by (cases x) (auto simp: user_normal_def split: Option.bind_splits option.splits)
qed simp

lemma sound_update_user:
  assumes "list_all value_normal vs"
  shows "keeps (session_inv (sound_db env)) (update_user_row u vs)"
proof -
  let ?cs = "filter (changes_user u) vs"
  have row: "user_normal ((the (apply_values ?cs r))\<lparr>user_updated_at := t\<rparr>)"
    if some: "apply_values ?cs u \<noteq> None" and "user_normal r" for r t
  proof -
    obtain v where v: "apply_values ?cs r = Some v" 
      using apply_values_row [of ?cs r u] some by (cases "apply_values ?cs r") auto
    have "user_normal v" by (rule apply_values_normal [OF v]) (use assms that in \<open>auto simp: list_all_iff\<close>)
    then show ?thesis by (simp add: v user_normal_def)
  qed
  show ?thesis
    unfolding update_user_row_def Let_def
    by (intro keeps_intros inv_flush)
       (auto simp: sound_db_def replace_row_def list_all_iff row)
qed

lemma sound_delete_user: "keeps (session_inv (sound_db env)) (delete_user_row u)"
  unfolding delete_user_row_def
  by (intro keeps_intros inv_flush) (auto simp: sound_db_def delete_user_from_def list_all_iff route_sound_def)

lemma sound_user_service:
  "user_normal (new_user i p '''' RoleUser) \<Longrightarrow> keeps (session_inv (sound_db env)) (create_user cr st salt i p)"
  "(\<And>n. uu_username q = Some (Some n) \<Longrightarrow> username_ok n) \<Longrightarrow> keeps (session_inv (sound_db env)) (update_profile u q)"
  "keeps (session_inv (sound_db env)) (change_password cr st salt u c)"
  "(\<And>h. list_all value_normal (admin_updates a h)) \<Longrightarrow> keeps (session_inv (sound_db env)) (update_user cr st salt i a)"
  "keeps (session_inv (sound_db env)) (delete_account u)" "keeps (session_inv (sound_db env)) (delete_user i)"
  unfolding create_user_def update_profile_def change_password_def update_user_def delete_account_def
    delete_user_def conflict_on_integrity_def committing_def
  by (intro keeps_intros sound_add_user sound_update_user sound_delete_user;
      auto simp: new_user_def user_normal_def split: option.splits)+

section \<open>Routes stay sound\<close>

lemma validate_sound:
  assumes "validate sg (db_type_value t) sql = Inr v"
  shows "list_all safe_char sql \<and> (accepts_text sg ''trino'' (canonical_sql v) \<or> accepts_text sg ''postgres'' (canonical_sql v))"
  using assms by (cases t) (auto elim!: validate_InrE simp: accepts_text_def)

definition payload_sound :: "route_write \<Rightarrow> bool" where
  "payload_sound p \<longleftrightarrow> validate_prefix (rw_prefix p) \<and> py_lower (rw_prefix p) = rw_prefix p \<and>
     validate_path (rw_path p) \<and> list_all (\<lambda>(n, d). is_identifier n \<and> validate_default d = Inr d) (rw_params p)"

lemma schema_payload_sound: "route_write_schema raw = Inr p \<Longrightarrow> payload_sound p"
  by (auto elim!: route_write_schema_InrE
      simp: payload_sound_def normalize_prefix_def validate_parameter_names_def list_all_iff) force

lemma sound_create_route:
  assumes "payload_sound p"
  shows "keeps (session_inv (sound_db env)) (create_route env i p actor)"
proof -
  have row: "keeps (session_inv (sound_db env)) (create_route_row (new_route (env_codec env) i p (canonical_sql v) (user_id actor)))"
    if "validate (env_sqlglot env) (db_type_value (rw_db_type p)) (rw_sql p) = Inr v" for v
    unfolding create_route_row_def add_row_def Let_def
    using validate_sound [OF that] assms
    by (intro keeps_intros inv_flush)
       (auto simp: sound_db_def insert_route_def route_sound_def new_route_def payload_sound_def)
  show ?thesis
    unfolding create_route_def atomically_def
    by (intro keeps_embed_seq) (intro keeps_intros row)
qed

lemma fold_keeps: "(\<And>g r. g \<in> set gs \<Longrightarrow> P r \<Longrightarrow> P (g r)) \<Longrightarrow> P r \<Longrightarrow> P (fold (\<lambda>g. g) gs r)"
  by (induction gs arbitrary: r) auto

lemma sound_update_route_row:
  assumes "\<And>g r. g \<in> set gs \<Longrightarrow> route_sound env r \<Longrightarrow> route_sound env (g r)"
  shows "keeps (session_inv (sound_db env)) (update_route_row old gs)"
proof -
  have row: "route_sound env ((fold (\<lambda>g. g) (filter P gs) r)\<lparr>dr_updated_at := t\<rparr>)" if "route_sound env r" for r t P
  proof -
    have "route_sound env (fold (\<lambda>g. g) (filter P gs) r)"
      by (rule fold_keeps [of _ "route_sound env"]) (use assms that in auto)
    then show ?thesis by (simp add: route_sound_def)
  qed
  show ?thesis
    unfolding update_route_row_def Let_def
    by (intro keeps_intros inv_flush)
       (auto simp: sound_db_def replace_row_def list_all_iff row)
qed

lemma sound_update_route:
  assumes "payload_sound p"
  shows "keeps (session_inv (sound_db env)) (update_route env i p actor)"
proof -
  have gs: "route_sound env (g r)"
    if "validate (env_sqlglot env) (db_type_value (rw_db_type p)) (rw_sql p) = Inr v"
      "g \<in> set (route_assignments (env_codec env) p (canonical_sql v) (user_id actor))" "route_sound env r" for v g r
    using that(2,3) validate_sound [OF that(1)] assms
    by (auto simp: route_assignments_def route_sound_def payload_sound_def)
  show ?thesis
    unfolding update_route_def atomically_def
    by (rule keeps_seq [OF inv_route_queries(1)], intro keeps_embed_seq)
       (intro keeps_intros sound_update_route_row; erule gs; assumption)
qed

lemma sound_delete_route: "keeps (session_inv (sound_db env)) (delete_route i)"
  unfolding delete_route_def atomically_def delete_route_row_def
  by (intro keeps_intros inv_flush) (auto simp: sound_db_def list_all_iff)

section \<open>Every request\<close>

lemma or_invalid_Inr [simp]: "or_invalid p = Inr x \<longleftrightarrow> p = Some x"
  by (simp add: or_invalid_def split: option.splits)

lemma schema_user_normal: "user_create_schema check e n pw r = Some p \<Longrightarrow> user_normal (new_user i p h rl)"
  using username_field_ok
  by (auto simp: user_create_schema_def user_normal_def new_user_def email_field_def normalize_email_def
      split: option.splits Option.bind_splits)

lemma schema_update_normal: "user_update_schema n = Some q \<Longrightarrow> uu_username q = Some (Some m) \<Longrightarrow> username_ok m"
  using username_field_ok
  by (auto simp: user_update_schema_def nullable_def split: option.splits)

lemma schema_admin_normal:
  assumes "user_admin_update_schema check e n pw r = Some a"
  shows "list_all value_normal (admin_updates a h)"
proof -
  have e: "nullable (\<lambda>x. map_option py_lower (check x)) e = Some (ua_email a)"
    and n: "nullable username_field n = Some (ua_username a)"
    using assms by (auto simp: user_admin_update_schema_def split: Option.bind_splits)
  have "value_normal (SetEmail m)" if "ua_email a = Some m" for m
    using e that by (auto simp: nullable_def normalize_email_def split: option.splits)
  moreover have "value_normal (SetUsername m)" if "ua_username a = Some m" for m
    using n that username_field_ok by (auto simp: nullable_def split: option.splits)
  ultimately show ?thesis by (auto simp: admin_updates_def split: option.splits)
qed

lemma both_valid_Some: "both_valid p q = Some (x, y) \<longleftrightarrow> p = Some x \<and> q = Some y"
  by (auto simp: both_valid_def split: Option.bind_splits)

lemma sound_request: "keeps (session_inv (sound_db (w_env w))) (handle_request w dw q)"
proof (cases "reading q")
  case True
  then show ?thesis by (rule sound.reading_request)
next
  case False
  note endpoints = change_password_endpoint_def create_user_endpoint_def update_me_endpoint_def
    delete_me_endpoint_def update_user_endpoint_def delete_user_endpoint_def
    create_dynamic_route_endpoint_def create_dynamic_route_body_def update_dynamic_route_endpoint_def
    update_dynamic_route_body_def delete_dynamic_route_endpoint_def
  note rules = keeps_intros sound.permission sound.audit_service sound.router sound.audited_writes
    sound_user_service sound_create_route sound_update_route sound_delete_route
  show ?thesis
    using False
    by (cases q)
       (auto simp: endpoints both_valid_Some intro!: rules keeps_embed_seq
          intro: schema_user_normal schema_update_normal schema_admin_normal schema_payload_sound split: prod.splits)
qed

section \<open>Every reachable database\<close>

lemma keeps_model_of: "(\<And>x. p = Some x \<Longrightarrow> keeps I (k x)) \<Longrightarrow> keeps I (seq (model_of p) k)"
  by (cases p) (auto simp: model_of_def keeps_def seq_def ret_def raise_def)

lemma sound_create_admin:
  "keeps (session_inv (sound_db env)) (create_admin cr st check salt new_id password)"
  "keeps (session_inv (sound_db env)) (promote_user cr st check salt password u)"
  unfolding create_admin_def promote_user_def
  by (rule keeps_model_of, intro keeps_intros sound_user_service;
      erule schema_user_normal schema_admin_normal)+

lemma sound_script:
  "keeps (session_inv (sound_db env)) (create_initial_admin cr st check salt new_id password)"
proof (rule keepsI)
  fix s assume s: "session_inv (sound_db env) s"
  have "keeps (session_inv (sound_db env)) (seq get_admin_user (\<lambda>existing_admin. case existing_admin of
        Some u \<Rightarrow> ret (Skipped (email u))
      | None \<Rightarrow> seq default_user (\<lambda>existing. case existing of
          None \<Rightarrow> create_admin cr st check salt new_id password
        | Some u \<Rightarrow> promote_user cr st check salt password u)))"
    unfolding default_user_def by (intro keeps_intros sound_create_admin)
  then show "session_inv (sound_db env) (snd (create_initial_admin cr st check salt new_id password s))"
    using s inv_close by (auto simp: create_initial_admin_def keeps_def split: prod.splits)
qed

lemma sound_program: "keeps (session_inv (sound_db (w_env w))) (run_program w p)"
  by (cases p) (auto intro!: keeps_intros sound_request sound_script)

lemma sound_empty: "sound_db env empty_db"
  by (simp add: sound_db_def empty_db_def good_db_def db_ok_defs all_fit_def)

section \<open>Properties\<close>

text \<open>C3: whatever requests and runs of the administrator script a database has seen, whichever ran at
  the same time, however their statements took turns and wherever any of them was stopped, its
  rows satisfy every constraint and fit their columns, every user has a valid
  username and a lower-case address, and each column of a dynamic route is one an accepted payload
  had: a lower-case prefix and a path of the accepted form, a canonical statement the SQL policy
  accepted for one of the two dialects, parameter definitions with identifiers for names and
  defaults of their types.\<close>

theorem reachable_sound:
  assumes "interleaved w P empty_db d rs"
  shows "good_db d \<and> list_all user_normal (users d) \<and> list_all (route_sound (w_env w)) (routes d)"
proof -
  have "sound_db (w_env w) d"
    using interleaved_invariant [OF assms, of "sound_db (w_env w)"] sound_empty sound_program by blast
  then show ?thesis by (simp add: sound_db_def)
qed

text \<open>A new installation: the script has made the administrator.\<close>

definition install :: program where
  "install = Make_Admin 0 9 ''a long password'' 100"

definition installed_db :: db where
  "installed_db = committed (snd (run_program demo_world install (session_on empty_db [] 100)))"

lemma empty_clean: "clean (session_on empty_db [] t)"
  by (simp add: clean_def store_ok_def session_on_def empty_db_def good_db_def db_ok_defs all_fit_def)

lemma installed_users: "map username (users installed_db) = [''admin'']"
proof -
  let ?s = "session_on empty_db [] 100"
  have facts: "others ?s = []" "admins (committed ?s) = []" "default_candidate (committed ?s) = None"
    "9 \<notin> user_id ` set (users (committed ?s))" "users (committed ?s) = []"
    by (simp_all add: session_on_def empty_db_def admins_def default_candidate_def)
  have short: "length (prepare_password ''a long password'') \<le> 255"
    using prepare_password_shape [of "''a long password''"] by simp
  obtain u where "create_admin demo_crypto default_settings Some 0 9 ''a long password'' ?s =
      (Inr (Created u), ?s\<lparr>working := insert_user u (committed ?s), committed := insert_user u (committed ?s)\<rparr>)"
    and "username u = DEFAULT_ADMIN_USERNAME"
    using create_admin_quiet [OF empty_clean facts(1,3,4) _ _ _ demo_hash short, of Some default_settings 0] by auto
  then show ?thesis
    using get_admin_user_quiet [OF empty_clean facts(1)] default_user_quiet [OF empty_clean facts(1)] facts
    by (simp add: installed_db_def install_def demo_world_def create_initial_admin_def seq_def close_session_def
        insert_user_def DEFAULT_ADMIN_USERNAME_def)
qed

theorem reachable_sound_witness:
  "interleaved demo_world (\<lambda>_. True) empty_db installed_db [] \<and> good_db installed_db \<and>
     list_all user_normal (users installed_db) \<and> map username (users installed_db) = [''admin'']"
proof -
  have "interleaved demo_world (\<lambda>_. True) empty_db installed_db []"
    unfolding installed_db_def
    using interleaved.Alone [OF interleaved.Begin, of "\<lambda>_. True" install demo_world empty_db]
    by (simp add: install_def)
  with reachable_sound [OF this] installed_users show ?thesis by blast
qed

end
