(* ===== verification/Confinement.thy ===== *)
theory Confinement
  imports System_Invariants
begin

text \<open>
  What a client can do to the database with the tokens it has: users without the administrator
  role, together and concurrently, change no more than their own names and passwords or delete
  themselves; without a valid token nothing changes.
\<close>

section \<open>What ordinary users may change\<close>

text \<open>
  The user a token is issued for, as the request dependencies read it.
\<close>

definition token_user :: "crypto \<Rightarrow> settings \<Rightarrow> draw \<Rightarrow> string \<Rightarrow> uid option" where
  "token_user cr st dw tok =
     (case rbind (decode_token cr st (clock dw) tok Access) token_subject of Inl e \<Rightarrow> None | Inr i \<Rightarrow> Some i)"

text \<open>The request carries no token, or one of a user in \<open>I\<close>, or one that is not accepted.\<close>

fun names_only :: "uid set \<Rightarrow> 'n world \<Rightarrow> program \<Rightarrow> bool" where
  "names_only I w (Serve dw q t) =
     (case request_token q of
        None \<Rightarrow> True
      | Some tok \<Rightarrow> (case token_user (w_crypto w) (w_settings w) dw tok of None \<Rightarrow> True | Some i \<Rightarrow> i \<in> I))"
| "names_only I w (Make_Admin salt new_id pw t) = False"

text \<open>
  Against \<open>d0\<close>: the users outside \<open>I\<close> are untouched; everyone was there before, with the same
  role, address and creation; the routes are the same but for references to users that are gone;
  every audit entry is still there, but for such references, and new ones are behind them.
\<close>

definition same_identity :: "user \<Rightarrow> user \<Rightarrow> bool" where
  "same_identity u v \<longleftrightarrow> user_id u = user_id v \<and> user_role u = user_role v \<and> email u = email v \<and>
     user_created_at u = user_created_at v"

definition route_body :: "dynamic_route \<Rightarrow> dynamic_route" where
  "route_body r = r\<lparr>dr_created_by := None, dr_updated_by := None\<rparr>"

definition audit_body :: "audit_log \<Rightarrow> audit_log" where
  "audit_body a = a\<lparr>al_user_id := None\<rparr>"

definition confined :: "uid set \<Rightarrow> db \<Rightarrow> db \<Rightarrow> bool" where
  "confined I d0 d \<longleftrightarrow>
     filter (\<lambda>u. user_id u \<notin> I) (users d) = filter (\<lambda>u. user_id u \<notin> I) (users d0) \<and>
     (\<forall>u \<in> set (users d). \<exists>v \<in> set (users d0). same_identity u v) \<and>
     map route_body (routes d) = map route_body (routes d0) \<and>
     prefix (map audit_body (audit_logs d0)) (map audit_body (audit_logs d))"

lemma confined_refl: "confined I d d"
  by (auto simp: confined_def same_identity_def)

interpretation confined: audit_invariant "confined I d0" for I d0
  by unfold_locales (auto simp: confined_def insert_audit_def prefix_def)

section \<open>Their operations\<close>

text \<open>Assignments that touch neither the address nor the role.\<close>

fun own_value :: "user_value \<Rightarrow> bool" where
  "own_value (SetUsername n) = True"
| "own_value (SetHashedPassword h) = True"
| "own_value v = False"

lemma own_values_identity:
  "apply_values vs u = Some v \<Longrightarrow> list_all own_value vs \<Longrightarrow> same_identity v u"
proof (induction vs arbitrary: u)
  case Nil
  then show ?case by (simp add: same_identity_def)
next
  case (Cons x vs)
  then obtain y where y: "apply_value x u = Some y" "apply_values vs y = Some v"
    by (auto split: Option.bind_splits)
  have "same_identity y u" using y(1) Cons.prems(2) by (cases x) (auto simp: same_identity_def)
  with Cons.IH [OF y(2)] Cons.prems(2) show ?case by (simp add: same_identity_def)
qed

lemma confined_update_user:
  assumes "list_all own_value vs" "user_id u \<in> I"
  shows "keeps (session_inv (confined I d0)) (update_user_row u vs)"
proof -
  let ?cs = "filter (changes_user u) vs"
  have row: "same_identity ((the (apply_values ?cs r))\<lparr>user_updated_at := t\<rparr>) r"
    if some: "apply_values ?cs u \<noteq> None" for r t
  proof -
    obtain v where v: "apply_values ?cs r = Some v"
      using apply_values_row [of ?cs r u] some by (cases "apply_values ?cs r") auto
    have "same_identity v r" by (rule own_values_identity [OF v]) (use assms in \<open>auto simp: list_all_iff\<close>)
    then show ?thesis by (simp add: v same_identity_def)
  qed
  have change: "confined I d0 (d\<lparr>users := replace_row (\<lambda>r. user_id r = user_id u) f (users d)\<rparr>)"
    if d: "confined I d0 d" and f: "\<And>r. same_identity (f r) r" for d f
  proof -
    have "filter (\<lambda>u. user_id u \<notin> I) (replace_row (\<lambda>r. user_id r = user_id u) f us) = filter (\<lambda>u. user_id u \<notin> I) us" for us
      using assms(2) f by (induction us) (auto simp: replace_row_def same_identity_def)
    moreover have "\<exists>v \<in> set (users d0). same_identity r v"
      if "r \<in> set (replace_row (\<lambda>r. user_id r = user_id u) f (users d))" for r
    proof -
      from that obtain x where x: "x \<in> set (users d)" "same_identity r x"
        using f by (auto simp: replace_row_def same_identity_def split: if_splits)
      with d obtain v where "v \<in> set (users d0)" "same_identity x v" by (auto simp: confined_def)
      with x(2) show ?thesis by (auto simp: same_identity_def)
    qed
    ultimately show ?thesis using d by (simp add: confined_def)
  qed
  show ?thesis
    unfolding update_user_row_def Let_def
    by (intro keeps_intros inv_flush) (auto intro!: change row)
qed

lemma confined_delete_user:
  assumes "user_id u \<in> I"
  shows "keeps (session_inv (confined I d0)) (delete_user_row u)"
proof -
  have users: "filter (\<lambda>v. user_id v \<noteq> user_id u \<and> user_id v \<notin> I) us = filter (\<lambda>v. user_id v \<notin> I) us" for us
    using assms by (induction us) auto
  have bodies: "map route_body (routes (delete_user_from i d)) = map route_body (routes d)"
    "map audit_body (audit_logs (delete_user_from i d)) = map audit_body (audit_logs d)" for i d
    by (simp_all add: delete_user_from_def route_body_def audit_body_def)
  have "confined I d0 (delete_user_from (user_id u) d)" if "confined I d0 d" for d
    using that unfolding confined_def bodies by (auto simp: delete_user_from_def users)
  then show ?thesis unfolding delete_user_row_def by (intro inv_flush)
qed

lemma confined_own_account:
  assumes "user_id u \<in> I"
  shows "keeps (session_inv (confined I d0)) (change_password cr st salt u c)"
    "keeps (session_inv (confined I d0)) (update_profile u p)"
    "keeps (session_inv (confined I d0)) (delete_account u)"
  unfolding change_password_def update_profile_def delete_account_def conflict_on_integrity_def committing_def
  by (intro keeps_intros confined_update_user confined_delete_user assms; simp split: option.splits)+

section \<open>Their requests\<close>

lemma get_current_user_of:
  assumes "get_current_user cr st dw tok s = (Inr u, t)"
  shows "token_user cr st dw tok = Some (user_id u) \<and> u \<in> set (users (working (let_others s)))"
proof -
  from assms obtain payload i t' where
    tok: "decode_token cr st (clock dw) tok Access = Inr payload" "token_subject payload = Inr i"
    and "get_user_by_id i s = (Inr (Some u), t')"
    unfolding get_current_user_def
    by (elim seq_InrE) (auto simp: embed_def ret_def raise_def split: option.splits)
  then have "filter (\<lambda>u. user_id u = i) (users (working (let_others s))) = [u]"
    by (auto simp: get_user_by_id_def users_where_def seq_def select_def Let_def embed_def scalar_one_or_none_def
        split: list.splits)
  then have "u \<in> set (filter (\<lambda>u. user_id u = i) (users (working (let_others s))))" by simp
  with tok show ?thesis by (simp add: token_user_def rbind_def)
qed

lemma keeps_seq_result:
  assumes "keeps I m" "\<And>s x t. I s \<Longrightarrow> m s = (Inr x, t) \<Longrightarrow> Q x" "\<And>x. Q x \<Longrightarrow> keeps I (k x)"
  shows "keeps I (seq m k)"
proof (rule keepsI)
  fix s assume s: "I s"
  obtain r t where m: "m s = (r, t)" by (cases "m s")
  have "I t" using keepsD [OF assms(1) s] m by simp
  with m s assms(2,3) show "I (snd (seq m k s))" by (cases r) (auto simp: seq_def keeps_def)
qed

lemma keeps_permitted:
  assumes "keeps (session_inv (confined I d0)) (k u)"
  shows "keeps (session_inv (confined I d0)) (seq (require_api_permission st dw rq u) k)"
  by (rule keeps_seq_result [where Q = "\<lambda>v. v = u"])
     (auto intro: confined.permission assms dest: require_api_permission_user)

lemma keeps_denied:
  "user_role u = RoleUser \<Longrightarrow> keeps I (admin_only k u)"
  "user_role u = RoleUser \<Longrightarrow> keeps I (seq (require_roles [RoleAdmin] u) k)"
  by (simp_all add: admin_only_def require_roles_def keeps_def seq_def raise_def)

text \<open>No user in \<open>I\<close> was an administrator.\<close>

definition ordinary :: "uid set \<Rightarrow> db \<Rightarrow> bool" where
  "ordinary I d \<longleftrightarrow> list_all (\<lambda>u. user_id u \<notin> I \<or> user_role u = RoleUser) (users d)"

lemma confined_role:
  assumes "ordinary I d0" "confined I d0 d" "u \<in> set (users d)" "user_id u \<in> I"
  shows "user_role u = RoleUser"
proof -
  from assms(2,3) obtain v where "v \<in> set (users d0)" "same_identity u v" by (auto simp: confined_def)
  with assms(1,4) show ?thesis by (auto simp: ordinary_def list_all_iff same_identity_def)
qed

lemma keeps_current_user:
  assumes "ordinary I d0" "case token_user cr st dw tok of None \<Rightarrow> True | Some i \<Rightarrow> i \<in> I"
    and "\<And>u. user_role u = RoleUser \<Longrightarrow> user_id u \<in> I \<Longrightarrow> keeps (session_inv (confined I d0)) (k u)"
  shows "keeps (session_inv (confined I d0)) (seq (get_current_user cr st dw tok) k)"
proof (rule keeps_seq_result [where Q = "\<lambda>u. user_role u = RoleUser \<and> user_id u \<in> I"])
  fix s u t assume s: "session_inv (confined I d0) s" and run: "get_current_user cr st dw tok s = (Inr u, t)"
  from session_inv_let_others [OF s] have "confined I d0 (working (let_others s))" by (simp add: session_inv_def)
  then show "user_role u = RoleUser \<and> user_id u \<in> I"
    using get_current_user_of [OF run] assms(2) confined_role [OF assms(1)] by auto
qed (auto intro: inv_authentication assms(3))

lemma confined_request:
  assumes "ordinary I d0" "names_only I w (Serve dw q t)"
  shows "keeps (session_inv (confined I d0)) (handle_request w dw q)"
proof (cases "reading q")
  case True
  then show ?thesis by (rule confined.reading_request)
next
  case False
  note endpoints = change_password_endpoint_def create_user_endpoint_def update_me_endpoint_def
    delete_me_endpoint_def update_user_endpoint_def delete_user_endpoint_def users_router_def admin_session_def
    create_dynamic_route_endpoint_def update_dynamic_route_endpoint_def delete_dynamic_route_endpoint_def
    reject_admin_def with_id_def
  show ?thesis
    using False assms(2)
    by (cases q)
       (auto simp: endpoints split: option.splits prod.splits
         intro!: keeps_answered inv_with_session keeps_current_user [OF assms(1)] keeps_permitted keeps_denied
           keeps_with_payload confined_own_account)
qed

section \<open>Requests without a valid token\<close>

lemma clean_ends [simp]: "clean s \<Longrightarrow> close_session s = s" "clean s \<Longrightarrow> rollback s = (Inr (), s)"
  using clean_working [of s] by (auto simp: close_session_def rollback_def clean_def)

lemma reads_only_with_session:
  assumes "reads_only m"
  shows "reads_only (with_session m)"
proof -
  have "clean (snd (with_session m s)) \<and> only_others s (snd (with_session m s))" if "clean s" for s
  proof -
    obtain r t where m: "m s = (r, t)" by (cases "m s")
    from reads_onlyD [OF assms that this] show ?thesis
      by (cases r) (auto simp: with_session_def handle_def seq_def raise_def m)
  qed
  then show ?thesis by (simp add: reads_only_def)
qed

lemma reads_only_authentication [reads_intros]:
  "reads_only (login cr st dw p)" "reads_only (refresh_pair cr st dw tok)" "reads_only (get_current_user cr st dw tok)"
  unfolding login_def refresh_pair_def get_current_user_def by (intro reads_intros)+

lemma reads_only_sum [reads_intros]:
  "(\<And>x. reads_only (f x)) \<Longrightarrow> (\<And>y. reads_only (g y)) \<Longrightarrow> reads_only (case r of Inl x \<Rightarrow> f x | Inr y \<Rightarrow> g y)"
  by (cases r) auto

lemma reads_only_open_request:
  "request_token q = None \<Longrightarrow> reads_only (handle_request w dw q)"
  by (cases q)
     (auto simp: answered_def health_check_def login_endpoint_def token_endpoint_def refresh_endpoint_def
        with_payload_def intro!: reads_intros reads_only_with_session)

lemma rejected_session:
  assumes "clean t" "m s = (Inl e, t)"
  shows "with_session (seq m k) s = (Inl e, t)" "with_session m s = (Inl e, t)"
  using assms by (auto simp: with_session_def handle_def seq_def raise_def)

lemma rejected_request:
  assumes "request_token q = Some tok" "clean t" "get_current_user (w_crypto w) (w_settings w) dw tok s = (Inl e, t)"
  shows "handle_request w dw q s = (Inl e, t)"
proof -
  note gone = rejected_session [where m = "get_current_user (w_crypto w) (w_settings w) dw tok", OF assms(2,3)]
  show ?thesis
    using assms(1)
    by (cases q)
       (auto simp: answered_def seq_def with_task_def gone me_endpoint_def change_password_endpoint_def
          create_user_endpoint_def list_users_endpoint_def update_me_endpoint_def delete_me_endpoint_def
          get_user_endpoint_def update_user_endpoint_def delete_user_endpoint_def users_router_def admin_session_def
          list_users_data_endpoint_def deeplink_endpoint_def get_deeplink_1_def get_deeplink_2_def
          create_dynamic_route_endpoint_def list_dynamic_routes_endpoint_def get_dynamic_route_endpoint_def
          update_dynamic_route_endpoint_def delete_dynamic_route_endpoint_def execute_dynamic_route_endpoint_def
          reject_admin_def with_id_def split: option.splits)
qed

section \<open>Properties\<close>

text \<open>C4: ordinary users are confined, also together and concurrently: after any interleaving of requests
  whose tokens name only users without the administrator role, or no user, every other user is exactly
  as before, nobody is new and nobody's role, address or creation changed, the routes have the same
  definitions, and every audit entry is still there in its place; only new entries, new names and
  passwords of those users, and their own deletion with the references it clears are possible.\<close>

theorem ordinary_users_confined:
  assumes "interleaved w (names_only I w) d0 d rs" and "ordinary I d0"
  shows "confined I d0 d"
proof -
  have "keeps (session_inv (confined I d0)) (run_program w p)" if "names_only I w p" for p
    using that by (cases p) (auto intro!: keeps_intros confined_request [OF assms(2)])
  with interleaved_invariant [OF assms(1), of "confined I d0"] confined_refl show ?thesis by blast
qed

text \<open>Alice tries to delete the administrator while she changes her own password.\<close>

definition alice_world :: "string world" where
  "alice_world = demo_world\<lparr>w_crypto := alice_crypto\<rparr>"

definition delete_root :: program where
  "delete_root = Serve demo_draw (Delete_User \<lparr>url_path = ''/api/v1/users/1'', query_params = [],
     matched_route = ''/api/v1/users/{user_id}''\<rparr> ''A'' (Some 1)) 300"

definition change_own :: program where
  "change_own = Serve demo_draw (Change_Password ''A'' ''old password'' ''a new password'') 301"

lemma alice_token: "token_user alice_crypto default_settings demo_draw ''A'' = Some 2"
proof -
  have "decode_token alice_crypto default_settings (clock demo_draw) ''A'' Access = Inr (access_claims default_settings demo_draw alice)"
    by (simp add: decode_token_Inr alice_crypto_def claims_fields)
  then show ?thesis by (simp add: token_user_def rbind_def subject_of_claims claims_fields alice_facts)
qed

definition fresh :: "program \<Rightarrow> running" where
  "fresh p = \<lparr>rn_program = p, rn_start = demo_db, rn_turns = []\<rparr>"

text \<open>A session in which the others are done stays one; both programs wait for a first turn.\<close>

lemma idle_statements [keeps_intros]:
  "keeps (\<lambda>s. others s = []) (select q)" "keeps (\<lambda>s. others s = []) (flush hit change)"
  "keeps (\<lambda>s. others s = []) commit" "keeps (\<lambda>s. others s = []) rollback"
  by (auto simp: keeps_def select_def flush_def commit_def rollback_def Let_def)

lemma idle_statement_rows [keeps_intros]:
  "keeps (\<lambda>s. others s = []) (update_user_row u vs)" "keeps (\<lambda>s. others s = []) (delete_user_row u)"
  "keeps (\<lambda>s. others s = []) (get_user_by_id i)" "keeps (\<lambda>s. others s = []) (create_audit_row a)"
  unfolding update_user_row_def delete_user_row_def get_user_by_id_def users_where_def create_audit_row_def
    add_row_def refresh_def Let_def
  by (intro keeps_intros)+

lemma waiting_first:
  assumes "\<And>u. keeps (\<lambda>s. others s = []) (k u)"
  shows "others (snd (with_session (seq (get_current_user alice_crypto default_settings demo_draw ''A'') k)
    (session_on d [f] t))) = []"
proof -
  let ?m = "get_current_user alice_crypto default_settings demo_draw ''A''"
  have "token_user alice_crypto default_settings demo_draw ''A'' \<noteq> None" by (simp add: alice_token)
  then obtain payload i where tok: "decode_token alice_crypto default_settings (clock demo_draw) ''A'' Access = Inr payload"
      "token_subject payload = Inr i"
    by (auto simp: token_user_def rbind_def split: sum.splits)
  have "others (snd (?m (session_on d [f] t))) = []"
    unfolding get_current_user_def get_user_by_id_def users_where_def
    by (simp add: seq_def embed_def tok select_def Let_def let_others_def session_on_def ret_def raise_def
        split: sum.splits option.splits)
  then have "others (snd (seq ?m k (session_on d [f] t))) = []"
    using assms by (auto simp: seq_def keeps_def split: prod.splits sum.splits)
  then show ?thesis
    by (auto simp: with_session_def handle_def seq_def raise_def rollback_def close_session_def split: prod.splits sum.splits)
qed

lemma snd_seq_ret: "snd (seq m (\<lambda>x. ret (f x)) s) = snd (m s)"
  by (auto simp: seq_def ret_def split: prod.splits sum.splits)

lemma first_turns: "waiting alice_world (fresh delete_root)" "waiting alice_world (fresh change_own)"
proof -
  note prog = waiting_def probed_def fresh_def alice_world_def demo_world_def answered_def snd_seq_ret
  have "keeps (\<lambda>s. others s = []) (seq (require_api_permission st dw rq u) (admin_only (\<lambda>_. with_payload p delete_user)))"
    for st dw rq u p
    unfolding require_api_permission_def write_api_permission_audit_log_def admin_only_def require_roles_def
      with_payload_def delete_user_def get_user_def Let_def
    by (intro keeps_intros)
  from waiting_first [OF this] show "waiting alice_world (fresh delete_root)"
    by (simp add: prog delete_root_def delete_user_endpoint_def users_router_def)
  have "keeps (\<lambda>s. others s = []) (with_payload p (change_password cr st salt u))" for p cr st salt u
    unfolding with_payload_def change_password_def Let_def by (intro keeps_intros)
  from waiting_first [OF this] show "waiting alice_world (fresh change_own)"
    by (simp add: prog change_own_def change_password_endpoint_def)
qed

lemma alice_interleaving:
  "\<exists>d e. interleaved alice_world (names_only {2} alice_world) demo_db d
     [take_turn demo_db (fresh delete_root), take_turn e (fresh change_own)]"
proof -
  let ?P = "names_only {2} alice_world"
  have ok: "?P delete_root" "?P change_own"
    by (simp_all add: delete_root_def change_own_def alice_world_def demo_world_def alice_token)
  have "interleaved alice_world ?P demo_db demo_db [fresh delete_root, fresh change_own]"
    using interleaved.Arrive [where p = change_own, OF interleaved.Arrive [where p = delete_root, OF interleaved.Begin]] ok
    by (simp add: fresh_def)
  from interleaved.Turn [OF interleaved.Turn [OF this, of 0], of 1] first_turns show ?thesis by auto
qed

theorem ordinary_users_confined_witness:
  "\<exists>d rs. interleaved alice_world (names_only {2} alice_world) demo_db d rs \<and>
     map (\<lambda>r. length (rn_turns r)) rs = [1, 1] \<and>
     filter (\<lambda>u. user_id u \<noteq> 2) (users d) = filter (\<lambda>u. user_id u \<noteq> 2) (users demo_db)"
proof -
  obtain d e where d: "interleaved alice_world (names_only {2} alice_world) demo_db d
      [take_turn demo_db (fresh delete_root), take_turn e (fresh change_own)]"
    using alice_interleaving by blast
  moreover have "ordinary {2} demo_db" by (simp add: ordinary_def demo_db_def)
  ultimately have "confined {2} demo_db d" by (rule ordinary_users_confined)
  then have "filter (\<lambda>u. user_id u \<noteq> 2) (users d) = filter (\<lambda>u. user_id u \<noteq> 2) (users demo_db)"
    by (simp add: confined_def)
  with d show ?thesis by (intro exI conjI) (assumption, simp_all add: take_turn_def fresh_def)
qed

text \<open>C8: without a valid token nothing is written: a request that carries none, or whose token does not
  authenticate, leaves the database to the other transactions, whatever they do in between; and a
  request that needs a token is then answered with the authentication's error and nothing else.\<close>

theorem anonymous_requests_inert:
  assumes "clean s" and "handle_request w dw q s = (r, t)"
    and "case request_token q of None \<Rightarrow> True
       | Some tok \<Rightarrow> isl (fst (get_current_user (w_crypto w) (w_settings w) dw tok s))"
  shows "clean t \<and> only_others s t \<and>
     (case request_token q of None \<Rightarrow> True
      | Some tok \<Rightarrow> r = Inl (projl (fst (get_current_user (w_crypto w) (w_settings w) dw tok s))))"
proof (cases "request_token q")
  case None
  with reads_onlyD [OF reads_only_open_request assms(1,2)] show ?thesis by simp
next
  case (Some tok)
  obtain x s' where cur: "get_current_user (w_crypto w) (w_settings w) dw tok s = (x, s')" by force
  with assms(3) Some obtain e where x: "x = Inl e" by (auto simp: isl_def)
  from reads_onlyD [OF reads_only_authentication(3) assms(1) cur] have "clean s'" "only_others s s'" by auto
  with rejected_request [OF Some _ cur [unfolded x]] assms(2) Some cur x show ?thesis by auto
qed

theorem anonymous_requests_inert_witness:
  "\<exists>e t. handle_request demo_world demo_draw (Delete_Dynamic_Route ''forged'' (Some 5)) (demo_store []) = (Inl e, t) \<and>
     committed t = demo_db"
proof -
  let ?q = "Delete_Dynamic_Route ''forged'' (Some 5)"
  obtain r t where run: "handle_request demo_world demo_draw ?q (demo_store []) = (r, t)" by force
  have "isl (fst (get_current_user (w_crypto demo_world) (w_settings demo_world) demo_draw ''forged'' (demo_store [])))"
    by (simp add: demo_world_def get_current_user_def decode_token_def demo_crypto_def seq_def)
  then have "case request_token ?q of None \<Rightarrow> True
      | Some tok \<Rightarrow> isl (fst (get_current_user (w_crypto demo_world) (w_settings demo_world) demo_draw tok (demo_store [])))"
    by simp
  from anonymous_requests_inert [OF demo_quiet(1) run this] only_others_quiet [OF demo_quiet(2), of t] run
  show ?thesis by (auto simp: demo_store_def)
qed

end
