(* ===== verification/Audit_Trail.thy ===== *)
theory Audit_Trail
  imports Confinement
begin

text \<open>
  The audit log of the whole application: no request and no interleaving of requests, of whatever
  users, removes or changes an entry, and a response that reports values without a mapping leaves
  the entry that names them.
\<close>

section \<open>Entries stay\<close>

text \<open>
  What may happen to an entry: the reference to its user is cleared when the user is deleted. The
  entries of \<open>d0\<close> are the first ones of \<open>d\<close>, in their order.
\<close>

definition entry_kept :: "audit_log \<Rightarrow> audit_log \<Rightarrow> bool" where
  "entry_kept a b \<longleftrightarrow> b = a \<or> b = a\<lparr>al_user_id := None\<rparr>"

definition log_kept :: "db \<Rightarrow> db \<Rightarrow> bool" where
  "log_kept d0 d \<longleftrightarrow> (\<exists>old new. audit_logs d = old @ new \<and> list_all2 entry_kept (audit_logs d0) old)"

lemma entry_kept_refl [simp]: "entry_kept a a"
  by (simp add: entry_kept_def)

lemma log_kept_refl: "log_kept d d"
  unfolding log_kept_def by (metis append_Nil2 entry_kept_refl list_all2_refl)

lemma log_kept_insert: "log_kept d0 d \<Longrightarrow> log_kept d0 (insert_audit a d)"
  unfolding log_kept_def insert_audit_def by simp (metis append_assoc)

lemma log_kept_same: "audit_logs e = audit_logs d \<Longrightarrow> log_kept d0 d \<Longrightarrow> log_kept d0 e"
  by (simp add: log_kept_def)

lemma log_kept_map:
  assumes "log_kept d0 d" "audit_logs e = map f (audit_logs d)" "\<And>a b. entry_kept a b \<Longrightarrow> entry_kept a (f b)"
  shows "log_kept d0 e"
proof -
  from assms(1) obtain old new where *: "audit_logs d = old @ new" "list_all2 entry_kept (audit_logs d0) old"
    by (auto simp: log_kept_def)
  from *(2) have "list_all2 entry_kept (audit_logs d0) (map f old)"
    by (auto simp: list_all2_conv_all_nth intro: assms(3))
  with *(1) assms(2) show ?thesis unfolding log_kept_def by (metis map_append)
qed

interpretation trail: audit_invariant "log_kept d0" for d0
  by unfold_locales (rule log_kept_insert)

lemma trail_rows [keeps_intros]:
  "keeps (session_inv (log_kept d0)) (create_user_row u)" "keeps (session_inv (log_kept d0)) (update_user_row u vs)"
  "keeps (session_inv (log_kept d0)) (create_route_row r)" "keeps (session_inv (log_kept d0)) (update_route_row r gs)"
  "keeps (session_inv (log_kept d0)) (delete_route_row r)"
  unfolding create_user_row_def update_user_row_def create_route_row_def update_route_row_def delete_route_row_def
    add_row_def Let_def
  by (intro keeps_intros inv_flush; erule log_kept_same [rotated]; simp add: insert_user_def insert_route_def)+

lemma trail_delete_user [keeps_intros]: "keeps (session_inv (log_kept d0)) (delete_user_row u)"
  unfolding delete_user_row_def
  by (rule inv_flush, erule log_kept_map [where f = "\<lambda>a. a\<lparr>al_user_id := unref (user_id u) (al_user_id a)\<rparr>"])
     (auto simp: delete_user_from_def entry_kept_def unref_def split: option.splits)

lemma trail_services [keeps_intros]:
  "keeps (session_inv (log_kept d0)) (create_user cr st salt i p)"
  "keeps (session_inv (log_kept d0)) (update_profile u q)"
  "keeps (session_inv (log_kept d0)) (change_password cr st salt u c)"
  "keeps (session_inv (log_kept d0)) (update_user cr st salt i a)"
  "keeps (session_inv (log_kept d0)) (delete_account u)"
  "keeps (session_inv (log_kept d0)) (delete_user i)"
  "keeps (session_inv (log_kept d0)) (create_route env i w actor)"
  "keeps (session_inv (log_kept d0)) (update_route env i w actor)"
  "keeps (session_inv (log_kept d0)) (delete_route i)"
  unfolding create_user_def update_profile_def change_password_def update_user_def delete_account_def delete_user_def
    create_route_def update_route_def delete_route_def conflict_on_integrity_def committing_def atomically_def
  by (intro keeps_intros)+

lemma trail_request: "keeps (session_inv (log_kept d0)) (handle_request w dw q)"
proof (cases "reading q")
  case True
  then show ?thesis by (rule trail.reading_request)
next
  case False
  note endpoints = change_password_endpoint_def create_user_endpoint_def update_me_endpoint_def
    delete_me_endpoint_def update_user_endpoint_def delete_user_endpoint_def
    create_dynamic_route_endpoint_def create_dynamic_route_body_def update_dynamic_route_endpoint_def
    update_dynamic_route_body_def delete_dynamic_route_endpoint_def
  show ?thesis
    using False
    by (cases q)
       (auto simp: endpoints intro!: keeps_intros trail.permission trail.audit_service trail.router trail.audited_writes
         split: prod.splits)
qed

lemma trail_script: "keeps (session_inv (log_kept d0)) (create_initial_admin cr st check salt new_id password)"
proof -
  have "keeps (session_inv (log_kept d0)) (seq get_admin_user (\<lambda>existing_admin. case existing_admin of
        Some u \<Rightarrow> ret (Skipped (email u))
      | None \<Rightarrow> seq default_user (\<lambda>existing. case existing of
          None \<Rightarrow> create_admin cr st check salt new_id password
        | Some u \<Rightarrow> promote_user cr st check salt password u)))"
    unfolding default_user_def create_admin_def promote_user_def model_of_def by (intro keeps_intros)
  then show ?thesis using inv_close by (auto simp: create_initial_admin_def keeps_def split: prod.splits)
qed

lemma trail_program: "keeps (session_inv (log_kept d0)) (run_program w p)"
  by (cases p) (auto intro!: keeps_intros trail_request trail_script)

section \<open>Entries of the data endpoints\<close>

definition demo_http :: http_request where
  "demo_http = \<lparr>url_path = ''/api/v1/data/users'', query_params = [], matched_route = ''/api/v1/data/users''\<rparr>"

text \<open>
  The endpoints that answer with rows: their path, and the values without a mapping they report.
\<close>

fun data_request :: "request \<Rightarrow> http_request option" where
  "data_request (List_Users_Data rq tok limit offset) = Some rq"
| "data_request (Get_Deeplink_1 rq tok q) = Some rq"
| "data_request (Get_Deeplink_2 rq tok q) = Some rq"
| "data_request (Execute_Dynamic_Route rq tok pre path) = Some rq"
| "data_request q = None"

text \<open>The name under which the report is filed, and the parameters it gives.\<close>

fun report_route :: "request \<Rightarrow> string" where
  "report_route (List_Users_Data rq tok limit offset) = ''data.users''"
| "report_route (Get_Deeplink_1 rq tok q) = ''power_bi.deeplink_1''"
| "report_route (Get_Deeplink_2 rq tok q) = ''power_bi.deeplink_2''"
| "report_route (Execute_Dynamic_Route rq tok pre path) = ''dynamic-route:'' @ pre @ ''/'' @ path"
| "report_route q = []"

fun report_parameters :: "'n world \<Rightarrow> request \<Rightarrow> row" where
  "report_parameters w (List_Users_Data rq tok limit offset) = [(''limit'', PInt limit), (''offset'', PInt offset)]"
| "report_parameters w (Get_Deeplink_1 rq tok q) =
     (case power_bi_request_schema (w_today w) q of Inl e \<Rightarrow> [] | Inr p \<Rightarrow> request_dump p)"
| "report_parameters w (Get_Deeplink_2 rq tok q) =
     (case power_bi_request_schema (w_today w) q of Inl e \<Rightarrow> [] | Inr p \<Rightarrow> request_dump p)"
| "report_parameters w (Execute_Dynamic_Route rq tok pre path) =
     [(''parameter_names'', str_list (py_sorted_set (query_keys (query_params rq))))]"
| "report_parameters w q = []"

fun answer_missing :: "answer \<Rightarrow> missing_mapping list" where
  "answer_missing (Data_Rows r) = snd r"
| "answer_missing (Route_Rows r) = result_missing r"
| "answer_missing a = []"

text \<open>An entry can be stored when its values are JSON and it fits its columns.\<close>

definition storable :: "audit_log \<Rightarrow> bool" where
  "storable a \<longleftrightarrow> row_json_ok (the (al_parameters a)) \<and> audit_fits a"

definition missing_entries :: "draw \<Rightarrow> user \<Rightarrow> string \<Rightarrow> row \<Rightarrow> missing_mapping list \<Rightarrow> audit_log list" where
  "missing_entries dw u route ps ms =
     (if ms = [] then [] else filter storable [missing_mappings_entry dw u route ps ms])"

definition report_task :: "draw \<Rightarrow> user \<Rightarrow> string \<Rightarrow> row \<Rightarrow> missing_mapping list \<Rightarrow> unit dbp option" where
  "report_task dw u route ps ms = (if ms \<noteq> [] then Some (audit_missing_mappings dw u route ps ms) else None)"

lemma report_task_logs:
  assumes "clean s" "others s = []" "u \<in> set (users (committed s))"
    and "task_audit_id dw \<notin> al_id ` set (audit_logs (committed s))"
  shows "audit_logs (committed (run_task (report_task dw u route ps ms) s)) =
     audit_logs (committed s) @ missing_entries dw u route ps ms"
proof (cases "ms = []")
  case False
  let ?e = "missing_mappings_entry dw u route ps ms"
  have ids: "al_id ?e = task_audit_id dw" "al_user_id ?e = Some (user_id u)"
    by (simp_all add: missing_mappings_entry_def)
  have "committed (close_session (snd (audit_missing_mappings dw u route ps ms s))) =
      (if storable ?e then insert_audit ?e (committed s) else committed s)"
    using audit_commit [OF assms(1), of ?e] assms(2-4)
    by (auto simp: audit_missing_mappings_def storable_def Let_def raise_def close_session_def ids refers_def)
  with False show ?thesis by (simp add: report_task_def run_task_def missing_entries_def insert_audit_def)
qed (simp add: report_task_def run_task_def missing_entries_def)

text \<open>
  An endpoint behind the permission check that only reads: its request leaves the entry of the
  decision and, after the response, that of its report.
\<close>

lemma router_logs:
  assumes "clean s" "others s = []"
    and "audit_id dw \<notin> al_id ` set (audit_logs (committed s))"
    and "task_audit_id dw \<notin> al_id ` set (audit_logs (committed s))" "task_audit_id dw \<noteq> audit_id dw"
    and run: "with_task f (users_router cr st dw rq tok k) s = (Inr a, t)"
    and reads: "\<And>u. reads_only (k u)"
    and report: "\<And>u r x task r'. k u r = (Inr (x, task), r') \<Longrightarrow> task = report_task dw u route ps (answer_missing (f x))"
  shows "\<exists>u s1. get_current_user cr st dw tok s = (Inr u, s1) \<and> u \<in> set (users (committed s)) \<and> audit_logs (committed t) =
     audit_logs (committed s) @ permission_audit dw rq u True None # missing_entries dw u route ps (answer_missing a)"
proof -
  from run obtain x task t1 where router: "users_router cr st dw rq tok k s = (Inr (x, task), t1)"
    and a: "a = f x" and t: "t = run_task task t1"
    by (auto simp: with_task_def split: prod.splits sum.splits)
  from router obtain u s1 u' s2 s3 where cur: "get_current_user cr st dw tok s = (Inr u, s1)"
    and perm: "require_api_permission st dw rq u s1 = (Inr u', s2)" and k: "k u' s2 = (Inr (x, task), s3)"
    and t1: "t1 = close_session s3"
    unfolding users_router_def by (elim with_session_InrE seq_InrE) blast
  have s1: "clean s1" "only_others s s1"
    using reads_onlyD [OF reads_only_authentication(3) assms(1) cur] by auto
  from only_others_quiet [OF assms(2) s1(2)] have s1': "committed s1 = committed s" "others s1 = []" by auto
  have u: "u \<in> set (users (committed s1))"
    using get_current_user_of [OF cur] assms(1,2) s1' clean_working by auto
  obtain allowed msg where chk: "check_api_permission u (normalize_route_path (url_path rq) (api_v1_prefix st)) = (allowed, msg)"
    by force
  let ?e = "permission_audit dw rq u allowed msg"
  let ?d = "insert_audit ?e (committed s1)"
  note eq = require_api_permission_eq [OF s1(1) s1'(2) u _ chk, of dw]
  have s2: "s2 = s1\<lparr>working := ?d, committed := ?d\<rparr>" "u' = u" and ok: "allowed" "length (url_path rq) \<le> 500"
    using perm eq assms(3) s1' by (auto simp: Let_def split: if_splits)
  have msg: "msg = None" using chk ok by (auto simp: check_api_permission_def split: if_splits)
  have "good_db ?d"
    using clean_good [OF s1(1)] user_fits_in [OF clean_good [OF s1(1)] u] u assms(3) s1' ok
    by (simp add: good_db_def db_ok_insert_audit all_fit_insert_audit permission_audit_fits)
       (simp add: permission_audit_def refers_def)
  with s1(1) have "clean s2" unfolding s2 by (rule clean_commit_good)
  from reads_onlyD [OF reads this k] have s3: "clean s3" "only_others s2 s3" by auto
  have s3': "committed s3 = ?d" "others s3 = []"
    using only_others_quiet [OF _ s3(2)] s1'(2) by (simp_all add: s2)
  from report [OF k] have task: "task = report_task dw u route ps (answer_missing a)" unfolding s2 a .
  have "t1 = s3" using s3(1) t1 by simp
  have "audit_logs (committed t) = audit_logs ?d @ missing_entries dw u route ps (answer_missing a)"
    unfolding t task \<open>t1 = s3\<close> s3'(1) [symmetric]
    by (rule report_task_logs [OF s3(1) s3'(2)])
       (use u assms(4,5) s1' s3' in \<open>auto simp: insert_audit_def permission_audit_def\<close>)
  then show ?thesis using cur u s1' msg ok by (auto simp: insert_audit_def)
qed

lemma data_task_report: "data_task dw u route ps ms = report_task dw u route ps ms"
  by (simp add: data_task_def report_task_def)

lemma data_request_logs:
  assumes "clean s" "others s = []"
    and "audit_id dw \<notin> al_id ` set (audit_logs (committed s))"
    and "task_audit_id dw \<notin> al_id ` set (audit_logs (committed s))" "task_audit_id dw \<noteq> audit_id dw"
    and "data_request q = Some rq" "handle_request w dw q s = (Inr a, t)"
  shows "\<exists>u s1. get_current_user (w_crypto w) (w_settings w) dw (the (request_token q)) s = (Inr u, s1) \<and>
     u \<in> set (users (committed s)) \<and> audit_logs (committed t) = audit_logs (committed s) @
       permission_audit dw rq u True None # missing_entries dw u (report_route q) (report_parameters w q) (answer_missing a)"
proof -
  note logs = router_logs [OF assms(1-5)]
  show ?thesis
    using assms(6)
  proof (cases q)
    case (List_Users_Data rq' tok limit offset)
    with assms(6) have "rq' = rq" by simp
    from assms(7) [unfolded List_Users_Data handle_request.simps list_users_data_endpoint_def this] show ?thesis unfolding List_Users_Data report_route.simps report_parameters.simps request_token.simps option.sel \<open>rq' = rq\<close>
      by (rule logs)
         (auto intro!: reads_intros simp: data_task_report elim!: seq_InrE split: if_splits prod.splits sum.splits)
  next
    case (Get_Deeplink_1 rq' tok p)
    with assms(6) have "rq' = rq" by simp
    from assms(7) [unfolded Get_Deeplink_1 handle_request.simps get_deeplink_1_def deeplink_endpoint_def this] show ?thesis unfolding Get_Deeplink_1 report_route.simps report_parameters.simps request_token.simps option.sel \<open>rq' = rq\<close>
      by (rule logs)
         (auto intro!: reads_intros simp: data_task_report elim!: seq_InrE split: if_splits prod.splits sum.splits)
  next
    case (Get_Deeplink_2 rq' tok p)
    with assms(6) have "rq' = rq" by simp
    from assms(7) [unfolded Get_Deeplink_2 handle_request.simps get_deeplink_2_def deeplink_endpoint_def this] show ?thesis unfolding Get_Deeplink_2 report_route.simps report_parameters.simps request_token.simps option.sel \<open>rq' = rq\<close>
      by (rule logs)
         (auto intro!: reads_intros simp: data_task_report elim!: seq_InrE split: if_splits prod.splits sum.splits)
  next
    case (Execute_Dynamic_Route rq' tok pre path)
    with assms(6) have "rq' = rq" by simp
    from assms(7) [unfolded Execute_Dynamic_Route handle_request.simps execute_dynamic_route_endpoint_def users_router_def [symmetric] this] show ?thesis unfolding Execute_Dynamic_Route report_route.simps report_parameters.simps request_token.simps option.sel \<open>rq' = rq\<close>
      by (rule logs)
         (auto intro!: reads_intros simp: missing_task_def report_task_def elim!: seq_InrE split: if_splits prod.splits sum.splits)
  qed simp_all
qed

section \<open>Properties\<close>

text \<open>C5: the audit log is append-only: whatever requests of whatever users and runs of the
  administrator script a database sees, and however their statements take turns, every entry that
  was there is still there, in its place and with all its values, but for the reference to its
  user, which the deletion of the user clears.\<close>

theorem audit_log_append_only:
  assumes "interleaved w P d0 d rs"
  shows "\<exists>old new. audit_logs d = old @ new \<and>
     list_all2 (\<lambda>a b. b = a \<or> b = a\<lparr>al_user_id := None\<rparr>) (audit_logs d0) old"
proof -
  have "log_kept d0 d"
    using interleaved_invariant [OF assms, of "log_kept d0"] log_kept_refl trail_program by blast
  then show ?thesis unfolding log_kept_def entry_kept_def .
qed

text \<open>Alice tries to delete the administrator while an entry is already there.\<close>

theorem audit_log_append_only_witness:
  "\<exists>d rs old new. interleaved alice_world (\<lambda>_. True) (insert_audit (permission_audit demo_draw demo_http alice True None) demo_db) d rs \<and>
     audit_logs d = old @ new \<and> length old = 1 \<and> map rn_program rs = [delete_root]"
proof -
  let ?d0 = "insert_audit (permission_audit demo_draw demo_http alice True None) demo_db"
  have "interleaved alice_world (\<lambda>_. True) ?d0 ?d0 [\<lparr>rn_program = delete_root, rn_start = ?d0, rn_turns = []\<rparr>]"
    using interleaved.Arrive [OF interleaved.Begin, of "\<lambda>_. True" delete_root] by simp
  moreover from audit_log_append_only [OF this] obtain old new where
    "audit_logs ?d0 = old @ new" "list_all2 (\<lambda>a b. b = a \<or> b = a\<lparr>al_user_id := None\<rparr>) (audit_logs ?d0) old" by blast
  moreover from this(2) have "length old = 1" by (auto dest: list_all2_lengthD simp: insert_audit_def demo_db_def)
  ultimately show ?thesis by fastforce
qed

text \<open>C21: values without a mapping are audited: where no other transaction interferes, a request for rows that is
  answered leaves exactly the entry of its permission, which has the caller, the path and that it was
  allowed, and, if the response reports values without a mapping, exactly one more, after the response: it has
  the caller, the name of the query, its parameters, and under \<open>missing_mappings\<close> the column and the
  value of each reported one, in their order. An entry that cannot be stored, because a value is not JSON or the
  name of the query is too long, is lost without a trace.\<close>

theorem missing_mappings_audited:
  assumes "clean s" "others s = []"
    and "audit_id dw \<notin> al_id ` set (audit_logs (committed s))"
    and "task_audit_id dw \<notin> al_id ` set (audit_logs (committed s))" "task_audit_id dw \<noteq> audit_id dw"
    and "data_request q = Some rq" "handle_request w dw q s = (Inr a, t)"
  shows "\<exists>u s1. get_current_user (w_crypto w) (w_settings w) dw (the (request_token q)) s = (Inr u, s1) \<and>
     u \<in> set (users (committed s)) \<and>
     (let ps = dput ''missing_mappings''
         (PList (map (\<lambda>m. PDict [(''column_name'', PStr (column_name m)), (''value'', missing_value m)]) (answer_missing a)))
         (report_parameters w q)
      in audit_logs (committed t) = audit_logs (committed s) @
        [\<lparr>al_id = audit_id dw, al_user_id = Some (user_id u), al_username = Some (username u),
          al_api_route = url_path rq,
          al_parameters = Some
            (if endswith (matched_route rq) ''/{prefix}/{path:path}''
             then [(''parameter_names'', PList (map PStr (py_sorted_set (query_keys (query_params rq)))))]
             else map (\<lambda>k. (k, PStr (last (getlist (query_params rq) k)))) (query_keys (query_params rq))),
          al_allowed = True, al_error_message = None, al_time_process_ms = Some (elapsed_ms dw)\<rparr>] @
        (if answer_missing a = [] \<or> 500 < length (report_route q) \<or> \<not> row_json_ok ps then []
         else [\<lparr>al_id = task_audit_id dw, al_user_id = Some (user_id u), al_username = Some (username u),
                al_api_route = report_route q, al_parameters = Some ps, al_allowed = False,
                al_error_message = Some ''Missing PII mapping'', al_time_process_ms = None\<rparr>]))"
proof -
  from data_request_logs [OF assms] obtain u s1 where
    u: "get_current_user (w_crypto w) (w_settings w) dw (the (request_token q)) s = (Inr u, s1)" "u \<in> set (users (committed s))"
    and logs: "audit_logs (committed t) = audit_logs (committed s) @
      permission_audit dw rq u True None # missing_entries dw u (report_route q) (report_parameters w q) (answer_missing a)"
    by blast
  have "user_fits u" by (rule user_fits_in [OF clean_good [OF assms(1)] u(2)])
  then have width: "within 50 (Some (username u))" by (simp add: user_fits_def within_def)
  have dump: "dump_missing = (\<lambda>m. PDict [(''column_name'', PStr (column_name m)), (''value'', missing_value m)])"
    by (rule ext) (rule dump_missing_def)
  show ?thesis
    by (intro exI [of _ u] exI [of _ s1] conjI u)
      (auto simp: logs Let_def missing_entries_def storable_def audit_fits_def width not_le missing_mappings_entry_def
        dump permission_audit_def request_parameters_def str_list_def query_dict_def)
qed

definition rows_world :: "string world" where
  "rows_world = demo_world\<lparr>w_crypto := admin_crypto,
     w_trino_text := (\<lambda>_. Inr [[(''customer_id'', PStr ''00000000000000000000000000000000'')]])\<rparr>"

abbreviation zero_token :: string where
  "zero_token \<equiv> ''00000000000000000000000000000000''"

lemma demo_users_data:
  "map_sum (\<lambda>_. ()) snd (users_data (\<lambda>_. Inr [[(''customer_id'', PStr zero_token)]]) new_account_map 10 0) =
     Inr [\<lparr>column_name = ''customer_id'', missing_value = PStr zero_token\<rparr>]"
  by code_simp

theorem missing_mappings_audited_witness:
  "\<exists>a t. handle_request rows_world demo_draw (List_Users_Data demo_http ''A'' 10 0) (demo_store []) = (Inr a, t) \<and>
     map al_allowed (audit_logs (committed t)) = [True, False] \<and>
     al_parameters (last (audit_logs (committed t))) = Some [(''limit'', PInt 10), (''offset'', PInt 0),
       (''missing_mappings'', PList [PDict [(''column_name'', PStr ''customer_id''), (''value'', PStr zero_token)]])]"
proof -
  let ?q = "List_Users_Data demo_http ''A'' 10 0" and ?u = "users demo_db ! 0"
  have u: "?u \<in> set (users (committed (demo_store [])))" "user_id ?u = 1" "user_role ?u = RoleAdmin"
    by (simp_all add: demo_db_def demo_store_def)
  have cur: "get_current_user admin_crypto default_settings demo_draw ''A'' (demo_store []) = (Inr ?u, demo_store [])"
    using user_by_id_quiet [OF demo_quiet(1,2) u(1)] u(2)
    by (simp add: get_current_user_def seq_def decode_token_def admin_crypto_def subject_of_claims)
  have chk: "check_api_permission ?u q = (True, None)" for q using u(3) by (simp add: check_api_permission_def)
  have ids: "audit_id demo_draw \<notin> al_id ` set (audit_logs (committed (demo_store [])))"
      "task_audit_id demo_draw \<notin> al_id ` set (audit_logs (committed (demo_store [])))"
      "task_audit_id demo_draw \<noteq> audit_id demo_draw"
    by (simp_all add: demo_quiet(3) demo_draw_def)
  obtain t where perm: "require_api_permission default_settings demo_draw demo_http ?u (demo_store []) = (Inr ?u, t)"
    using require_api_permission_eq [OF demo_quiet(1,2) u(1) ids(1) chk, where rq = demo_http and st = default_settings]
    by (simp add: Let_def demo_http_def)
  let ?m = "[\<lparr>column_name = ''customer_id'', missing_value = PStr zero_token\<rparr>]"
  obtain rows where "users_data (w_trino_text rows_world) (env_cache (w_env rows_world)) 10 0 = Inr (rows, ?m)"
    using demo_users_data by (auto simp: rows_world_def demo_world_def demo_env_def map_sum_def split: sum.splits)
  then obtain t' where run: "handle_request rows_world demo_draw ?q (demo_store []) = (Inr (Data_Rows (rows, ?m)), t')"
    by (simp add: list_users_data_endpoint_def users_router_def with_task_def with_session_def handle_def seq_def
        cur perm embed_def ret_def rows_world_def demo_world_def)
  have req: "data_request ?q = Some demo_http" by simp
  have ok: "row_json_ok (dput ''missing_mappings''
      (PList [PDict [(''column_name'', PStr ''customer_id''), (''value'', PStr zero_token)]]) [(''limit'', PInt 10), (''offset'', PInt 0)])"
    by code_simp
  from missing_mappings_audited [OF demo_quiet(1,2) ids req run] run ok show ?thesis
    by (auto simp: demo_quiet(3) Let_def)
qed

end
