(* ===== verification/Turn_Bound.thy ===== *)
theory Turn_Bound
  imports Confinement
begin

text \<open>
  How many turns a program takes: no request waits for another or tries again, so whatever the
  others do in between, it has ended after a fixed number of statements.
\<close>

named_theorems turns_intros "bounds on the turns of procedures"

section \<open>Counting turns\<close>

text \<open>A procedure takes at most \<open>n\<close> of the steps the others have ready.\<close>

definition turns :: "nat \<Rightarrow> 'a dbp \<Rightarrow> bool" where
  "turns n m \<longleftrightarrow> (\<forall>s. length (others s) \<le> length (others (snd (m s))) + n)"

lemma turnsD: "turns n m \<Longrightarrow> m s = (r, t) \<Longrightarrow> length (others s) \<le> length (others t) + n"
  by (metis turns_def snd_conv)

lemma turns_mono: "turns m x \<Longrightarrow> m \<le> n \<Longrightarrow> turns n x"
  unfolding turns_def by (meson add_left_mono order_trans)

lemma turns_pure [turns_intros]:
  "turns 0 (ret x)" "turns 0 (raise e)" "turns 0 (reads f)" "turns 0 (embed r)" "turns 0 (require b e)"
  "turns 0 commit" "turns 0 rollback"
  by (simp_all add: turns_def ret_def raise_def reads_def embed_def require_def commit_def rollback_def)

lemma turns_let_others: "length (others s) \<le> length (others (let_others s)) + 1"
  by (simp add: let_others_def split: list.splits)

lemma turns_statements [turns_intros]: "turns 1 (select q)" "turns 1 (flush hit change)"
  using turns_let_others by (auto simp: turns_def select_def flush_def Let_def)

lemma turns_seq [turns_intros]:
  assumes "turns m x" "\<And>y. turns n (k y)"
  shows "turns (m + n) (seq x k)"
proof -
  have "length (others s) \<le> length (others (snd (seq x k s))) + (m + n)" for s
  proof (cases "x s")
    case (Pair r t)
    note bound = turnsD [OF assms(1) Pair]
    have rest: "length (others t) \<le> length (others (snd (k y t))) + n" for y
      using assms(2) [of y] by (simp add: turns_def)
    show ?thesis
    proof (cases r)
      case (Inl e)
      with bound Pair show ?thesis by (simp add: seq_def)
    next
      case (Inr y)
      with bound rest [of y] Pair show ?thesis by (simp add: seq_def)
    qed
  qed
  then show ?thesis by (simp add: turns_def)
qed

lemma turns_handle [turns_intros]:
  assumes "turns m x" "\<And>e. turns n (h e)"
  shows "turns (m + n) (handle x h)"
proof -
  have "length (others s) \<le> length (others (snd (handle x h s))) + (m + n)" for s
  proof (cases "x s")
    case (Pair r t)
    note bound = turnsD [OF assms(1) Pair]
    have rest: "length (others t) \<le> length (others (snd (h y t))) + n" for y
      using assms(2) [of y] by (simp add: turns_def)
    show ?thesis
    proof (cases r)
      case (Inl e)
      with bound rest [of e] Pair show ?thesis by (simp add: handle_def)
    next
      case (Inr y)
      with bound Pair show ?thesis by (simp add: handle_def)
    qed
  qed
  then show ?thesis by (simp add: turns_def)
qed

lemma turns_if [turns_intros]: "turns m x \<Longrightarrow> turns n y \<Longrightarrow> turns (max m n) (if b then x else y)"
  by (auto elim: turns_mono)

lemma turns_option [turns_intros]:
  "turns m x \<Longrightarrow> (\<And>y. turns n (f y)) \<Longrightarrow> turns (max m n) (case v of None \<Rightarrow> x | Some y \<Rightarrow> f y)"
  by (cases v) (simp, erule turns_mono, simp, simp, rule turns_mono, blast, simp)

lemma turns_sum [turns_intros]:
  "(\<And>x. turns m (f x)) \<Longrightarrow> (\<And>y. turns n (g y)) \<Longrightarrow> turns (max m n) (case v of Inl x \<Rightarrow> f x | Inr y \<Rightarrow> g y)"
  by (cases v) (simp, rule turns_mono, blast, simp, simp, rule turns_mono, blast, simp)

lemma turns_prod [turns_intros]: "(\<And>x y. turns n (f x y)) \<Longrightarrow> turns n (case v of (x, y) \<Rightarrow> f x y)"
  by (cases v) simp

lemma turns_let [turns_intros]: "turns n (f x) \<Longrightarrow> turns n (Let x f)"
  by simp

lemma turns_with_session [turns_intros]: "turns n m \<Longrightarrow> turns n (with_session m)"
proof -
  assume "turns n m"
  then have "turns (n + (0 + 0)) (handle m (\<lambda>e. seq rollback (\<lambda>_. raise e)))" by (intro turns_intros)
  then show ?thesis by (simp add: turns_def with_session_def close_session_def split_beta)
qed

lemma turns_with_task:
  assumes "turns m x" "\<And>s y task t. x s = (Inr (y, Some task), t) \<Longrightarrow> turns n task"
  shows "turns (m + n) (with_task f x)"
proof -
  have "length (others s) \<le> length (others (snd (with_task f x s))) + (m + n)" for s
  proof (cases "x s")
    case (Pair r t)
    note bound = turnsD [OF assms(1) Pair]
    show ?thesis
    proof (cases r)
      case (Inr yt)
      obtain y task where yt: "yt = (y, task)" by force
      show ?thesis
      proof (cases task)
        case (Some m')
        from assms(2) Pair Inr yt Some have "turns n m'" by simp
        then have "length (others t) \<le> length (others (snd (m' t))) + n" by (simp add: turns_def)
        with bound Pair Inr yt Some show ?thesis by (simp add: with_task_def run_task_def close_session_def)
      qed (use bound Pair Inr yt in \<open>simp add: with_task_def run_task_def\<close>)
    qed (use bound Pair in \<open>simp add: with_task_def\<close>)
  qed
  then show ?thesis by (simp add: turns_def)
qed

section \<open>Repositories and services\<close>

lemma turns_rows [turns_intros]:
  "turns 1 (users_where P)" "turns 1 (get_user_by_id i)" "turns 1 (get_user_by_email e)"
  "turns 1 (get_user_by_username n)" "turns 1 get_admin_user" "turns 1 (repo_list_users limit offset)"
  "turns 1 (get_route_by_id i)" "turns 1 (get_by_route p q)" "turns 1 list_all_routes"
  "turns 1 (delete_user_row u)" "turns 1 (delete_route_row r)" "turns 1 (refresh f)"
  unfolding users_where_def get_user_by_id_def get_user_by_email_def get_user_by_username_def get_admin_user_def
    repo_list_users_def get_route_by_id_def get_by_route_def list_all_routes_def delete_user_row_def
    delete_route_row_def refresh_def
  by goal_cases (rule turns_mono, (rule turns_intros)+, simp)+

lemma turns_changes [turns_intros]:
  "turns 2 (create_user_row u)" "turns 2 (update_user_row u vs)" "turns 2 (create_route_row r)"
  "turns 2 (update_route_row r gs)" "turns 2 (create_audit_row a)"
  unfolding create_user_row_def update_user_row_def create_route_row_def update_route_row_def create_audit_row_def add_row_def
  by goal_cases (rule turns_mono, (rule turns_intros)+, simp)+

lemma turns_wrappers [turns_intros]:
  "turns n m \<Longrightarrow> turns n (conflict_on_integrity msg m)" "turns n m \<Longrightarrow> turns n (committing m)"
  "turns n m \<Longrightarrow> turns n (answered f m)" "turns n m \<Longrightarrow> turns n (atomically commit rollback m err)"
  unfolding conflict_on_integrity_def committing_def answered_def atomically_def
  by goal_cases (rule turns_mono, (rule turns_intros | assumption)+, simp)+

lemma turns_users [turns_intros]:
  "turns 2 (ensure_unique_identity em un cur)" "turns 1 (get_user i)" "turns 1 (list_users limit offset)"
  unfolding ensure_unique_identity_def ensure_email_def ensure_username_def get_user_def list_users_def
  by goal_cases (rule turns_mono, (rule turns_intros)+, simp)+

lemma turns_user_service [turns_intros]:
  "turns 4 (create_user cr st salt i p)" "turns 3 (update_profile u q)" "turns 2 (change_password cr st salt u c)"
  "turns 5 (update_user cr st salt i a)" "turns 1 (delete_account u)" "turns 2 (delete_user i)"
  unfolding create_user_def update_profile_def change_password_def update_user_def delete_account_def delete_user_def
  by goal_cases (rule turns_mono, (rule turns_intros)+, simp)+

lemma turns_authentication [turns_intros]:
  "turns 1 (login cr st dw p)" "turns 1 (refresh_pair cr st dw tok)" "turns 1 (get_current_user cr st dw tok)"
  "turns 0 (require_roles rs u)" "turns 2 (require_api_permission st dw rq u)"
  unfolding login_def refresh_pair_def get_current_user_def require_roles_def require_api_permission_def
    write_api_permission_audit_log_def
  by goal_cases (rule turns_mono, (rule turns_intros)+, simp)+

lemma turns_audit [turns_intros]:
  "turns 2 (audit_missing_mappings dw u route ps ms)"
  "turns 2 (audit_dynamic_route_action dw u action i pre path allowed ec)"
  unfolding audit_missing_mappings_def audit_dynamic_route_action_def
  by goal_cases (rule turns_mono, (rule turns_intros)+, simp)+

lemma turns_client [turns_intros]: "turns 1 (client_execute qc k dbt stmt ps)"
proof (cases dbt)
  case DbPostgres
  then show ?thesis unfolding client_execute_def by simp (rule turns_mono, (rule turns_intros)+, simp)
qed (simp add: client_execute_def, rule turns_mono, (rule turns_intros)+, simp)

lemma turns_routes [turns_intros]:
  "turns 1 (run_lab_test_if_requested env w canonical)" "turns 4 (create_route env i w actor)"
  "turns 1 (get_route i)" "turns 1 list_routes" "turns 5 (update_route env i w actor)" "turns 2 (delete_route i)"
  "turns 2 (run_paginated env route canonical defs ps pg sz)" "turns 3 (execute_route env pre path raw)"
  unfolding run_lab_test_if_requested_def create_route_def get_route_def list_routes_def update_route_def delete_route_def
    run_paginated_def execute_route_def
  by goal_cases (rule turns_mono, (rule turns_intros)+, simp)+

section \<open>Requests\<close>

lemma turns_with_payload [turns_intros]: "(\<And>x. turns n (k x)) \<Longrightarrow> turns n (with_payload p k)"
  unfolding with_payload_def by (rule turns_mono, (rule turns_intros | assumption)+, simp)

lemma turns_admin_only [turns_intros]: "(\<And>u. turns n (k u)) \<Longrightarrow> turns n (admin_only k u)"
  unfolding admin_only_def by (rule turns_mono, (rule turns_intros | assumption)+, simp)

lemma turns_router [turns_intros]: "(\<And>u. turns n (k u)) \<Longrightarrow> turns (3 + n) (users_router cr st dw rq tok k)"
  unfolding users_router_def by (rule turns_mono, (rule turns_intros | assumption)+, simp)

lemma turns_admin_session [turns_intros]: "(\<And>u. turns n (k u)) \<Longrightarrow> turns (1 + n) (admin_session cr st dw tok k)"
  unfolding admin_session_def by (rule turns_mono, (rule turns_intros | assumption)+, simp)

lemma turns_with_id [turns_intros]: "(\<And>x. turns m (k x)) \<Longrightarrow> turns n bad \<Longrightarrow> turns (max m n) (with_id k bad i)"
  unfolding with_id_def by (cases i) (simp, erule turns_mono, simp, simp, rule turns_mono, blast, simp)

lemma turns_audited_write [turns_intros]: "turns n m \<Longrightarrow> turns (n + 4) (audited_write dc dw admin action i w m)"
  unfolding audited_write_def by (rule turns_mono, (rule turns_intros | assumption)+, simp)

lemma turns_data [turns_intros]:
  "turns 3 (list_users_data_endpoint trino cache cr st dw rq tok limit offset)"
  "turns 3 (deeplink_endpoint route service client cache cr st dw rq tok today p)"
  "turns 6 (execute_dynamic_route_endpoint env cr st dw rq tok pre path)"
  unfolding list_users_data_endpoint_def deeplink_endpoint_def execute_dynamic_route_endpoint_def
  by goal_cases (rule turns_mono, (rule turns_intros)+, simp)+

lemma turns_by_id [turns_intros]:
  "turns 2 (get_dynamic_route_endpoint dc cr st dw tok i)" "turns 5 (delete_dynamic_route_endpoint cr st dw tok i)"
  unfolding get_dynamic_route_endpoint_def delete_dynamic_route_endpoint_def
  by goal_cases (rule turns_mono, (rule turns_intros)+, simp)+

lemma turns_reports:
  "data_task dw u route ps ms = Some task \<Longrightarrow> turns 2 task"
  "missing_task dw u pre path query res = Some task \<Longrightarrow> turns 2 task"
  by (auto simp: data_task_def missing_task_def intro: turns_audit split: if_splits)

lemma turns_data_tasks:
  "list_users_data_endpoint trino cache cr st dw rq tok limit offset s = (Inr (x, Some task), t) \<Longrightarrow> turns 2 task"
  unfolding list_users_data_endpoint_def users_router_def
  by (auto elim!: with_session_InrE seq_InrE dest!: turns_reports split: if_splits prod.splits)

lemma turns_deeplink_tasks:
  "deeplink_endpoint route service client cache cr st dw rq tok today p s = (Inr (x, Some task), t) \<Longrightarrow> turns 2 task"
  unfolding deeplink_endpoint_def users_router_def
  by (auto elim!: with_session_InrE seq_InrE dest!: turns_reports split: if_splits prod.splits option.splits)

lemma turns_route_tasks:
  "execute_dynamic_route_endpoint env cr st dw rq tok pre path s = (Inr (x, Some task), t) \<Longrightarrow> turns 2 task"
  unfolding execute_dynamic_route_endpoint_def
  by (auto elim!: with_session_InrE seq_InrE dest!: turns_reports)

definition TURNS :: nat where
  "TURNS = 10"

lemma turns_request: "turns TURNS (handle_request w dw q)"
proof -
  note endpoints = health_check_def login_endpoint_def token_endpoint_def refresh_endpoint_def me_endpoint_def
    change_password_endpoint_def create_user_endpoint_def list_users_endpoint_def update_me_endpoint_def
    delete_me_endpoint_def get_user_endpoint_def update_user_endpoint_def delete_user_endpoint_def
    get_deeplink_1_def get_deeplink_2_def create_dynamic_route_endpoint_def create_dynamic_route_body_def
    list_dynamic_routes_endpoint_def update_dynamic_route_endpoint_def update_dynamic_route_body_def reject_admin_def
  show ?thesis
    unfolding TURNS_def
    by (cases q; simp only: handle_request.simps endpoints;
        rule turns_mono, (rule turns_intros turns_with_task turns_data_tasks turns_deeplink_tasks turns_route_tasks | assumption)+, simp)
qed

lemma turns_script: "turns TURNS (create_initial_admin cr st check salt new_id password)"
proof -
  have "turns TURNS (seq get_admin_user (\<lambda>existing_admin. case existing_admin of
        Some u \<Rightarrow> ret (Skipped (email u))
      | None \<Rightarrow> seq default_user (\<lambda>existing. case existing of
          None \<Rightarrow> create_admin cr st check salt new_id password
        | Some u \<Rightarrow> promote_user cr st check salt password u)))"
    unfolding TURNS_def create_admin_def promote_user_def default_user_def model_of_def
    by (rule turns_mono, (rule turns_intros)+, simp)
  then show ?thesis by (simp add: turns_def create_initial_admin_def close_session_def split_beta)
qed

lemma turns_program: "turns TURNS (run_program w p)"
proof (cases p)
  case (Serve dw q t)
  have "turns (TURNS + 0) (run_program w p)"
    unfolding Serve run_program.simps by (rule turns_intros turns_request)+
  then show ?thesis by simp
next
  case (Make_Admin salt new_id pw t)
  have "turns (TURNS + 0) (run_program w p)"
    unfolding Make_Admin run_program.simps by (rule turns_intros turns_script)+
  then show ?thesis by simp
qed

lemma waiting_turns: "waiting w r \<Longrightarrow> length (rn_turns r) < TURNS"
  using turns_program [of w "rn_program r"]
  by (auto simp: turns_def waiting_def probed_def session_on_def dest!: spec
      [of _ "session_on (rn_start r) (map (\<lambda>d _. d) (rn_turns r) @ [\<lambda>d. d]) (program_time (rn_program r))"])

section \<open>Properties\<close>

text \<open>C15: no request waits for another and none tries again: however requests and runs of the
  administrator script interleave, whoever writes what in between, each has ended after at most ten
  turns, so a number of them takes at most ten times as many turns together; one that has had its
  ten turns is not waiting for another.\<close>

theorem programs_end:
  assumes "interleaved w P d0 d rs"
  shows "(\<forall>r \<in> set rs. length (rn_turns r) \<le> TURNS \<and> (waiting w r \<longrightarrow> length (rn_turns r) < TURNS)) \<and>
     sum_list (map (\<lambda>r. length (rn_turns r)) rs) \<le> TURNS * length rs"
proof -
  have each: "\<forall>r \<in> set rs. length (rn_turns r) \<le> TURNS"
    using assms
  proof induction
    case (Turn d rs i)
    have "length (rn_turns (take_turn d (rs ! i))) \<le> TURNS"
      using waiting_turns [OF Turn.hyps(3)] by (simp add: take_turn_def)
    with Turn.IH show ?case by (auto dest!: subsetD [OF set_update_subset_insert])
  qed simp_all
  then have "sum_list (map (\<lambda>r. length (rn_turns r)) rs) \<le> TURNS * length rs"
    by (induction rs) auto
  with each waiting_turns show ?thesis by blast
qed

theorem programs_end_witness:
  "\<exists>d rs. interleaved alice_world (names_only {2} alice_world) demo_db d rs \<and>
     sum_list (map (\<lambda>r. length (rn_turns r)) rs) = 2 \<and> (\<forall>r \<in> set rs. length (rn_turns r) \<le> 10)"
proof -
  obtain d e where d: "interleaved alice_world (names_only {2} alice_world) demo_db d
      [take_turn demo_db (fresh delete_root), take_turn e (fresh change_own)]"
    using alice_interleaving by blast
  from programs_end [OF d] have "\<forall>r \<in> set [take_turn demo_db (fresh delete_root), take_turn e (fresh change_own)].
      length (rn_turns r) \<le> 10"
    unfolding TURNS_def by blast
  with d show ?thesis by (intro exI conjI) (assumption, simp_all add: take_turn_def fresh_def)
qed

end
