(* ===== verification/Spec2Isabelle.thy ===== *)
theory Spec2Isabelle
  imports Migration_Env Metrics Wiring Route_Updates Reachable Audit_Trail Turn_Bound
begin

text \<open>
  A verification library for the data API: a FastAPI service that authenticates users, serves
  fixed and dynamically registered queries against Trino and PostgreSQL, and replaces tokens of
  customers in the results by the values of a cached mapping table. All paths are under \<open>src/\<close>.

  \<^bold>\<open>How the program is modelled.\<close> A coroutine is a procedure \<open>'a dbp\<close> over an explicit store
  (Prelude, Database): the committed database, the session's own view of it, a dirty flag, the
  clock, and the list of commits other transactions will make, one of which happens before each
  statement of a session that has written nothing. Exceptions are values of \<open>exn\<close> in a sum
  type; an exception of the program carries the class, status, code, message and details of the
  source. Python integers are \<open>int\<close>, floats are binary64 values (Py_Values), strings are lists of
  the characters up to U+00FF, dictionaries are association lists in insertion order. Loops
  over a source of unknown length are \<open>partial_function (option)\<close>, with \<open>None\<close> for not
  returning, and the theorems prove that they return; the retries of the start-up recurse on the
  number of attempts left. SHA-256 works on 32-bit words. Times are integers.

  \<^bold>\<open>The parts\<close>, each in the order of the code it models:

  \<^item> App_Errors: \<open>app/core/exceptions.py\<close>, the error classes and the handlers as one function.
  \<^item> Pii_Cache, Pii_Sync, Pii_Mapping: the in-memory map (\<open>services/account_map_in_memory.py\<close>), the
    repository of the mapping table, the loaders, the start-up retries and the background loop
    (\<open>pii_mapping_snapshot.py\<close>, \<open>pii_cache_sync.py\<close>, \<open>dependencies/services.py\<close>), and the mapper
    with its rules (\<open>services/query_engine/pii_*.py\<close>, \<open>base_service.py\<close>).
  \<^item> Sql_Safety, Dynamic_Params: the SQL policy and the parameters of dynamic routes
    (\<open>sql_safety.py\<close>, \<open>dynamic_parameters.py\<close>).
  \<^item> Database, Transactions, Config, Security: tables with their constraints, sessions and
    repositories (\<open>app/models\<close>, \<open>app/repositories\<close>, \<open>infrastructure/database\<close>), the settings
    (\<open>core/config.py\<close>), passwords and tokens (\<open>core/security.py\<close>).
  \<^item> User_Service, Auth, Audit_Service: \<open>services/user.py\<close>, \<open>services/auth.py\<close>,
    \<open>services/audit_log.py\<close>, the schemas, \<open>dependencies/auth.py\<close> and the endpoints of both routers.
  \<^item> Dynamic_Routes, Route_Execution, Route_Updates: \<open>schemas/dynamic_route.py\<close>,
    \<open>services/query_engine/dynamic_routes.py\<close> and its two routers; what an execution can do, and what
    an update leaves of a row that others change meanwhile.
  \<^item> Trino_Client: \<open>infrastructure/trino/client.py\<close> as a step relation over interleaved requests,
    worker threads and closings, what happens under the lock being one step.
  \<^item> Data_Routes: the users query and the Power BI queries with their requests and endpoints; the
    statement is an expression tree with a semantics of its own.
  \<^item> Migrations, Migration_Env: the six revisions of \<open>alembic/versions\<close> as operations over a schema with
    rows; \<open>alembic/env.py\<close> with the interpolating configuration object the database URL goes through.
  \<^item> Bootstrap: \<open>scripts/create_initial_admin.py\<close>.
  \<^item> Routing: the table of \<open>api/v1/router.py\<close> and the endpoints' decorators, with dispatch.
  \<^item> Application: \<open>lifespan\<close> and the layers of \<open>app/main.py\<close>, \<open>app/middlewares\<close>, the shared
    objects of \<open>dependencies/services.py\<close>, the engines. What a layer makes of a response is a function
    of what comes from inside; the debug flag of the settings is an argument.
  \<^item> Logging: \<open>core/logging.py\<close>, \<open>middlewares/request_timing.py\<close> and the main process: formatters,
    handlers and loggers, their configuration, and the records a request leaves. The same layers are given
    once more with the records they write under the context variable of the request id.
  \<^item> Metrics: \<open>core/metrics.py\<close> over the processes uvicorn starts: what each of them loads, the requests
    its instrumentation observes, and what the metrics server of the main process shows.
  \<^item> Wiring: \<open>app/dependencies\<close> with the constructors behind it: each provider, the dependencies of
    every provider and endpoint, and their resolution with the cache of the request.
  \<^item> System: all endpoints behind one function \<open>handle_request\<close>, with the background tasks that run
    after a response, and the databases that requests and runs of the administrator script lead
    to when they take turns statement by statement, any number of them at a time and in any
    order (\<open>interleaved\<close>). System_Invariants has the rules by which a property of the rows is kept by
    every operation, that what every program keeps in its session holds under every interleaving,
    and a locale for properties that audit entries keep; Reachable, Confinement and Audit_Trail
    interpret it, for the rows themselves, for what the holder of a token may change, and for
    the audit log. Turn_Bound counts the turns a program takes.

  \<^bold>\<open>Interfaces.\<close> Locales state what one part relies on in another and are interpreted on the
  models of the code: a paged source of records, also one that breaks off, by the SQL repository
  (Pii_Sync); a look-up by a unique key, an insertion of a row and a unit of work by the
  repositories and sessions (Database); a validator whose result is again accepted by the SQL
  policy (Sql_Safety); the remaining ones stand with the components that provide them.

  \<^bold>\<open>What is shown.\<close> For the PII cache: loading terminates and is exact, the background loop keeps
  an invariant under growth between its rounds and failures and catches up in one complete round, a mapped row never
  shows a token, and the reverse look-up is exact. For dynamic routes: only read-only statements are
  accepted and stored, an execution depends only on answers to accepted texts, parameters have
  their declared types, a page holds the rows of its limit and offset, a route that was created can be
  executed as long as its row is there and then uses its payload and what the policy makes of its canonical
  text, and it is reachable through the route table with the stated exceptions. For users and
  authorisation: uniqueness survives races, tokens authenticate exactly their user, permissions
  respect segment boundaries, and each decision is audited before it takes effect, whatever other
  transactions do meanwhile. For the
  system as a whole, under every interleaving: the database satisfies its constraints and holds only
  rows made of accepted values, users without the administrator role are confined to their own
  account, the audit log is append-only, and every request ends after at most ten turns; without a
  valid token nothing is written, values without a mapping are audited, and the dependencies of a
  request share one session and check the caller before a service is built. For the Trino
  client: every interleaving refines a pool with one current engine, no engine is lost, and finitely
  many requests take a bounded number of steps. For the migrations: they agree with the models, are
  reverted by their downgrades on a database without rows, the last two also with rows, and keep the audit history; an upgrade is all or
  nothing. For the application: start-up, service,
  shutdown, the responses of every request and the log lines it leaves, which read back as what was
  logged. Several theorems state behaviour that is a defect:
  an empty table at start-up stops the synchronisation, rows appended during a load are skipped, huge
  integers for a float parameter and long paths end as server errors, self-service routes are
  denied to ordinary users, routes of one segment under \<open>users\<close> are never executed, concurrent updates
  of a route can mix its columns, a database URL with an escaped character stops the migrations, the
  offline migrations cannot finish, the metrics stay empty with more than one worker, an audit entry
  that cannot be stored is lost, a customer value with a suffix finds no account, a rejected NaN ends as
  a server error, and the responses and log lines of time-outs and unexpected errors
  lack the request id.

  \<^bold>\<open>Parameters and hypotheses.\<close> Code outside the repository is an argument: sqlglot (the record
  \<open>sqlglot\<close>), SQLAlchemy's scan for binds, pydantic's codec of parameter definitions and its check of
  e-mail addresses, bcrypt and PyJWT (the record \<open>crypto\<close>), the answers of Trino and PostgreSQL to
  queries, random identifiers and the clock (the record \<open>draw\<close>). Theorems that need more name it:
  that a checked password is the hashed one, that
  an encoded token is decoded again, that Trino's string functions agree with Python's,
  which headers Starlette's CORS layer sets, and the names and levels of uvicorn's loggers. The regular
  expressions of Starlette's paths, the order of its layers and the meaning of Alembic's operations
  are written out as their documentation gives them.

  \<^bold>\<open>Not modelled.\<close> The collectors of prometheus_client, the rotation of log files and
  uvicorn itself but for the records it writes, which are libraries the program only calls; reading the environment. A body that is not
  JSON at all, which the framework refuses before any dependency runs. Of PostgreSQL: the order of
  rows with equal sort keys, the refusal of NUL characters in text, and the loss of a connection inside a request. Of SQLAlchemy:
  stale objects of the identity map within one session, beyond the columns an update leaves out, and the
  comparison of parameter definitions up to the order of their keys.
  Characters beyond U+00FF.
\<close>

end
